(* ===== verification/GoPrelude.thy ===== *)
theory GoPrelude
  imports Main "HOL-Library.Word"
begin

text \<open>
  Shared vocabulary of the development: the machine integers of the Go program, the signed
  arithmetic lemmas about them, and generic facts on lists that several components use.

  Go's \<open>int\<close> is 64 bits wide on every platform the service is deployed to
  (deploy/k8s, docker), so \<open>int\<close> and \<open>int64\<close> are both \<open>64 word\<close>,
  read as two's complement by \<open>sint\<close> and compared by \<open>\<le>s\<close> and \<open><s\<close>;
  \<open>+\<close>, \<open>-\<close> and \<open>*\<close> wrap around exactly as Go's do.
\<close>

type_synonym int64 = "64 word"
type_synonym goint = "64 word"
type_synonym uint64 = "64 word"

text \<open>Instants and durations of package time, in nanoseconds; \<open>0\<close> is the zero Time.\<close>

type_synonym time = int
type_synonym duration = int64

named_theorems go_simps \<open>facts every component's simplification uses\<close>
named_theorems program_defs \<open>the definitions that unfold a program into its steps\<close>

section \<open>Signed 64-bit arithmetic\<close>

definition in_int64 :: "int \<Rightarrow> bool" where
  "in_int64 k \<longleftrightarrow> - (2 ^ 63) \<le> k \<and> k < 2 ^ 63"

lemma in_int64_sint [simp, intro]: "in_int64 (sint (a :: int64))"
  using sint_ge [of a] sint_lt [of a] by (simp add: in_int64_def)

lemma sint_add_exact:
  "in_int64 (sint a + sint b) \<Longrightarrow> sint (a + b :: int64) = sint a + sint b"
  by (simp add: sint_word_ariths in_int64_def signed_take_bit_int_eq_self)

lemma sint_diff_exact:
  "in_int64 (sint a - sint b) \<Longrightarrow> sint (a - b :: int64) = sint a - sint b"
  by (simp add: sint_word_ariths in_int64_def signed_take_bit_int_eq_self)

lemma sint_mult_exact:
  "in_int64 (sint a * sint b) \<Longrightarrow> sint (a * b :: int64) = sint a * sint b"
  by (simp add: sint_word_ariths in_int64_def signed_take_bit_int_eq_self)

text \<open>Taking a quantity that is available never goes below zero.\<close>

lemma sint_diff_available:
  assumes "q \<le>s a" and "0 \<le>s q"
  shows "sint (a - q :: int64) = sint a - sint q"
proof (rule sint_diff_exact)
  from assms have "0 \<le> sint q" "sint q \<le> sint a"
    by (simp_all add: word_sle_eq)
  with in_int64_sint [of a] show "in_int64 (sint a - sint q)"
    unfolding in_int64_def by linarith
qed

lemma sle_trans_diff: "q \<le>s a \<Longrightarrow> 0 \<le>s q \<Longrightarrow> 0 \<le>s (a - q :: int64)"
  using sint_diff_available [of q a] by (simp add: word_sle_eq)

lemma sless_imp_sle [intro]: "(a :: int64) <s b \<Longrightarrow> a \<le>s b"
  by (simp add: word_sle_eq word_sless_alt)

lemma not_sle_sless: "\<not> (a :: int64) \<le>s b \<longleftrightarrow> b <s a"
  by (auto simp: word_sle_eq word_sless_alt)

lemma not_sless_sle: "\<not> (a :: int64) <s b \<longleftrightarrow> b \<le>s a"
  by (auto simp: word_sle_eq word_sless_alt)

lemma sless_irrefl [simp]: "\<not> (a :: int64) <s a"
  by (simp add: word_sless_alt)

lemma sle_refl [simp]: "(a :: int64) \<le>s a"
  by (simp add: word_sle_eq)

section \<open>Lists as tables\<close>

lemma find_map_key:
  assumes "\<And>r. k (f r) = k r"
  shows "find (\<lambda>r. k r = x) (map f rs) = map_option f (find (\<lambda>r. k r = x) rs)"
  by (induction rs) (auto simp: assms)

lemma find_append:
  "find P (xs @ ys) = (case find P xs of None \<Rightarrow> find P ys | Some x \<Rightarrow> Some x)"
  by (induction xs) auto

lemma find_SomeD: "find P xs = Some x \<Longrightarrow> P x \<and> x \<in> set xs"
  by (induction xs) (auto split: if_splits)

lemma find_NoneD: "find P xs = None \<Longrightarrow> x \<in> set xs \<Longrightarrow> \<not> P x"
  by (auto simp: find_None_iff)

text \<open>On a column with distinct values a row found by its key is the only one with it.\<close>

lemma distinct_key_unique:
  assumes "distinct (map k rs)" and "r \<in> set rs" and "r' \<in> set rs" and "k r = k r'"
  shows "r = r'"
  using assms by (auto simp: distinct_map dest: inj_onD)

lemma find_distinct_key:
  assumes "distinct (map k rs)" and "r \<in> set rs"
  shows "find (\<lambda>x. k x = k r) rs = Some r"
proof (cases "find (\<lambda>x. k x = k r) rs")
  case None
  with assms(2) show ?thesis by (auto simp: find_None_iff)
next
  case (Some x)
  then have "k x = k r" "x \<in> set rs" by (auto dest: find_SomeD)
  with assms Some show ?thesis by (metis distinct_key_unique)
qed

lemma filter_distinct_key:
  assumes "distinct (map k rs)"
  shows "filter (\<lambda>r. k r = x \<and> P r) rs =
    (case find (\<lambda>r. k r = x) rs of None \<Rightarrow> [] | Some r \<Rightarrow> if P r then [r] else [])"
  using assms
proof (induction rs)
  case Nil
  then show ?case by simp
next
  case (Cons r rs)
  show ?case
  proof (cases "k r = x")
    case True
    with Cons.prems have "\<forall>y \<in> set rs. k y \<noteq> x" by (auto simp: image_iff)
    then have "filter (\<lambda>y. k y = x \<and> P y) rs = []" by auto
    with True show ?thesis by simp
  next
    case False
    with Cons show ?thesis by simp
  qed
qed

section \<open>Decimal text\<close>

text \<open>
  Package fmt's \<open>%d\<close> for a non-negative number (\<open>dec\<close>), for a signed one
  (\<open>dec_int\<close>), \<open>%02d\<close> (\<open>pad2\<close>), and the value of a string of decimal
  digits (\<open>undec\<close>).
\<close>

definition digit_char :: "nat \<Rightarrow> char" where
  "digit_char d = char_of (48 + d)"

definition char_digit :: "char \<Rightarrow> nat" where
  "char_digit c = of_char c - 48"

fun dec :: "nat \<Rightarrow> string" where
  "dec n = (if n < 10 then [digit_char n] else dec (n div 10) @ [digit_char (n mod 10)])"

declare dec.simps [simp del]

definition dec_int :: "int \<Rightarrow> string" where
  "dec_int k = (if k < 0 then ''-'' @ dec (nat (- k)) else dec (nat k))"

definition pad2 :: "int \<Rightarrow> string" where
  "pad2 k = (let s = dec_int k in if length s < 2 then ''0'' @ s else s)"

definition undec :: "string \<Rightarrow> nat" where
  "undec s = foldl (\<lambda>a c. 10 * a + char_digit c) 0 s"

lemma char_digit_digit_char [simp]: "d < 10 \<Longrightarrow> char_digit (digit_char d) = d"
  by (simp add: char_digit_def digit_char_def)

lemma undec_snoc: "undec (s @ [c]) = 10 * undec s + char_digit c"
  by (simp add: undec_def)

lemma undec_dec [simp]: "undec (dec n) = n"
proof (induction n rule: dec.induct)
  case (1 n)
  show ?case
  proof (cases "n < 10")
    case True
    then show ?thesis by (simp add: dec.simps [of n] undec_def)
  next
    case False
    with "1.IH" have "undec (dec (n div 10)) = n div 10" by simp
    with False show ?thesis by (simp add: dec.simps [of n] undec_snoc)
  qed
qed

lemma dec_inject [simp]: "dec m = dec n \<longleftrightarrow> m = n"
  by (metis undec_dec)

lemma dec_not_Nil [simp]: "dec n \<noteq> []"
  by (subst dec.simps) simp

lemma dec_digits: "c \<in> set (dec n) \<Longrightarrow> \<exists>d < 10. c = digit_char d"
proof (induction n rule: dec.induct)
  case (1 n)
  show ?case
  proof (cases "n < 10")
    case True
    with "1.prems" show ?thesis by (auto simp: dec.simps [of n])
  next
    case False
    then have "dec n = dec (n div 10) @ [digit_char (n mod 10)]" by (simp add: dec.simps [of n])
    with "1.prems" consider "c \<in> set (dec (n div 10))" | "c = digit_char (n mod 10)" by auto
    then show ?thesis
    proof cases
      case 1
      with "1.IH" False show ?thesis by simp
    next
      case 2
      then show ?thesis by (intro exI [of _ "n mod 10"]) simp
    qed
  qed
qed

lemma length_dec_small: "n < 100 \<Longrightarrow> length (dec n) \<le> 2"
proof -
  assume "n < 100"
  then have "n div 10 < 10" by simp
  then show ?thesis by (simp add: dec.simps [of n] dec.simps [of "n div 10"])
qed

lemma undec_zero [simp]: "undec (CHR ''0'' # s) = undec s"
  by (simp add: undec_def char_digit_def)

end
