(* ===== verification/Errs.thy ===== *)
theory Errs
  imports GoPrelude
begin

text \<open>
  Package pkg/errs (errs.go) and Go's error values.

  A Go \<open>error\<close> is an interface value. The ones the service handles are: the typed
  \<open>*errs.Error\<close> (\<open>AppError\<close>, with the error it was given by \<open>WithCause\<close>),
  an error made by \<open>fmt.Errorf("...%w")\<close> (\<open>Wrapped\<close>, its whole text and the error
  it wraps), and an error that is not unwrapped any further, identified by its text
  (\<open>Plain\<close>: the sentinels of errors.New, and what drivers return).
\<close>

datatype Kind = KindInternal | KindValidation | KindNotFound | KindConflict
  | KindUnauthorized | KindForbidden | KindOutOfStock | KindPayment | KindUnavailable

definition kind_string :: "Kind \<Rightarrow> string" where
  "kind_string k = (case k of
      KindInternal \<Rightarrow> ''internal''
    | KindValidation \<Rightarrow> ''validation''
    | KindNotFound \<Rightarrow> ''not_found''
    | KindConflict \<Rightarrow> ''conflict''
    | KindUnauthorized \<Rightarrow> ''unauthorized''
    | KindForbidden \<Rightarrow> ''forbidden''
    | KindOutOfStock \<Rightarrow> ''out_of_stock''
    | KindPayment \<Rightarrow> ''payment_failed''
    | KindUnavailable \<Rightarrow> ''unavailable'')"

datatype goerror =
    AppError (errKind: Kind) (errCode: string) (errMessage: string) (errCause: "goerror option")
  | Wrapped string goerror
  | Plain string

text \<open>\<open>errs.New\<close> and the constructors built on it.\<close>

definition NewError :: "Kind \<Rightarrow> string \<Rightarrow> string \<Rightarrow> goerror" where
  "NewError kind code message = AppError kind code message None"

definition Validation :: "string \<Rightarrow> string \<Rightarrow> goerror" where
  "Validation = NewError KindValidation"

definition NotFound :: "string \<Rightarrow> string \<Rightarrow> goerror" where
  "NotFound = NewError KindNotFound"

definition Conflict :: "string \<Rightarrow> string \<Rightarrow> goerror" where
  "Conflict = NewError KindConflict"

definition Unauthorized :: "string \<Rightarrow> string \<Rightarrow> goerror" where
  "Unauthorized = NewError KindUnauthorized"

definition Forbidden :: "string \<Rightarrow> string \<Rightarrow> goerror" where
  "Forbidden = NewError KindForbidden"

definition OutOfStock :: "string \<Rightarrow> string \<Rightarrow> goerror" where
  "OutOfStock = NewError KindOutOfStock"

definition PaymentFailedErr :: "string \<Rightarrow> string \<Rightarrow> goerror" where
  "PaymentFailedErr = NewError KindPayment"

definition Internal :: "string \<Rightarrow> string \<Rightarrow> goerror" where
  "Internal = NewError KindInternal"

definition Unavailable :: "string \<Rightarrow> string \<Rightarrow> goerror" where
  "Unavailable = NewError KindUnavailable"

text \<open>
  \<open>(*Error).WithCause\<close>, called only on an \<open>*Error\<close> (on the other constructors, which
  the method does not exist for, the model leaves the value alone).
\<close>

fun WithCause :: "goerror \<Rightarrow> goerror \<Rightarrow> goerror" where
  "WithCause (AppError k c m _) err = AppError k c m (Some err)"
| "WithCause e err = e"

text \<open>\<open>(*Error).Error\<close>, and the text of the other errors.\<close>

fun ErrorText :: "goerror \<Rightarrow> string" where
  "ErrorText (AppError k c m (Some err)) = c @ '': '' @ m @ '': '' @ ErrorText err"
| "ErrorText (AppError k c m None) = c @ '': '' @ m"
| "ErrorText (Wrapped text err) = text"
| "ErrorText (Plain text) = text"

text \<open>\<open>(*Error).Unwrap\<close>, and the error inside a \<open>%w\<close> error.\<close>

fun Unwrap :: "goerror \<Rightarrow> goerror option" where
  "Unwrap (AppError k c m cause) = cause"
| "Unwrap (Wrapped text err) = Some err"
| "Unwrap (Plain text) = None"

text \<open>
  \<open>errs.As\<close>: the first \<open>*Error\<close> of the chain of \<open>Unwrap\<close>s, and
  \<open>errs.KindOf\<close>, its kind or \<open>KindInternal\<close>.
\<close>

fun AsError :: "goerror \<Rightarrow> goerror option" where
  "AsError (AppError k c m cause) = Some (AppError k c m cause)"
| "AsError (Wrapped text err) = AsError err"
| "AsError (Plain text) = None"

definition KindOf :: "goerror \<Rightarrow> Kind" where
  "KindOf err = (case AsError err of Some e \<Rightarrow> errKind e | None \<Rightarrow> KindInternal)"

text \<open>\<open>errors.Is(err, target)\<close> for a sentinel: some error of the chain is the target.\<close>

fun IsError :: "goerror \<Rightarrow> goerror \<Rightarrow> bool" where
  "IsError (AppError k c m None) target = (AppError k c m None = target)"
| "IsError (AppError k c m (Some err)) target =
     (AppError k c m (Some err) = target \<or> IsError err target)"
| "IsError (Wrapped text err) target = (Wrapped text err = target \<or> IsError err target)"
| "IsError (Plain text) target = (Plain text = target)"

section \<open>Results of a Go call\<close>

text \<open>
  A call returns a value, returns a non-nil error, or panics. A program over a state
  \<open>'s\<close> takes the state and returns the outcome with the state it leaves, whichever of
  the three it is: Go does not undo the writes of a call that fails.
\<close>

datatype 'a outcome = Ok 'a | Err goerror | Panic string

type_synonym ('s, 'a) prog = "'s \<Rightarrow> 'a outcome \<times> 's"

definition return :: "'a \<Rightarrow> ('s, 'a) prog" where
  "return a s = (Ok a, s)"

definition fail :: "goerror \<Rightarrow> ('s, 'a) prog" where
  "fail e s = (Err e, s)"

text \<open>\<open>v, err := m(); if err != nil { return err }; f(v)\<close>\<close>

definition check :: "('s, 'a) prog \<Rightarrow> ('a \<Rightarrow> ('s, 'b) prog) \<Rightarrow> ('s, 'b) prog" where
  "check m f s = (case m s of
      (Ok a, s') \<Rightarrow> f a s'
    | (Err e, s') \<Rightarrow> (Err e, s')
    | (Panic p, s') \<Rightarrow> (Panic p, s'))"

text \<open>The same for an outcome that no state belongs to.\<close>

definition checkR :: "'a outcome \<Rightarrow> ('a \<Rightarrow> 'b outcome) \<Rightarrow> 'b outcome" where
  "checkR r f = (case r of Ok a \<Rightarrow> f a | Err e \<Rightarrow> Err e | Panic p \<Rightarrow> Panic p)"

definition lift :: "'a outcome \<Rightarrow> ('s, 'a) prog" where
  "lift r s = (r, s)"

fun is_Ok :: "'a outcome \<Rightarrow> bool" where
  "is_Ok (Ok a) = True"
| "is_Ok _ = False"

lemma return_apply [simp]: "return a s = (Ok a, s)"
  by (simp add: return_def)

lemma fail_apply [simp]: "fail e s = (Err e, s)"
  by (simp add: fail_def)

lemma lift_apply [simp]: "lift r s = (r, s)"
  by (simp add: lift_def)

lemma check_Ok [simp]: "m s = (Ok a, s') \<Longrightarrow> check m f s = f a s'"
  by (simp add: check_def)

lemma check_Err [simp]: "m s = (Err e, s') \<Longrightarrow> check m f s = (Err e, s')"
  by (simp add: check_def)

lemma check_Panic [simp]: "m s = (Panic p, s') \<Longrightarrow> check m f s = (Panic p, s')"
  by (simp add: check_def)

lemma checkR_simps [simp]:
  "checkR (Ok a) f = f a"
  "checkR (Err e) f = Err e"
  "checkR (Panic p) f = Panic p"
  by (simp_all add: checkR_def)

lemma check_OkD:
  assumes "check m f s = (Ok b, s'')"
  obtains a s' where "m s = (Ok a, s')" and "f a s' = (Ok b, s'')"
  using assms by (auto simp: check_def split: prod.splits outcome.splits)

lemma checkR_OkD:
  assumes "checkR r f = Ok b"
  obtains a where "r = Ok a" and "f a = Ok b"
  using assms by (cases r) auto

lemma not_is_Ok: "\<not> is_Ok r \<Longrightarrow> (\<exists>e. r = Err e) \<or> (\<exists>p. r = Panic p)"
  by (cases r) auto

lemma is_Ok_iff: "is_Ok r \<longleftrightarrow> (\<exists>a. r = Ok a)"
  by (cases r) auto

lemma map_outcome_Ok_iff: "map_outcome f r = Ok b \<longleftrightarrow> (\<exists>a. r = Ok a \<and> f a = b)"
  by (cases r) auto

lemma is_Ok_map_outcome [simp]: "is_Ok (map_outcome f r) = is_Ok r"
  by (cases r) auto

lemmas error_ctor_defs = Validation_def NotFound_def Conflict_def Unauthorized_def
  Forbidden_def OutOfStock_def PaymentFailedErr_def Internal_def Unavailable_def NewError_def

text \<open>A cause never changes what \<open>KindOf\<close> reports of the error that carries it.\<close>

lemma KindOf_WithCause [simp]: "KindOf (WithCause e err) = KindOf e"
  by (cases e) (auto simp: KindOf_def)

lemma KindOf_AppError [simp]: "KindOf (AppError k c m cause) = k"
  by (simp add: KindOf_def)

lemma KindOf_ctors [simp]:
  "KindOf (Validation c m) = KindValidation"
  "KindOf (NotFound c m) = KindNotFound"
  "KindOf (Conflict c m) = KindConflict"
  "KindOf (Unauthorized c m) = KindUnauthorized"
  "KindOf (Forbidden c m) = KindForbidden"
  "KindOf (OutOfStock c m) = KindOutOfStock"
  "KindOf (PaymentFailedErr c m) = KindPayment"
  "KindOf (Internal c m) = KindInternal"
  "KindOf (Unavailable c m) = KindUnavailable"
  by (simp_all add: error_ctor_defs)

section \<open>Loops and captured variables\<close>

text \<open>
  \<open>for _, x := range xs { if err := f(x); err != nil { return err } }\<close>, and the loop that
  appends each value instead.
\<close>

fun forEach :: "('a \<Rightarrow> ('s, unit) prog) \<Rightarrow> 'a list \<Rightarrow> ('s, unit) prog" where
  "forEach f [] = return ()"
| "forEach f (x # xs) = check (f x) (\<lambda>_. forEach f xs)"

fun mapEach :: "('a \<Rightarrow> ('s, 'b) prog) \<Rightarrow> 'a list \<Rightarrow> ('s, 'b list) prog" where
  "mapEach f [] = return []"
| "mapEach f (x # xs) = check (f x) (\<lambda>y. check (mapEach f xs) (\<lambda>ys. return (y # ys)))"

fun mapR :: "('a \<Rightarrow> 'b outcome) \<Rightarrow> 'a list \<Rightarrow> 'b list outcome" where
  "mapR f [] = Ok []"
| "mapR f (x # xs) = checkR (f x) (\<lambda>y. checkR (mapR f xs) (\<lambda>ys. Ok (y # ys)))"

text \<open>
  A step on one half of a state: on what lies in the store, or on the variables a function
  captures.
\<close>

definition onStore :: "('s, 'a) prog \<Rightarrow> ('s \<times> 'h, 'a) prog" where
  "onStore m sh = (let (r, s') = m (fst sh) in (r, (s', snd sh)))"

definition onVars :: "('h, 'a) prog \<Rightarrow> ('s \<times> 'h, 'a) prog" where
  "onVars m sh = (let (r, h') = m (snd sh) in (r, (fst sh, h')))"

lemma onStore_apply [simp]: "onStore m (s, h) = (let (r, s') = m s in (r, (s', h)))"
  by (simp add: onStore_def)

lemma onVars_apply [simp]: "onVars m (s, h) = (let (r, h') = m h in (r, (s, h')))"
  by (simp add: onVars_def)

lemma onStore_iff: "onStore m (s, h) = (r, (s', h')) \<longleftrightarrow> m s = (r, s') \<and> h' = h"
  by (auto split: prod.splits)

lemma onVars_iff: "onVars m (s, h) = (r, (s', h')) \<longleftrightarrow> m h = (r, h') \<and> s' = s"
  by (auto split: prod.splits)

lemma check_Ok_iff:
  "check m f s = (Ok b, s'') \<longleftrightarrow> (\<exists>a s'. m s = (Ok a, s') \<and> f a s' = (Ok b, s''))"
  by (auto simp: check_def split: prod.splits outcome.splits)

lemma checkR_Ok_iff: "checkR r f = Ok b \<longleftrightarrow> (\<exists>a. r = Ok a \<and> f a = Ok b)"
  by (cases r) auto

lemma mapR_Ok_iff: "mapR f xs = Ok ys \<longleftrightarrow> list_all2 (\<lambda>x y. f x = Ok y) xs ys"
  by (induction xs arbitrary: ys) (auto simp: checkR_Ok_iff list_all2_Cons1)

lemma list_all2_right_mem: "list_all2 P xs ys \<Longrightarrow> y \<in> set ys \<Longrightarrow> \<exists>x \<in> set xs. P x y"
  by (induction rule: list_all2_induct) auto

text \<open>A loop that ends without an error keeps what each of its steps keeps.\<close>

lemma forEach_invariant:
  assumes "\<And>x s s'. x \<in> set xs \<Longrightarrow> I s \<Longrightarrow> f x s = (Ok (), s') \<Longrightarrow> I s'"
    and "I s" and "forEach f xs s = (Ok (), s')"
  shows "I s'"
  using assms
proof (induction xs arbitrary: s)
  case Nil
  then show ?case by simp
next
  case (Cons x xs)
  from Cons.prems(3) obtain s1 where s1: "f x s = (Ok (), s1)" "forEach f xs s1 = (Ok (), s')"
    by (auto simp: check_Ok_iff)
  from Cons.prems(1) [OF _ Cons.prems(2) s1(1)] have "I s1" by simp
  moreover have "\<And>y s s'. y \<in> set xs \<Longrightarrow> I s \<Longrightarrow> f y s = (Ok (), s') \<Longrightarrow> I s'"
    using Cons.prems(1) by auto
  ultimately show ?case using Cons.IH s1(2) by blast
qed

end
