(* ===== verification/Shared.thy ===== *)
theory Shared
  imports Errs
begin

text \<open>
  Package internal/domain/shared: the event-recording aggregate root (event.go) and the
  Money value object (money.go).

  Go embeds \<open>AggregateRoot\<close> in every aggregate. The aggregates extend the record
  \<open>AggregateRoot\<close> in the same way, so that \<open>Record\<close> and \<open>PullEvents\<close> apply to
  each of them. The parameter \<open>'e\<close> is the type of the events that aggregate records.
\<close>

section \<open>Aggregate root\<close>

record 'e AggregateRoot =
  pending :: "'e list"

definition Record :: "'e list \<Rightarrow> ('e, 'z) AggregateRoot_scheme \<Rightarrow> ('e, 'z) AggregateRoot_scheme" where
  "Record events a = a\<lparr>pending := pending a @ events\<rparr>"

definition PullEvents ::
  "('e, 'z) AggregateRoot_scheme \<Rightarrow> 'e list \<times> ('e, 'z) AggregateRoot_scheme" where
  "PullEvents a = (pending a, a\<lparr>pending := []\<rparr>)"

definition HasPendingEvents :: "('e, 'z) AggregateRoot_scheme \<Rightarrow> bool" where
  "HasPendingEvents a \<longleftrightarrow> 0 < length (pending a)"

lemma pending_Record [simp]: "pending (Record es a) = pending a @ es"
  by (simp add: Record_def)

lemma Record_Record: "Record es' (Record es a) = Record (es @ es') a"
  by (simp add: Record_def)

text \<open>Pulling hands out what was recorded, in order, once.\<close>

lemma PullEvents_once:
  "fst (PullEvents (Record es (snd (PullEvents a)))) = es"
  by (simp add: PullEvents_def)

section \<open>Money\<close>

record Money =
  m_amount :: int64
  m_currency :: string

definition DefaultCurrency :: string where
  "DefaultCurrency = ''USD''"

text \<open>
  \<open>%q\<close> of package fmt on a string of bytes: quotes, backslashes and the control
  characters are escaped, printable ASCII stands for itself. (Bytes from 128 on, the
  encodings of non-ASCII characters, are left as they are.)
\<close>

definition hex_char :: "nat \<Rightarrow> char" where
  "hex_char d = (if d < 10 then char_of (48 + d) else char_of (87 + d))"

definition quote_char :: "char \<Rightarrow> string" where
  "quote_char c = (let n = (of_char c :: nat) in
     if n = 34 \<or> n = 92 then [char_of (92 :: nat), c]
     else if n = 7 then [char_of (92 :: nat), CHR ''a'']
     else if n = 8 then [char_of (92 :: nat), CHR ''b'']
     else if n = 12 then [char_of (92 :: nat), CHR ''f'']
     else if n = 10 then [char_of (92 :: nat), CHR ''n'']
     else if n = 13 then [char_of (92 :: nat), CHR ''r'']
     else if n = 9 then [char_of (92 :: nat), CHR ''t'']
     else if n = 11 then [char_of (92 :: nat), CHR ''v'']
     else if n < 32 \<or> n = 127
       then [char_of (92 :: nat), CHR ''x'', hex_char (n div 16), hex_char (n mod 16)]
     else [c])"

definition quoted :: "string \<Rightarrow> string" where
  "quoted s = [char_of (34 :: nat)] @ concat (map quote_char s) @ [char_of (34 :: nat)]"

definition NewMoney :: "int64 \<Rightarrow> string \<Rightarrow> Money outcome" where
  "NewMoney amount currency =
     (if amount <s 0 then Err (Validation ''money.negative'' ''amount cannot be negative'')
      else if length currency \<noteq> 3
        then Err (Validation ''money.currency'' (''invalid currency '' @ quoted currency))
      else Ok \<lparr>m_amount = amount, m_currency = currency\<rparr>)"

text \<open>\<open>MustMoney\<close> panics with the error.\<close>

definition MustMoney :: "int64 \<Rightarrow> string \<Rightarrow> Money outcome" where
  "MustMoney amount currency = (case NewMoney amount currency of
      Ok m \<Rightarrow> Ok m
    | Err e \<Rightarrow> Panic (ErrorText e)
    | Panic p \<Rightarrow> Panic p)"

definition ZeroMoney :: "string \<Rightarrow> Money" where
  "ZeroMoney currency = \<lparr>m_amount = 0, m_currency = currency\<rparr>"

definition Money_IsZero :: "Money \<Rightarrow> bool" where
  "Money_IsZero m \<longleftrightarrow> m_amount m = 0"

definition Money_Add :: "Money \<Rightarrow> Money \<Rightarrow> Money outcome" where
  "Money_Add m other =
     (if m_currency m \<noteq> m_currency other
        then Err (Validation ''money.currency_mismatch'' ''cannot add different currencies'')
      else Ok \<lparr>m_amount = m_amount m + m_amount other, m_currency = m_currency m\<rparr>)"

definition Money_Mul :: "Money \<Rightarrow> int64 \<Rightarrow> Money" where
  "Money_Mul m quantity = \<lparr>m_amount = m_amount m * quantity, m_currency = m_currency m\<rparr>"

definition Money_Equal :: "Money \<Rightarrow> Money \<Rightarrow> bool" where
  "Money_Equal m other \<longleftrightarrow> m_amount m = m_amount other \<and> m_currency m = m_currency other"

definition Money_GreaterThan :: "Money \<Rightarrow> Money \<Rightarrow> bool" where
  "Money_GreaterThan m other \<longleftrightarrow>
     m_currency m = m_currency other \<and> m_amount other <s m_amount m"

text \<open>
  \<open>"%d.%02d %s"\<close> of the quotient and the remainder by 100. Go's division truncates
  towards zero, so both carry the sign of a negative amount.
\<close>

definition Money_String :: "Money \<Rightarrow> string" where
  "Money_String m = (let a = sint (m_amount m);
       q = sgn a * (\<bar>a\<bar> div 100);
       r = sgn a * (\<bar>a\<bar> mod 100)
     in dec_int q @ ''.'' @ pad2 r @ '' '' @ m_currency m)"

text \<open>What the constructor guarantees of a Money.\<close>

definition valid_money :: "Money \<Rightarrow> bool" where
  "valid_money m \<longleftrightarrow> 0 \<le>s m_amount m \<and> length (m_currency m) = 3"

lemma NewMoney_Ok_iff:
  "NewMoney a c = Ok m \<longleftrightarrow> m = \<lparr>m_amount = a, m_currency = c\<rparr> \<and> valid_money m"
  by (auto simp: NewMoney_def valid_money_def not_sless_sle)

lemma NewMoney_no_panic [simp]: "NewMoney a c \<noteq> Panic p"
  by (simp add: NewMoney_def)

lemma MustMoney_Ok_iff:
  "MustMoney a c = Ok m \<longleftrightarrow> m = \<lparr>m_amount = a, m_currency = c\<rparr> \<and> valid_money m"
  by (auto simp: MustMoney_def NewMoney_Ok_iff [symmetric] split: outcome.splits)

lemma MustMoney_no_error [simp]: "MustMoney a c \<noteq> Err e"
  by (auto simp: MustMoney_def split: outcome.splits)

lemma MustMoney_valid:
  "valid_money m \<Longrightarrow> MustMoney (m_amount m) (m_currency m) = Ok m"
  by (simp add: MustMoney_Ok_iff)

lemma Money_Add_Ok_iff:
  "Money_Add a b = Ok c \<longleftrightarrow> m_currency a = m_currency b \<and>
     c = \<lparr>m_amount = m_amount a + m_amount b, m_currency = m_currency a\<rparr>"
  by (auto simp: Money_Add_def)

lemma Money_Mul_simps [simp]:
  "m_amount (Money_Mul m q) = m_amount m * q" "m_currency (Money_Mul m q) = m_currency m"
  by (simp_all add: Money_Mul_def)

lemma ZeroMoney_simps [simp]:
  "m_amount (ZeroMoney c) = 0" "m_currency (ZeroMoney c) = c"
  by (simp_all add: ZeroMoney_def)

lemma Money_Equal_iff [simp]: "Money_Equal a b \<longleftrightarrow> a = b"
  by (cases a, cases b) (simp add: Money_Equal_def)

text \<open>The text of a valid amount, digit by digit.\<close>

lemma Money_String_valid:
  assumes "valid_money m"
  shows "Money_String m =
    dec (nat (sint (m_amount m)) div 100) @ ''.'' @
    pad2 (int (nat (sint (m_amount m)) mod 100)) @ '' '' @ m_currency m"
proof -
  define n where "n = nat (sint (m_amount m))"
  from assms have "sint (m_amount m) = int n"
    by (simp add: n_def valid_money_def word_sle_eq)
  then show ?thesis
    unfolding Money_String_def n_def [symmetric]
    by (cases "n = 0") (simp_all add: dec_int_def Let_def nat_div_distrib zmod_int)
qed

lemma pad2_length: "k < 100 \<Longrightarrow> length (pad2 (int k)) = 2"
proof -
  assume "k < 100"
  then have "length (dec k) \<le> 2" by (rule length_dec_small)
  moreover have "0 < length (dec k)" by simp
  ultimately have "length (dec k) = 1 \<or> length (dec k) = 2" by linarith
  then show ?thesis by (auto simp: pad2_def dec_int_def Let_def)
qed

lemma undec_pad2: "undec (pad2 (int k)) = k"
  by (simp add: pad2_def dec_int_def Let_def)

end
