(* ===== verification/Inventory_Agg.thy ===== *)
theory Inventory_Agg
  imports Shared
begin

text \<open>
  Package internal/domain/inventory: the stock of one product (inventory.go) and its events
  (events.go). Each method of \<open>*Inventory\<close> is a program over the aggregate: it returns
  the error and leaves the aggregate as the Go method leaves it.
\<close>

datatype InventoryEvent =
    InventoryReserved uint64 goint
  | InventoryReleased uint64 goint
  | InventoryCommitted uint64 goint
  | InventoryRestocked uint64 goint

definition InventoryEvent_EventName :: "InventoryEvent \<Rightarrow> string" where
  "InventoryEvent_EventName e = (case e of
      InventoryReserved _ _ \<Rightarrow> ''inventory.reserved''
    | InventoryReleased _ _ \<Rightarrow> ''inventory.released''
    | InventoryCommitted _ _ \<Rightarrow> ''inventory.committed''
    | InventoryRestocked _ _ \<Rightarrow> ''inventory.restocked'')"

definition InventoryEvent_AggregateID :: "InventoryEvent \<Rightarrow> uint64" where
  "InventoryEvent_AggregateID e = (case e of
      InventoryReserved p _ \<Rightarrow> p
    | InventoryReleased p _ \<Rightarrow> p
    | InventoryCommitted p _ \<Rightarrow> p
    | InventoryRestocked p _ \<Rightarrow> p)"

record Inventory = "InventoryEvent AggregateRoot" +
  inv_id :: uint64
  inv_productID :: uint64
  inv_available :: goint
  inv_reserved :: goint
  inv_reorderLevel :: goint
  inv_version :: goint

definition NewInventory :: "uint64 \<Rightarrow> goint \<Rightarrow> goint \<Rightarrow> Inventory outcome" where
  "NewInventory productID available reorderLevel =
     (if productID = 0
        then Err (Validation ''inventory.invalid_product'' ''product id is required'')
      else if available <s 0
        then Err (Validation ''inventory.invalid_available'' ''available must not be negative'')
      else if reorderLevel <s 0
        then Err (Validation ''inventory.invalid_reorder_level'' ''reorder level must not be negative'')
      else Ok \<lparr>pending = [], inv_id = 0, inv_productID = productID, inv_available = available,
               inv_reserved = 0, inv_reorderLevel = reorderLevel, inv_version = 0\<rparr>)"

definition ReconstituteInventory ::
  "uint64 \<Rightarrow> uint64 \<Rightarrow> goint \<Rightarrow> goint \<Rightarrow> goint \<Rightarrow> goint \<Rightarrow> Inventory" where
  "ReconstituteInventory i productID available reserved reorderLevel version =
     \<lparr>pending = [], inv_id = i, inv_productID = productID, inv_available = available,
      inv_reserved = reserved, inv_reorderLevel = reorderLevel, inv_version = version\<rparr>"

definition invalid_quantity :: goerror where
  "invalid_quantity = Validation ''inventory.invalid_quantity'' ''quantity must be positive''"

definition Inventory_Reserve :: "goint \<Rightarrow> (Inventory, unit) prog" where
  "Inventory_Reserve qty i =
     (if qty \<le>s 0 then (Err invalid_quantity, i)
      else if inv_available i <s qty
        then (Err (OutOfStock ''inventory.insufficient_stock''
                ''not enough available stock to reserve''), i)
      else (Ok (), Record [InventoryReserved (inv_productID i) qty]
              (i\<lparr>inv_available := inv_available i - qty,
                 inv_reserved := inv_reserved i + qty,
                 inv_version := inv_version i + 1\<rparr>)))"

definition Inventory_Release :: "goint \<Rightarrow> (Inventory, unit) prog" where
  "Inventory_Release qty i =
     (if qty \<le>s 0 then (Err invalid_quantity, i)
      else if inv_reserved i <s qty
        then (Err (Validation ''inventory.insufficient_reserved''
                ''not enough reserved stock to release''), i)
      else (Ok (), Record [InventoryReleased (inv_productID i) qty]
              (i\<lparr>inv_reserved := inv_reserved i - qty,
                 inv_available := inv_available i + qty\<rparr>)))"

definition Inventory_Commit :: "goint \<Rightarrow> (Inventory, unit) prog" where
  "Inventory_Commit qty i =
     (if qty \<le>s 0 then (Err invalid_quantity, i)
      else if inv_reserved i <s qty
        then (Err (Validation ''inventory.insufficient_reserved''
                ''not enough reserved stock to commit''), i)
      else (Ok (), Record [InventoryCommitted (inv_productID i) qty]
              (i\<lparr>inv_reserved := inv_reserved i - qty\<rparr>)))"

definition Inventory_Restock :: "goint \<Rightarrow> (Inventory, unit) prog" where
  "Inventory_Restock qty i =
     (if qty \<le>s 0 then (Err invalid_quantity, i)
      else (Ok (), Record [InventoryRestocked (inv_productID i) qty]
              (i\<lparr>inv_available := inv_available i + qty,
                 inv_version := inv_version i + 1\<rparr>)))"

definition Inventory_IsLow :: "Inventory \<Rightarrow> bool" where
  "Inventory_IsLow i \<longleftrightarrow> inv_available i \<le>s inv_reorderLevel i"

section \<open>Runs of operations\<close>

text \<open>
  The four operations as data, so that a sequence of calls is a list. A caller that ignores
  the errors goes on with the next call, which is what a run does.
\<close>

datatype inv_op = OpReserve goint | OpRelease goint | OpCommit goint | OpRestock goint

fun inv_apply :: "inv_op \<Rightarrow> (Inventory, unit) prog" where
  "inv_apply (OpReserve q) = Inventory_Reserve q"
| "inv_apply (OpRelease q) = Inventory_Release q"
| "inv_apply (OpCommit q) = Inventory_Commit q"
| "inv_apply (OpRestock q) = Inventory_Restock q"

fun inv_run :: "inv_op list \<Rightarrow> Inventory \<Rightarrow> Inventory" where
  "inv_run [] i = i"
| "inv_run (x # xs) i = inv_run xs (snd (inv_apply x i))"

lemmas inventory_op_defs = Inventory_Reserve_def Inventory_Release_def Inventory_Commit_def
  Inventory_Restock_def

text \<open>The counters of a stock record: neither may be negative.\<close>

definition stock_nonneg :: "Inventory \<Rightarrow> bool" where
  "stock_nonneg i \<longleftrightarrow> 0 \<le>s inv_available i \<and> 0 \<le>s inv_reserved i"

text \<open>Units in the warehouse: what is available and what is set aside for orders.\<close>

definition on_hand :: "Inventory \<Rightarrow> int" where
  "on_hand i = sint (inv_available i) + sint (inv_reserved i)"

definition fits :: "Inventory \<Rightarrow> bool" where
  "fits i \<longleftrightarrow> stock_nonneg i \<and> in_int64 (on_hand i)"

lemma fits_bounds:
  assumes "fits i"
  shows "0 \<le> sint (inv_available i)" "0 \<le> sint (inv_reserved i)"
    "sint (inv_available i) + sint (inv_reserved i) < 2 ^ 63"
  using assms by (auto simp: fits_def stock_nonneg_def on_hand_def in_int64_def word_sle_eq)

text \<open>What each operation moves, in exact integers, where the stock fits in an int64.\<close>

lemma reserve_exact:
  assumes "fits i" and "Inventory_Reserve q i = (Ok (), i')"
  shows "sint (inv_available i') = sint (inv_available i) - sint q"
    and "sint (inv_reserved i') = sint (inv_reserved i) + sint q"
    and "0 < sint q" and "sint q \<le> sint (inv_available i)"
proof -
  from assms(2) have q: "0 < sint q" "sint q \<le> sint (inv_available i)"
    and i': "inv_available i' = inv_available i - q" "inv_reserved i' = inv_reserved i + q"
    by (auto simp: Inventory_Reserve_def Record_def word_sle_eq word_sless_alt split: if_splits)
  with fits_bounds [OF assms(1)] show "sint (inv_available i') = sint (inv_available i) - sint q"
    "sint (inv_reserved i') = sint (inv_reserved i) + sint q"
    "0 < sint q" "sint q \<le> sint (inv_available i)"
    by (auto simp: i' in_int64_def intro!: sint_diff_exact sint_add_exact)
qed

lemma release_exact:
  assumes "fits i" and "Inventory_Release q i = (Ok (), i')"
  shows "sint (inv_available i') = sint (inv_available i) + sint q"
    and "sint (inv_reserved i') = sint (inv_reserved i) - sint q"
    and "0 < sint q" and "sint q \<le> sint (inv_reserved i)"
proof -
  from assms(2) have q: "0 < sint q" "sint q \<le> sint (inv_reserved i)"
    and i': "inv_available i' = inv_available i + q" "inv_reserved i' = inv_reserved i - q"
    by (auto simp: Inventory_Release_def Record_def word_sle_eq word_sless_alt split: if_splits)
  with fits_bounds [OF assms(1)] show "sint (inv_available i') = sint (inv_available i) + sint q"
    "sint (inv_reserved i') = sint (inv_reserved i) - sint q"
    "0 < sint q" "sint q \<le> sint (inv_reserved i)"
    by (auto simp: i' in_int64_def intro!: sint_diff_exact sint_add_exact)
qed

lemma commit_exact:
  assumes "fits i" and "Inventory_Commit q i = (Ok (), i')"
  shows "inv_available i' = inv_available i"
    and "sint (inv_reserved i') = sint (inv_reserved i) - sint q"
    and "0 < sint q" and "sint q \<le> sint (inv_reserved i)"
proof -
  from assms(2) have q: "0 < sint q" "sint q \<le> sint (inv_reserved i)"
    and i': "inv_available i' = inv_available i" "inv_reserved i' = inv_reserved i - q"
    by (auto simp: Inventory_Commit_def Record_def word_sle_eq word_sless_alt split: if_splits)
  with fits_bounds [OF assms(1)] show "inv_available i' = inv_available i"
    "sint (inv_reserved i') = sint (inv_reserved i) - sint q"
    "0 < sint q" "sint q \<le> sint (inv_reserved i)"
    by (auto simp: i' in_int64_def intro!: sint_diff_exact)
qed

text \<open>A refused operation changes nothing.\<close>

lemma inv_apply_Err: "inv_apply x i = (Err e, i') \<Longrightarrow> i' = i"
  by (cases x) (auto simp: inventory_op_defs split: if_splits)

lemma inv_apply_no_panic: "fst (inv_apply x i) \<noteq> Panic p"
  by (cases x) (auto simp: inventory_op_defs)

end
