(* ===== verification/Order_Agg.thy ===== *)
theory Order_Agg
  imports Shared
begin

text \<open>
  Package internal/domain/order: the Order aggregate (order.go) and its events (events.go).

  \<open>Status\<close> is a Go string type: values outside the six constants exist (they come from
  the database and from administrators' requests), so it stays a string here.
\<close>

type_synonym OrderStatus = string

definition StatusPending :: OrderStatus where "StatusPending = ''pending''"

definition StatusReserved :: OrderStatus where "StatusReserved = ''reserved''"

definition StatusPaid :: OrderStatus where "StatusPaid = ''paid''"

definition StatusFulfilled :: OrderStatus where "StatusFulfilled = ''fulfilled''"

definition StatusCancelled :: OrderStatus where "StatusCancelled = ''cancelled''"

definition StatusFailed :: OrderStatus where "StatusFailed = ''failed''"

lemmas status_defs = StatusPending_def StatusReserved_def StatusPaid_def StatusFulfilled_def
  StatusCancelled_def StatusFailed_def

lemma status_distinct [simp]:
  "StatusPending \<noteq> StatusReserved" "StatusReserved \<noteq> StatusPending"
  "StatusPending \<noteq> StatusPaid" "StatusPaid \<noteq> StatusPending"
  "StatusPending \<noteq> StatusFulfilled" "StatusFulfilled \<noteq> StatusPending"
  "StatusPending \<noteq> StatusCancelled" "StatusCancelled \<noteq> StatusPending"
  "StatusPending \<noteq> StatusFailed" "StatusFailed \<noteq> StatusPending"
  "StatusReserved \<noteq> StatusPaid" "StatusPaid \<noteq> StatusReserved"
  "StatusReserved \<noteq> StatusFulfilled" "StatusFulfilled \<noteq> StatusReserved"
  "StatusReserved \<noteq> StatusCancelled" "StatusCancelled \<noteq> StatusReserved"
  "StatusReserved \<noteq> StatusFailed" "StatusFailed \<noteq> StatusReserved"
  "StatusPaid \<noteq> StatusFulfilled" "StatusFulfilled \<noteq> StatusPaid"
  "StatusPaid \<noteq> StatusCancelled" "StatusCancelled \<noteq> StatusPaid"
  "StatusPaid \<noteq> StatusFailed" "StatusFailed \<noteq> StatusPaid"
  "StatusFulfilled \<noteq> StatusCancelled" "StatusCancelled \<noteq> StatusFulfilled"
  "StatusFulfilled \<noteq> StatusFailed" "StatusFailed \<noteq> StatusFulfilled"
  "StatusCancelled \<noteq> StatusFailed" "StatusFailed \<noteq> StatusCancelled"
  by (simp_all add: status_defs)

datatype OrderEvent =
    OrderPlaced uint64 uint64 int64 string
  | OrderReserved uint64
  | OrderPaid uint64
  | OrderFulfilled uint64
  | OrderCancelled uint64 string
  | OrderFailed uint64 string

definition OrderEvent_EventName :: "OrderEvent \<Rightarrow> string" where
  "OrderEvent_EventName e = (case e of
      OrderPlaced _ _ _ _ \<Rightarrow> ''order.placed''
    | OrderReserved _ \<Rightarrow> ''order.reserved''
    | OrderPaid _ \<Rightarrow> ''order.paid''
    | OrderFulfilled _ \<Rightarrow> ''order.fulfilled''
    | OrderCancelled _ _ \<Rightarrow> ''order.cancelled''
    | OrderFailed _ _ \<Rightarrow> ''order.failed'')"

definition OrderEvent_AggregateID :: "OrderEvent \<Rightarrow> uint64" where
  "OrderEvent_AggregateID e = (case e of
      OrderPlaced i _ _ _ \<Rightarrow> i
    | OrderReserved i \<Rightarrow> i
    | OrderPaid i \<Rightarrow> i
    | OrderFulfilled i \<Rightarrow> i
    | OrderCancelled i _ \<Rightarrow> i
    | OrderFailed i _ \<Rightarrow> i)"

section \<open>Items\<close>

record Item =
  item_productID :: uint64
  item_sku :: string
  item_name :: string
  item_unitPrice :: Money
  item_quantity :: goint

definition NewItem :: "uint64 \<Rightarrow> string \<Rightarrow> string \<Rightarrow> Money \<Rightarrow> goint \<Rightarrow> Item outcome" where
  "NewItem productID sku name unitPrice quantity =
     (if quantity \<le>s 0
        then Err (Validation ''order.item_quantity'' ''item quantity must be greater than zero'')
      else Ok \<lparr>item_productID = productID, item_sku = sku, item_name = name,
               item_unitPrice = unitPrice, item_quantity = quantity\<rparr>)"

definition Item_Subtotal :: "Item \<Rightarrow> Money" where
  "Item_Subtotal i = Money_Mul (item_unitPrice i) (item_quantity i)"

section \<open>Orders\<close>

record Order = "OrderEvent AggregateRoot" +
  ord_id :: uint64
  ord_userID :: uint64
  ord_status :: OrderStatus
  ord_items :: "Item list"
  ord_total :: Money
  ord_idempotencyKey :: string
  ord_failureReason :: string
  ord_createdAt :: time

text \<open>The loop of \<open>NewOrder\<close> that checks the currencies and adds the subtotals up.\<close>

definition currency_mismatch :: goerror where
  "currency_mismatch =
     Validation ''order.currency_mismatch'' ''all items must share the same currency''"

fun sum_items :: "string \<Rightarrow> Money \<Rightarrow> Item list \<Rightarrow> Money outcome" where
  "sum_items cur tot [] = Ok tot"
| "sum_items cur tot (item # rest) =
     (if m_currency (item_unitPrice item) \<noteq> cur then Err currency_mismatch
      else (case Money_Add tot (Item_Subtotal item) of
          Ok added \<Rightarrow> sum_items cur added rest
        | Err e \<Rightarrow> Err currency_mismatch
        | Panic p \<Rightarrow> Panic p))"

definition NewOrder :: "time \<Rightarrow> uint64 \<Rightarrow> Item list \<Rightarrow> string \<Rightarrow> Order outcome" where
  "NewOrder now userID items idempotencyKey =
     (case items of
        [] \<Rightarrow> Err (Validation ''order.no_items'' ''order must contain at least one item'')
      | first # _ \<Rightarrow>
         if idempotencyKey = ''''
           then Err (Validation ''order.idempotency_key'' ''idempotency key is required'')
         else (let cur = m_currency (item_unitPrice first) in
           checkR (sum_items cur (ZeroMoney cur) items) (\<lambda>tot.
             let o1 = \<lparr>pending = [], ord_id = 0, ord_userID = userID, ord_status = StatusPending,
                       ord_items = items, ord_total = tot, ord_idempotencyKey = idempotencyKey,
                       ord_failureReason = '''', ord_createdAt = now\<rparr>
             in Ok (Record [OrderPlaced (ord_id o1) userID (m_amount tot) (m_currency tot)] o1))))"

definition ReconstituteOrder ::
  "uint64 \<Rightarrow> uint64 \<Rightarrow> OrderStatus \<Rightarrow> Item list \<Rightarrow> Money \<Rightarrow> string \<Rightarrow> string \<Rightarrow> time \<Rightarrow> Order"
where
  "ReconstituteOrder i userID status items tot idempotencyKey failureReason createdAt =
     \<lparr>pending = [], ord_id = i, ord_userID = userID, ord_status = status, ord_items = items,
      ord_total = tot, ord_idempotencyKey = idempotencyKey,
      ord_failureReason = failureReason, ord_createdAt = createdAt\<rparr>"

definition Order_AssignID :: "uint64 \<Rightarrow> Order \<Rightarrow> Order" where
  "Order_AssignID i o1 = (if ord_id o1 = 0 then o1\<lparr>ord_id := i\<rparr> else o1)"

definition Order_IsTerminal :: "Order \<Rightarrow> bool" where
  "Order_IsTerminal o1 \<longleftrightarrow> ord_status o1 = StatusFulfilled \<or> ord_status o1 = StatusCancelled \<or>
     ord_status o1 = StatusFailed"

definition Order_CanCancel :: "Order \<Rightarrow> bool" where
  "Order_CanCancel o1 \<longleftrightarrow> ord_status o1 = StatusPending \<or> ord_status o1 = StatusReserved \<or>
     ord_status o1 = StatusPaid"

definition invalid_transition :: "string \<Rightarrow> goerror" where
  "invalid_transition m = Conflict ''order.invalid_transition'' m"

definition Order_MarkReserved :: "(Order, unit) prog" where
  "Order_MarkReserved o1 =
     (if ord_status o1 \<noteq> StatusPending
        then (Err (invalid_transition ''order can only be reserved from pending''), o1)
      else (Ok (), Record [OrderReserved (ord_id o1)] (o1\<lparr>ord_status := StatusReserved\<rparr>)))"

definition Order_MarkPaid :: "(Order, unit) prog" where
  "Order_MarkPaid o1 =
     (if ord_status o1 \<noteq> StatusReserved
        then (Err (invalid_transition ''order can only be paid from reserved''), o1)
      else (Ok (), Record [OrderPaid (ord_id o1)] (o1\<lparr>ord_status := StatusPaid\<rparr>)))"

definition Order_MarkFulfilled :: "(Order, unit) prog" where
  "Order_MarkFulfilled o1 =
     (if ord_status o1 \<noteq> StatusPaid
        then (Err (invalid_transition ''order can only be fulfilled from paid''), o1)
      else (Ok (), Record [OrderFulfilled (ord_id o1)] (o1\<lparr>ord_status := StatusFulfilled\<rparr>)))"

definition Order_Cancel :: "string \<Rightarrow> (Order, unit) prog" where
  "Order_Cancel reason o1 =
     (if \<not> Order_CanCancel o1
        then (Err (invalid_transition ''order cannot be cancelled from its current status''), o1)
      else (Ok (), Record [OrderCancelled (ord_id o1) reason] (o1\<lparr>ord_status := StatusCancelled\<rparr>)))"

definition Order_Fail :: "string \<Rightarrow> (Order, unit) prog" where
  "Order_Fail reason o1 =
     (if Order_IsTerminal o1
        then (Err (invalid_transition ''order cannot be failed from a terminal status''), o1)
      else (Ok (), Record [OrderFailed (ord_id o1) reason]
              (o1\<lparr>ord_status := StatusFailed, ord_failureReason := reason\<rparr>)))"

lemmas order_op_defs = Order_MarkReserved_def Order_MarkPaid_def Order_MarkFulfilled_def
  Order_Cancel_def Order_Fail_def

section \<open>The status machine\<close>

text \<open>
  The edges of the order state machine (README, "Order processing flow"), as a relation on
  statuses, and the operations as data, so that a history of calls is a list.
\<close>

inductive order_edge :: "OrderStatus \<Rightarrow> OrderStatus \<Rightarrow> bool" where
  reserve: "order_edge StatusPending StatusReserved"
| pay: "order_edge StatusReserved StatusPaid"
| fulfil: "order_edge StatusPaid StatusFulfilled"
| cancel: "s \<in> {StatusPending, StatusReserved, StatusPaid} \<Longrightarrow> order_edge s StatusCancelled"
| failed: "s \<notin> {StatusFulfilled, StatusCancelled, StatusFailed} \<Longrightarrow> order_edge s StatusFailed"

inductive_cases order_edgeE: "order_edge s t"

inductive_simps order_edge_iff: "order_edge s t"

datatype ord_op = DoReserve | DoPay | DoFulfil | DoCancel string | DoFail string

fun ord_apply :: "ord_op \<Rightarrow> (Order, unit) prog" where
  "ord_apply DoReserve = Order_MarkReserved"
| "ord_apply DoPay = Order_MarkPaid"
| "ord_apply DoFulfil = Order_MarkFulfilled"
| "ord_apply (DoCancel reason) = Order_Cancel reason"
| "ord_apply (DoFail reason) = Order_Fail reason"

fun ord_run :: "ord_op list \<Rightarrow> Order \<Rightarrow> Order" where
  "ord_run [] o1 = o1"
| "ord_run (x # xs) o1 = ord_run xs (snd (ord_apply x o1))"

text \<open>The status an event announces.\<close>

definition event_status :: "OrderEvent \<Rightarrow> OrderStatus" where
  "event_status e = (case e of
      OrderPlaced _ _ _ _ \<Rightarrow> StatusPending
    | OrderReserved _ \<Rightarrow> StatusReserved
    | OrderPaid _ \<Rightarrow> StatusPaid
    | OrderFulfilled _ \<Rightarrow> StatusFulfilled
    | OrderCancelled _ _ \<Rightarrow> StatusCancelled
    | OrderFailed _ _ \<Rightarrow> StatusFailed)"

lemma event_status_simps [simp]:
  "event_status (OrderPlaced i u a c) = StatusPending"
  "event_status (OrderReserved i) = StatusReserved"
  "event_status (OrderPaid i) = StatusPaid"
  "event_status (OrderFulfilled i) = StatusFulfilled"
  "event_status (OrderCancelled i r) = StatusCancelled"
  "event_status (OrderFailed i r) = StatusFailed"
  by (simp_all add: event_status_def)

lemma ord_apply_Err: "ord_apply x o1 = (Err e, o2) \<Longrightarrow> o2 = o1"
  by (cases x) (auto simp: order_op_defs split: if_splits)

lemma ord_apply_no_panic [simp]: "ord_apply x o1 \<noteq> (Panic p, o2)"
  by (cases x) (auto simp: order_op_defs)

text \<open>A call that succeeds follows an edge and records exactly the event of its target.\<close>

lemma ord_apply_Ok:
  assumes "ord_apply x o1 = (Ok (), o2)"
  shows "order_edge (ord_status o1) (ord_status o2)"
    and "\<exists>e. pending o2 = pending o1 @ [e] \<and> event_status e = ord_status o2"
    and "ord_items o2 = ord_items o1" and "ord_total o2 = ord_total o1"
    and "ord_id o2 = ord_id o1" and "ord_userID o2 = ord_userID o1"
    and "ord_idempotencyKey o2 = ord_idempotencyKey o1"
  using assms
  by (cases x; auto simp: order_op_defs Record_def Order_CanCancel_def Order_IsTerminal_def
      order_edge_iff split: if_splits)+

lemma ord_apply_cases:
  obtains (ok) "fst (ord_apply x o1) = Ok ()"
  | (err) e where "ord_apply x o1 = (Err e, o1)"
proof (cases "ord_apply x o1")
  case (Pair r o2)
  show ?thesis
  proof (cases r)
    case (Ok u)
    with Pair ok show ?thesis by simp
  next
    case (Err e)
    with Pair err show ?thesis by (auto dest: ord_apply_Err)
  next
    case (Panic p)
    with Pair show ?thesis by simp
  qed
qed

text \<open>Every edge is the effect of some call: the machine is not stricter than the relation.\<close>

lemma order_edge_realised:
  assumes "order_edge (ord_status o1) t"
  shows "\<exists>x o2. ord_apply x o1 = (Ok (), o2) \<and> ord_status o2 = t"
proof (cases rule: order_edgeE [OF assms])
  case 1
  then show ?thesis by (intro exI [of _ DoReserve]) (simp add: order_op_defs Record_def)
next
  case 2
  then show ?thesis by (intro exI [of _ DoPay]) (simp add: order_op_defs Record_def)
next
  case 3
  then show ?thesis by (intro exI [of _ DoFulfil]) (simp add: order_op_defs Record_def)
next
  case 4
  then show ?thesis
    by (intro exI [of _ "DoCancel r" for r])
      (auto simp: order_op_defs Record_def Order_CanCancel_def)
next
  case 5
  then show ?thesis
    by (intro exI [of _ "DoFail r" for r])
      (auto simp: order_op_defs Record_def Order_IsTerminal_def)
qed

lemma order_edge_not_from_terminal: "Order_IsTerminal o1 \<Longrightarrow> \<not> order_edge (ord_status o1) t"
  by (auto simp: Order_IsTerminal_def order_edge_iff)

lemma ord_run_terminal: "Order_IsTerminal o1 \<Longrightarrow> ord_run xs o1 = o1"
proof (induction xs arbitrary: o1)
  case Nil
  then show ?case by simp
next
  case (Cons x xs)
  have "snd (ord_apply x o1) = o1"
  proof (cases rule: ord_apply_cases [of x o1])
    case ok
    then have "ord_apply x o1 = (Ok (), snd (ord_apply x o1))" by (metis prod.collapse)
    then have "order_edge (ord_status o1) (ord_status (snd (ord_apply x o1)))"
      by (rule ord_apply_Ok)
    with order_edge_not_from_terminal [OF Cons.prems] show ?thesis by blast
  qed simp
  with Cons show ?case by simp
qed

text \<open>
  A list of statuses that walks along edges, and an order whose recorded events tell its
  status: both are kept by every call.
\<close>

fun status_path :: "OrderStatus list \<Rightarrow> bool" where
  "status_path [] = True"
| "status_path [s] = True"
| "status_path (s # t # rest) = (order_edge s t \<and> status_path (t # rest))"

lemma status_path_snoc:
  "status_path (xs @ [t]) \<longleftrightarrow> status_path xs \<and> (xs = [] \<or> order_edge (last xs) t)"
proof (induction xs rule: status_path.induct)
  case (3 s u rest)
  then show ?case by (cases rest) auto
qed auto

definition tells_history :: "Order \<Rightarrow> bool" where
  "tells_history o1 \<longleftrightarrow> pending o1 \<noteq> [] \<and>
     event_status (hd (pending o1)) = StatusPending \<and>
     event_status (last (pending o1)) = ord_status o1 \<and>
     status_path (map event_status (pending o1))"

lemma tells_history_apply:
  assumes "tells_history o1"
  shows "tells_history (snd (ord_apply x o1))"
proof (cases rule: ord_apply_cases [of x o1])
  case ok
  then have step: "ord_apply x o1 = (Ok (), snd (ord_apply x o1))" by (metis prod.collapse)
  from ord_apply_Ok(2) [OF step] obtain e where
    e: "pending (snd (ord_apply x o1)) = pending o1 @ [e]"
       "event_status e = ord_status (snd (ord_apply x o1))" by blast
  from assms ord_apply_Ok(1) [OF step] show ?thesis
    by (auto simp: tells_history_def e status_path_snoc last_map)
next
  case err
  with assms show ?thesis by simp
qed

lemma tells_history_run: "tells_history o1 \<Longrightarrow> tells_history (ord_run xs o1)"
  by (induction xs arbitrary: o1) (auto intro: tells_history_apply)

text \<open>Statuses of a path: nothing comes before pending, and each later one has its one way in.\<close>

lemma order_edge_into:
  "order_edge s StatusPending \<Longrightarrow> False"
  "order_edge s StatusReserved \<Longrightarrow> s = StatusPending"
  "order_edge s StatusPaid \<Longrightarrow> s = StatusReserved"
  "order_edge s StatusFulfilled \<Longrightarrow> s = StatusPaid"
  by (auto simp: order_edge_iff)

lemma status_path_snoc2:
  "status_path (xs @ [s, t]) \<longleftrightarrow> status_path (xs @ [s]) \<and> order_edge s t"
  using status_path_snoc [of "xs @ [s]" t] by simp

lemma status_path_to_pending:
  assumes "status_path (xs @ [StatusPending])"
  shows "xs = []"
  using assms by (cases xs rule: rev_cases) (auto simp: status_path_snoc2 dest: order_edge_into)

lemma status_path_to_reserved:
  assumes "status_path (xs @ [StatusReserved])" and "xs \<noteq> []"
  shows "xs = [StatusPending]"
  using assms
  by (cases xs rule: rev_cases)
    (auto simp: status_path_snoc2 dest!: order_edge_into status_path_to_pending)

lemma status_path_to_fulfilled:
  assumes "status_path (xs @ [StatusFulfilled])" and "xs \<noteq> []" and "hd xs = StatusPending"
  shows "xs = [StatusPending, StatusReserved, StatusPaid]"
proof -
  obtain ys where xs: "xs = ys @ [StatusPaid]"
    using assms(1,2) by (cases xs rule: rev_cases) (auto simp: status_path_snoc2 dest!: order_edge_into)
  with assms(3) have "ys \<noteq> []" by auto
  have "status_path (ys @ [StatusPaid])"
    using assms(1) xs by (simp add: status_path_snoc2)
  then obtain zs where ys: "ys = zs @ [StatusReserved]"
    and zs: "status_path (zs @ [StatusReserved])"
    using \<open>ys \<noteq> []\<close>
    by (cases ys rule: rev_cases) (auto simp: status_path_snoc2 dest!: order_edge_into)
  from assms(3) xs ys have "zs \<noteq> []" by auto
  moreover note zs
  ultimately have "zs = [StatusPending]" using status_path_to_reserved by blast
  with xs ys show ?thesis by simp
qed

section \<open>Totals\<close>

text \<open>The wrapped sum of the subtotals, and the exact value of a list of items.\<close>

definition subtotal_amount :: "Item \<Rightarrow> int64" where
  "subtotal_amount i = m_amount (item_unitPrice i) * item_quantity i"

definition items_value :: "Item list \<Rightarrow> int" where
  "items_value items =
     (\<Sum>i\<leftarrow>items. sint (m_amount (item_unitPrice i)) * sint (item_quantity i))"

lemma Item_Subtotal_amount [simp]: "m_amount (Item_Subtotal i) = subtotal_amount i"
  by (simp add: Item_Subtotal_def subtotal_amount_def)

lemma Item_Subtotal_currency [simp]:
  "m_currency (Item_Subtotal i) = m_currency (item_unitPrice i)"
  by (simp add: Item_Subtotal_def)

lemma sum_items_iff:
  assumes "m_currency tot = cur"
  shows "sum_items cur tot items = Ok t \<longleftrightarrow>
    (\<forall>i \<in> set items. m_currency (item_unitPrice i) = cur) \<and>
    t = \<lparr>m_amount = m_amount tot + sum_list (map subtotal_amount items), m_currency = cur\<rparr>"
  using assms
proof (induction items arbitrary: tot)
  case Nil
  then show ?case by (cases tot) auto
next
  case (Cons i items)
  show ?case
  proof (cases "m_currency (item_unitPrice i) = cur")
    case True
    with Cons.prems Cons.IH show ?thesis by (simp add: Money_Add_def add.assoc)
  next
    case False
    then show ?thesis by simp
  qed
qed

lemma sum_items_no_panic: "sum_items cur tot items \<noteq> Panic p"
  by (induction items arbitrary: tot) (auto simp: Money_Add_def split: if_splits)

lemma sum_items_error:
  "sum_items cur tot items = Err e \<Longrightarrow> e = currency_mismatch"
  by (induction items arbitrary: tot) (auto simp: Money_Add_def split: if_splits)

text \<open>What \<open>NewOrder\<close> returns, when it returns an order.\<close>

definition same_currency :: "Item list \<Rightarrow> bool" where
  "same_currency items \<longleftrightarrow> (case items of [] \<Rightarrow> True
     | first # _ \<Rightarrow> list_all
         (\<lambda>i. m_currency (item_unitPrice i) = m_currency (item_unitPrice first)) items)"

definition items_total :: "Item list \<Rightarrow> Money" where
  "items_total items = \<lparr>m_amount = sum_list (map subtotal_amount items),
     m_currency = m_currency (item_unitPrice (hd items))\<rparr>"

lemma NewOrder_Ok_iff:
  "NewOrder now u items key = Ok o1 \<longleftrightarrow>
     items \<noteq> [] \<and> key \<noteq> '''' \<and> same_currency items \<and>
     o1 = \<lparr>pending = [OrderPlaced 0 u (m_amount (items_total items)) (m_currency (items_total items))],
           ord_id = 0, ord_userID = u, ord_status = StatusPending, ord_items = items,
           ord_total = items_total items, ord_idempotencyKey = key,
           ord_failureReason = '''', ord_createdAt = now\<rparr>"
proof (cases items)
  case Nil
  then show ?thesis by (simp add: NewOrder_def)
next
  case (Cons i rest)
  define c where "c = m_currency (item_unitPrice i)"
  have sum: "sum_items c (ZeroMoney c) (i # rest) = Ok t \<longleftrightarrow>
      same_currency items \<and> t = items_total items" for t
    unfolding sum_items_iff [of "ZeroMoney c" c, OF ZeroMoney_simps(2)]
    by (auto simp: same_currency_def items_total_def Cons c_def list_all_iff)
  show ?thesis
  proof (cases "key = ''''")
    case True
    then show ?thesis by (simp add: NewOrder_def Cons)
  next
    case False
    show ?thesis
    proof (cases "sum_items c (ZeroMoney c) (i # rest)")
      case (Ok t)
      then have "same_currency items \<and> t = items_total items" using sum by blast
      with Ok False show ?thesis
        by (auto simp: NewOrder_def Cons c_def Let_def Record_def)
    next
      case (Err e)
      then have "\<not> same_currency items" using sum by auto
      with Err False show ?thesis by (simp add: NewOrder_def Cons c_def Let_def)
    next
      case (Panic p)
      with sum_items_no_panic show ?thesis by blast
    qed
  qed
qed

lemma NewOrder_no_panic: "NewOrder now u items key \<noteq> Panic p"
  using sum_items_no_panic
  by (auto simp: NewOrder_def Let_def checkR_def simp del: sum_items.simps
      split: list.splits outcome.splits)

lemma NewOrder_tells_history: "NewOrder now u items key = Ok o1 \<Longrightarrow> tells_history o1"
  by (auto simp: NewOrder_Ok_iff tells_history_def)

text \<open>
  Where the exact value fits in an int64, nothing wraps: neither a subtotal nor a partial sum.
\<close>

definition sellable :: "Item \<Rightarrow> bool" where
  "sellable i \<longleftrightarrow> 0 \<le>s m_amount (item_unitPrice i) \<and> 0 <s item_quantity i"

lemma sellable_value: "sellable i \<Longrightarrow>
  0 \<le> sint (m_amount (item_unitPrice i)) * sint (item_quantity i)"
  by (simp add: sellable_def word_sle_eq word_sless_alt)

lemma items_value_nonneg: "list_all sellable items \<Longrightarrow> 0 \<le> items_value items"
proof (induction items)
  case Nil
  then show ?case by (simp add: items_value_def)
next
  case (Cons i items)
  then show ?case using sellable_value [of i] by (simp add: items_value_def)
qed

lemma subtotals_exact:
  assumes "list_all sellable items" and "items_value items < 2 ^ 63"
  shows "sint (sum_list (map subtotal_amount items)) = items_value items"
  using assms
proof (induction items)
  case Nil
  then show ?case by (simp add: items_value_def)
next
  case (Cons i items)
  define v where "v = sint (m_amount (item_unitPrice i)) * sint (item_quantity i)"
  from Cons.prems have s: "sellable i" "list_all sellable items" by simp_all
  have split: "items_value (i # items) = v + items_value items"
    by (simp add: items_value_def v_def)
  have v: "0 \<le> v" using sellable_value [OF s(1)] by (simp add: v_def)
  have rest: "0 \<le> items_value items" using items_value_nonneg [OF s(2)] .
  from Cons.prems(2) split v rest have bounds: "items_value items < 2 ^ 63" "in_int64 v"
    by (auto simp: in_int64_def)
  have IH: "sint (sum_list (map subtotal_amount items)) = items_value items"
    using Cons.IH s(2) bounds(1) by simp
  have sub: "sint (subtotal_amount i) = v"
    using bounds(2) unfolding subtotal_amount_def v_def by (rule sint_mult_exact)
  have "in_int64 (v + items_value items)"
    using Cons.prems(2) split v rest by (simp add: in_int64_def)
  then show ?case using IH sub split by (simp add: sint_add_exact)
qed

end
