(* ===== verification/Payment_Agg.thy ===== *)
theory Payment_Agg
  imports Shared
begin

text \<open>Package internal/domain/payment: the Payment aggregate (payment.go) and its events
  (events.go). \<open>Status\<close> is a Go string type, as in package order.\<close>

type_synonym PaymentStatus = string

definition PayPending :: PaymentStatus where "PayPending = ''pending''"

definition PaySucceeded :: PaymentStatus where "PaySucceeded = ''succeeded''"

definition PayFailed :: PaymentStatus where "PayFailed = ''failed''"

definition PayRefunded :: PaymentStatus where "PayRefunded = ''refunded''"

lemmas pay_status_defs = PayPending_def PaySucceeded_def PayFailed_def PayRefunded_def

lemma pay_status_distinct [simp]:
  "PayPending \<noteq> PaySucceeded" "PaySucceeded \<noteq> PayPending"
  "PayPending \<noteq> PayFailed" "PayFailed \<noteq> PayPending"
  "PayPending \<noteq> PayRefunded" "PayRefunded \<noteq> PayPending"
  "PaySucceeded \<noteq> PayFailed" "PayFailed \<noteq> PaySucceeded"
  "PaySucceeded \<noteq> PayRefunded" "PayRefunded \<noteq> PaySucceeded"
  "PayFailed \<noteq> PayRefunded" "PayRefunded \<noteq> PayFailed"
  by (simp_all add: pay_status_defs)

datatype PaymentEvent =
    PaymentInitiated uint64 uint64
  | PaymentSucceeded uint64 uint64
  | PaymentFailed uint64 uint64 string
  | PaymentRefunded uint64 uint64

definition PaymentEvent_EventName :: "PaymentEvent \<Rightarrow> string" where
  "PaymentEvent_EventName e = (case e of
      PaymentInitiated _ _ \<Rightarrow> ''payment.initiated''
    | PaymentSucceeded _ _ \<Rightarrow> ''payment.succeeded''
    | PaymentFailed _ _ _ \<Rightarrow> ''payment.failed''
    | PaymentRefunded _ _ \<Rightarrow> ''payment.refunded'')"

definition PaymentEvent_AggregateID :: "PaymentEvent \<Rightarrow> uint64" where
  "PaymentEvent_AggregateID e = (case e of
      PaymentInitiated p _ \<Rightarrow> p
    | PaymentSucceeded p _ \<Rightarrow> p
    | PaymentFailed p _ _ \<Rightarrow> p
    | PaymentRefunded p _ \<Rightarrow> p)"

record Payment = "PaymentEvent AggregateRoot" +
  pay_id :: uint64
  pay_orderID :: uint64
  pay_idempotencyKey :: string
  pay_amount :: Money
  pay_status :: PaymentStatus
  pay_provider :: string
  pay_providerRef :: string
  pay_attempts :: goint
  pay_failureReason :: string
  pay_createdAt :: time

definition NewPayment :: "time \<Rightarrow> uint64 \<Rightarrow> string \<Rightarrow> Money \<Rightarrow> Payment outcome" where
  "NewPayment now orderID idempotencyKey amount =
     (if orderID = 0
        then Err (Validation ''payment.order_required'' ''order id is required'')
      else if idempotencyKey = ''''
        then Err (Validation ''payment.idempotency_key_required'' ''idempotency key is required'')
      else if Money_IsZero amount
        then Err (Validation ''payment.amount_positive'' ''amount must be greater than zero'')
      else (let p = \<lparr>pending = [], pay_id = 0, pay_orderID = orderID,
              pay_idempotencyKey = idempotencyKey, pay_amount = amount, pay_status = PayPending,
              pay_provider = '''', pay_providerRef = '''', pay_attempts = 0,
              pay_failureReason = '''', pay_createdAt = now\<rparr>
        in Ok (Record [PaymentInitiated (pay_id p) (pay_orderID p)] p)))"

definition ReconstitutePayment ::
  "uint64 \<Rightarrow> uint64 \<Rightarrow> string \<Rightarrow> Money \<Rightarrow> PaymentStatus \<Rightarrow> string \<Rightarrow> string \<Rightarrow> goint \<Rightarrow> string \<Rightarrow> time
    \<Rightarrow> Payment"
where
  "ReconstitutePayment i orderID idempotencyKey amount status provider providerRef attempts
      failureReason createdAt =
     \<lparr>pending = [], pay_id = i, pay_orderID = orderID, pay_idempotencyKey = idempotencyKey,
      pay_amount = amount, pay_status = status, pay_provider = provider,
      pay_providerRef = providerRef, pay_attempts = attempts,
      pay_failureReason = failureReason, pay_createdAt = createdAt\<rparr>"

definition Payment_AssignID :: "uint64 \<Rightarrow> Payment \<Rightarrow> Payment" where
  "Payment_AssignID i p = (if pay_id p = 0 then p\<lparr>pay_id := i\<rparr> else p)"

definition Payment_RecordAttempt :: "string \<Rightarrow> (Payment, unit) prog" where
  "Payment_RecordAttempt provider p =
     (if provider = ''''
        then (Err (Validation ''payment.provider_required'' ''provider is required''), p)
      else (Ok (), p\<lparr>pay_attempts := pay_attempts p + 1, pay_provider := provider\<rparr>))"

definition Payment_MarkSucceeded :: "string \<Rightarrow> (Payment, unit) prog" where
  "Payment_MarkSucceeded providerRef p =
     (if pay_status p \<noteq> PayPending
        then (Err (Conflict ''payment.not_pending'' ''payment is not pending''), p)
      else if providerRef = ''''
        then (Err (Validation ''payment.provider_ref_required'' ''provider reference is required''), p)
      else (Ok (), Record [PaymentSucceeded (pay_id p) (pay_orderID p)]
              (p\<lparr>pay_status := PaySucceeded, pay_providerRef := providerRef,
                 pay_failureReason := ''''\<rparr>)))"

definition Payment_MarkFailed :: "string \<Rightarrow> (Payment, unit) prog" where
  "Payment_MarkFailed reason p =
     (if pay_status p \<noteq> PayPending
        then (Err (Conflict ''payment.not_pending'' ''payment is not pending''), p)
      else if reason = ''''
        then (Err (Validation ''payment.reason_required'' ''failure reason is required''), p)
      else (Ok (), Record [PaymentFailed (pay_id p) (pay_orderID p) reason]
              (p\<lparr>pay_status := PayFailed, pay_failureReason := reason\<rparr>)))"

definition Payment_Refund :: "(Payment, unit) prog" where
  "Payment_Refund p =
     (if pay_status p \<noteq> PaySucceeded
        then (Err (Conflict ''payment.not_succeeded'' ''only succeeded payments can be refunded''), p)
      else (Ok (), Record [PaymentRefunded (pay_id p) (pay_orderID p)]
              (p\<lparr>pay_status := PayRefunded\<rparr>)))"

lemmas payment_op_defs = Payment_RecordAttempt_def Payment_MarkSucceeded_def
  Payment_MarkFailed_def Payment_Refund_def

section \<open>The payment state machine\<close>

datatype pay_op = DoAttempt string | DoSucceed string | DoFailPayment string | DoRefund

fun pay_apply :: "pay_op \<Rightarrow> (Payment, unit) prog" where
  "pay_apply (DoAttempt provider) = Payment_RecordAttempt provider"
| "pay_apply (DoSucceed ref) = Payment_MarkSucceeded ref"
| "pay_apply (DoFailPayment reason) = Payment_MarkFailed reason"
| "pay_apply DoRefund = Payment_Refund"

fun pay_run :: "pay_op list \<Rightarrow> Payment \<Rightarrow> Payment" where
  "pay_run [] p = p"
| "pay_run (x # xs) p = pay_run xs (snd (pay_apply x p))"

text \<open>
  What a payment's fields say about each other in each of its four statuses: a reference of the
  provider exactly once it has succeeded, a reason exactly when it has failed, and the events
  that led there.
\<close>

definition pay_coherent :: "Payment \<Rightarrow> bool" where
  "pay_coherent p \<longleftrightarrow>
     (pay_status p = PayPending \<and> pay_providerRef p = '''' \<and> pay_failureReason p = '''' \<and>
        map PaymentEvent_EventName (pending p) = [''payment.initiated'']) \<or>
     (pay_status p = PaySucceeded \<and> pay_providerRef p \<noteq> '''' \<and> pay_failureReason p = '''' \<and>
        map PaymentEvent_EventName (pending p) = [''payment.initiated'', ''payment.succeeded'']) \<or>
     (pay_status p = PayFailed \<and> pay_providerRef p = '''' \<and> pay_failureReason p \<noteq> '''' \<and>
        map PaymentEvent_EventName (pending p) = [''payment.initiated'', ''payment.failed'']) \<or>
     (pay_status p = PayRefunded \<and> pay_providerRef p \<noteq> '''' \<and> pay_failureReason p = '''' \<and>
        map PaymentEvent_EventName (pending p) =
          [''payment.initiated'', ''payment.succeeded'', ''payment.refunded''])"

lemma PaymentEvent_EventName_simps [simp]:
  "PaymentEvent_EventName (PaymentInitiated a b) = ''payment.initiated''"
  "PaymentEvent_EventName (PaymentSucceeded a b) = ''payment.succeeded''"
  "PaymentEvent_EventName (PaymentFailed a b r) = ''payment.failed''"
  "PaymentEvent_EventName (PaymentRefunded a b) = ''payment.refunded''"
  by (simp_all add: PaymentEvent_EventName_def)

lemma NewPayment_Ok_iff:
  "NewPayment now oid key amt = Ok p \<longleftrightarrow> oid \<noteq> 0 \<and> key \<noteq> '''' \<and> m_amount amt \<noteq> 0 \<and>
     p = \<lparr>pending = [PaymentInitiated 0 oid], pay_id = 0, pay_orderID = oid,
          pay_idempotencyKey = key, pay_amount = amt, pay_status = PayPending,
          pay_provider = '''', pay_providerRef = '''', pay_attempts = 0,
          pay_failureReason = '''', pay_createdAt = now\<rparr>"
  by (auto simp: NewPayment_def Money_IsZero_def Let_def Record_def)

lemma NewPayment_no_panic [simp]: "NewPayment now oid key amt \<noteq> Panic q"
  by (simp add: NewPayment_def Let_def)

lemma NewPayment_coherent: "NewPayment now oid key amt = Ok p \<Longrightarrow> pay_coherent p"
  by (auto simp: NewPayment_Ok_iff pay_coherent_def)

lemma pay_apply_coherent: "pay_coherent p \<Longrightarrow> pay_coherent (snd (pay_apply x p))"
  by (cases x) (auto simp: payment_op_defs pay_coherent_def Record_def)

lemma pay_run_coherent: "pay_coherent p \<Longrightarrow> pay_coherent (pay_run xs p)"
  by (induction xs arbitrary: p) (auto intro: pay_apply_coherent)

lemma pay_apply_Err: "pay_apply x p = (Err e, p') \<Longrightarrow> p' = p"
  by (cases x) (auto simp: payment_op_defs split: if_splits)

lemma pay_apply_frame:
  "pay_amount (snd (pay_apply x p)) = pay_amount p"
  "pay_orderID (snd (pay_apply x p)) = pay_orderID p"
  "pay_idempotencyKey (snd (pay_apply x p)) = pay_idempotencyKey p"
  by (cases x; simp add: payment_op_defs Record_def)+

end
