(* ===== verification/Product_Agg.thy ===== *)
theory Product_Agg
  imports Shared
begin

text \<open>Package internal/domain/product: the Product aggregate (product.go) and its events.\<close>

datatype ProductEvent =
    ProductCreated uint64 string
  | ProductRepriced uint64

definition ProductEvent_EventName :: "ProductEvent \<Rightarrow> string" where
  "ProductEvent_EventName e = (case e of
      ProductCreated _ _ \<Rightarrow> ''product.created''
    | ProductRepriced _ \<Rightarrow> ''product.repriced'')"

definition ProductEvent_AggregateID :: "ProductEvent \<Rightarrow> uint64" where
  "ProductEvent_AggregateID e = (case e of
      ProductCreated p _ \<Rightarrow> p
    | ProductRepriced p \<Rightarrow> p)"

record Product = "ProductEvent AggregateRoot" +
  prod_id :: uint64
  prod_sku :: string
  prod_name :: string
  prod_description :: string
  prod_price :: Money
  prod_active :: bool
  prod_createdAt :: time

definition NewProduct :: "time \<Rightarrow> string \<Rightarrow> string \<Rightarrow> string \<Rightarrow> Money \<Rightarrow> Product outcome" where
  "NewProduct now sku name description price =
     (if sku = '''' then Err (Validation ''product.sku_required'' ''sku cannot be empty'')
      else if name = '''' then Err (Validation ''product.name_required'' ''name cannot be empty'')
      else (let p = \<lparr>pending = [], prod_id = 0, prod_sku = sku, prod_name = name,
              prod_description = description, prod_price = price, prod_active = True,
              prod_createdAt = now\<rparr>
        in Ok (Record [ProductCreated (prod_id p) (prod_sku p)] p)))"

definition ReconstituteProduct ::
  "uint64 \<Rightarrow> string \<Rightarrow> string \<Rightarrow> string \<Rightarrow> Money \<Rightarrow> bool \<Rightarrow> time \<Rightarrow> Product" where
  "ReconstituteProduct i sku name description price active createdAt =
     \<lparr>pending = [], prod_id = i, prod_sku = sku, prod_name = name,
      prod_description = description, prod_price = price, prod_active = active,
      prod_createdAt = createdAt\<rparr>"

definition Product_Rename :: "string \<Rightarrow> (Product, unit) prog" where
  "Product_Rename name p =
     (if name = '''' then (Err (Validation ''product.name_required'' ''name cannot be empty''), p)
      else (Ok (), p\<lparr>prod_name := name\<rparr>))"

definition Product_Reprice :: "Money \<Rightarrow> Product \<Rightarrow> Product" where
  "Product_Reprice price p = Record [ProductRepriced (prod_id p)] (p\<lparr>prod_price := price\<rparr>)"

definition Product_Activate :: "Product \<Rightarrow> Product" where
  "Product_Activate p = p\<lparr>prod_active := True\<rparr>"

definition Product_Deactivate :: "Product \<Rightarrow> Product" where
  "Product_Deactivate p = p\<lparr>prod_active := False\<rparr>"

definition Product_AssignID :: "uint64 \<Rightarrow> Product \<Rightarrow> Product" where
  "Product_AssignID i p = (if prod_id p = 0 then p\<lparr>prod_id := i\<rparr> else p)"

lemma NewProduct_Ok_iff:
  "NewProduct now sku name desc price = Ok p \<longleftrightarrow> sku \<noteq> '''' \<and> name \<noteq> '''' \<and>
     p = \<lparr>pending = [ProductCreated 0 sku], prod_id = 0, prod_sku = sku, prod_name = name,
          prod_description = desc, prod_price = price, prod_active = True, prod_createdAt = now\<rparr>"
  by (auto simp: NewProduct_def Let_def Record_def)

end
