(* ===== verification/User_Agg.thy ===== *)
theory User_Agg
  imports Shared
begin

text \<open>Package internal/domain/user: the User aggregate (user.go) and its event. \<open>Role\<close> is a
  Go string type: a value outside its two constants can come out of the database.\<close>

type_synonym Role = string

definition RoleCustomer :: Role where "RoleCustomer = ''customer''"

definition RoleAdmin :: Role where "RoleAdmin = ''admin''"

lemma role_distinct [simp]: "RoleCustomer \<noteq> RoleAdmin" "RoleAdmin \<noteq> RoleCustomer"
  "RoleCustomer \<noteq> ''''" "RoleAdmin \<noteq> ''''"
  by (simp_all add: RoleCustomer_def RoleAdmin_def)

definition Role_Valid :: "Role \<Rightarrow> bool" where
  "Role_Valid r \<longleftrightarrow> r = RoleCustomer \<or> r = RoleAdmin"

datatype UserEvent = UserRegistered uint64 string

definition UserEvent_EventName :: "UserEvent \<Rightarrow> string" where
  "UserEvent_EventName e = ''user.registered''"

definition UserEvent_AggregateID :: "UserEvent \<Rightarrow> uint64" where
  "UserEvent_AggregateID e = (case e of UserRegistered u _ \<Rightarrow> u)"

record User = "UserEvent AggregateRoot" +
  usr_id :: uint64
  usr_email :: string
  usr_passwordHash :: string
  usr_fullName :: string
  usr_role :: Role
  usr_createdAt :: time

definition NewUser :: "string \<Rightarrow> string \<Rightarrow> string \<Rightarrow> Role \<Rightarrow> User outcome" where
  "NewUser email passwordHash fullName role =
     (if email = '''' then Err (Validation ''user.email_required'' ''email is required'')
      else if CHR ''@'' \<notin> set email
        then Err (Validation ''user.email_invalid'' ''email must contain @'')
      else if passwordHash = ''''
        then Err (Validation ''user.password_required'' ''password hash is required'')
      else if role \<noteq> '''' \<and> \<not> Role_Valid role
        then Err (Validation ''user.role_invalid'' ''role is not valid'')
      else (let u = \<lparr>pending = [], usr_id = 0, usr_email = email, usr_passwordHash = passwordHash,
              usr_fullName = fullName, usr_role = (if role = '''' then RoleCustomer else role),
              usr_createdAt = 0\<rparr>
        in Ok (Record [UserRegistered (usr_id u) (usr_email u)] u)))"

definition ReconstituteUser ::
  "uint64 \<Rightarrow> string \<Rightarrow> string \<Rightarrow> string \<Rightarrow> Role \<Rightarrow> time \<Rightarrow> User" where
  "ReconstituteUser i email passwordHash fullName role createdAt =
     \<lparr>pending = [], usr_id = i, usr_email = email, usr_passwordHash = passwordHash,
      usr_fullName = fullName, usr_role = role, usr_createdAt = createdAt\<rparr>"

definition User_UpdateProfile :: "string \<Rightarrow> User \<Rightarrow> User" where
  "User_UpdateProfile fullName u = u\<lparr>usr_fullName := fullName\<rparr>"

definition User_IsAdmin :: "User \<Rightarrow> bool" where
  "User_IsAdmin u \<longleftrightarrow> usr_role u = RoleAdmin"

definition User_AssignID :: "uint64 \<Rightarrow> User \<Rightarrow> User" where
  "User_AssignID i u = (if usr_id u = 0 then u\<lparr>usr_id := i\<rparr> else u)"

lemma NewUser_role: "NewUser e h n r = Ok u \<Longrightarrow> Role_Valid (usr_role u)"
  by (auto simp: NewUser_def Let_def Record_def Role_Valid_def split: if_splits)

end
