(* ===== verification/Notification_Agg.thy ===== *)
theory Notification_Agg
  imports Shared
begin

text \<open>Package internal/domain/notification: the Notification aggregate (notification.go) and
  its events (events.go). Type, channel and status are Go string types.\<close>

definition TypeOrderConfirmed :: string where "TypeOrderConfirmed = ''order_confirmed''"

definition TypeOrderFailed :: string where "TypeOrderFailed = ''order_failed''"

definition TypePaymentFailed :: string where "TypePaymentFailed = ''payment_failed''"

definition TypeLowStock :: string where "TypeLowStock = ''low_stock''"

definition ChannelEmail :: string where "ChannelEmail = ''email''"

definition ChannelSMS :: string where "ChannelSMS = ''sms''"

definition ChannelPush :: string where "ChannelPush = ''push''"

definition NotifQueued :: string where "NotifQueued = ''queued''"

definition NotifSent :: string where "NotifSent = ''sent''"

definition NotifFailed :: string where "NotifFailed = ''failed''"

lemmas notif_const_defs = TypeOrderConfirmed_def TypeOrderFailed_def TypePaymentFailed_def
  TypeLowStock_def ChannelEmail_def ChannelSMS_def ChannelPush_def
  NotifQueued_def NotifSent_def NotifFailed_def

lemma notif_status_distinct [simp]:
  "NotifQueued \<noteq> NotifSent" "NotifSent \<noteq> NotifQueued"
  "NotifQueued \<noteq> NotifFailed" "NotifFailed \<noteq> NotifQueued"
  "NotifSent \<noteq> NotifFailed" "NotifFailed \<noteq> NotifSent"
  by (simp_all add: notif_const_defs)

definition Type_valid :: "string \<Rightarrow> bool" where
  "Type_valid t \<longleftrightarrow> t = TypeOrderConfirmed \<or> t = TypeOrderFailed \<or> t = TypePaymentFailed \<or>
     t = TypeLowStock"

definition Channel_valid :: "string \<Rightarrow> bool" where
  "Channel_valid c \<longleftrightarrow> c = ChannelEmail \<or> c = ChannelSMS \<or> c = ChannelPush"

datatype NotificationEvent =
    NotificationQueued uint64
  | NotificationSent uint64
  | NotificationFailed uint64 string

definition NotificationEvent_EventName :: "NotificationEvent \<Rightarrow> string" where
  "NotificationEvent_EventName e = (case e of
      NotificationQueued _ \<Rightarrow> ''notification.queued''
    | NotificationSent _ \<Rightarrow> ''notification.sent''
    | NotificationFailed _ _ \<Rightarrow> ''notification.failed'')"

definition NotificationEvent_AggregateID :: "NotificationEvent \<Rightarrow> uint64" where
  "NotificationEvent_AggregateID e = (case e of
      NotificationQueued n \<Rightarrow> n
    | NotificationSent n \<Rightarrow> n
    | NotificationFailed n _ \<Rightarrow> n)"

record Notification = "NotificationEvent AggregateRoot" +
  ntf_id :: uint64
  ntf_userID :: "uint64 option"
  ntf_type :: string
  ntf_channel :: string
  ntf_status :: string
  ntf_subject :: string
  ntf_payload :: string
  ntf_attempts :: goint
  ntf_failureReason :: string
  ntf_createdAt :: time

definition NewNotification ::
  "uint64 option \<Rightarrow> string \<Rightarrow> string \<Rightarrow> string \<Rightarrow> string \<Rightarrow> Notification outcome" where
  "NewNotification userID ntype channel subject payload =
     (if \<not> Type_valid ntype
        then Err (Validation ''notification.type.invalid'' ''notification type is invalid'')
      else if \<not> Channel_valid channel
        then Err (Validation ''notification.channel.invalid'' ''notification channel is invalid'')
      else if subject = ''''
        then Err (Validation ''notification.subject.required''
               ''notification subject must not be empty'')
      else (let n = \<lparr>pending = [], ntf_id = 0, ntf_userID = userID, ntf_type = ntype,
              ntf_channel = channel, ntf_status = NotifQueued, ntf_subject = subject,
              ntf_payload = payload, ntf_attempts = 0, ntf_failureReason = '''',
              ntf_createdAt = 0\<rparr>
        in Ok (Record [NotificationQueued (ntf_id n)] n)))"

definition ReconstituteNotification ::
  "uint64 \<Rightarrow> uint64 option \<Rightarrow> string \<Rightarrow> string \<Rightarrow> string \<Rightarrow> string \<Rightarrow> string \<Rightarrow> goint \<Rightarrow> string
    \<Rightarrow> time \<Rightarrow> Notification" where
  "ReconstituteNotification i userID ntype channel status subject payload attempts failureReason
      createdAt =
     \<lparr>pending = [], ntf_id = i, ntf_userID = userID, ntf_type = ntype, ntf_channel = channel,
      ntf_status = status, ntf_subject = subject, ntf_payload = payload, ntf_attempts = attempts,
      ntf_failureReason = failureReason, ntf_createdAt = createdAt\<rparr>"

definition Notification_IncrementAttempt :: "Notification \<Rightarrow> Notification" where
  "Notification_IncrementAttempt n = n\<lparr>ntf_attempts := ntf_attempts n + 1\<rparr>"

definition Notification_MarkSent :: "(Notification, unit) prog" where
  "Notification_MarkSent n =
     (if ntf_status n \<noteq> NotifQueued \<and> ntf_status n \<noteq> NotifFailed
        then (Err (Conflict ''notification.send.invalid_status''
                ''notification can only be sent from queued or failed status''), n)
      else (Ok (), Record [NotificationSent (ntf_id n)]
              (n\<lparr>ntf_status := NotifSent, ntf_failureReason := ''''\<rparr>)))"

definition Notification_MarkFailed :: "string \<Rightarrow> (Notification, unit) prog" where
  "Notification_MarkFailed reason n =
     (if reason = ''''
        then (Err (Validation ''notification.fail.reason_required''
                ''failure reason must not be empty''), n)
      else if ntf_status n = NotifSent
        then (Err (Conflict ''notification.fail.already_sent''
                ''a sent notification cannot be marked failed''), n)
      else (Ok (), Record [NotificationFailed (ntf_id n) reason]
              (n\<lparr>ntf_status := NotifFailed, ntf_failureReason := reason\<rparr>)))"

definition Notification_AssignID :: "uint64 \<Rightarrow> Notification \<Rightarrow> Notification" where
  "Notification_AssignID i n = (if ntf_id n = 0 then n\<lparr>ntf_id := i\<rparr> else n)"

lemmas notification_op_defs = Notification_IncrementAttempt_def Notification_MarkSent_def
  Notification_MarkFailed_def

end
