(* ===== verification/Audit_Agg.thy ===== *)
theory Audit_Agg
  imports Shared
begin

text \<open>Package internal/domain/audit: audit log entries (entry.go). An entry is a plain value:
  it records no events and never changes.\<close>

record Entry =
  ent_id :: uint64
  ent_actorID :: "uint64 option"
  ent_action :: string
  ent_entity :: string
  ent_entityID :: uint64
  ent_before :: string
  ent_after :: string
  ent_metadata :: string
  ent_createdAt :: time

definition NewEntry ::
  "time \<Rightarrow> uint64 option \<Rightarrow> string \<Rightarrow> string \<Rightarrow> uint64 \<Rightarrow> string \<Rightarrow> string \<Rightarrow> string
    \<Rightarrow> Entry outcome" where
  "NewEntry now actorID action entity entityID before after metadata =
     (if action = '''' then Err (Validation ''audit.action_required'' ''action must not be empty'')
      else if entity = '''' then Err (Validation ''audit.entity_required'' ''entity must not be empty'')
      else Ok \<lparr>ent_id = 0, ent_actorID = actorID, ent_action = action, ent_entity = entity,
               ent_entityID = entityID, ent_before = before, ent_after = after,
               ent_metadata = metadata, ent_createdAt = now\<rparr>)"

definition ReconstituteEntry ::
  "uint64 \<Rightarrow> uint64 option \<Rightarrow> string \<Rightarrow> string \<Rightarrow> uint64 \<Rightarrow> string \<Rightarrow> string \<Rightarrow> string
    \<Rightarrow> time \<Rightarrow> Entry" where
  "ReconstituteEntry i actorID action entity entityID before after metadata createdAt =
     \<lparr>ent_id = i, ent_actorID = actorID, ent_action = action, ent_entity = entity,
      ent_entityID = entityID, ent_before = before, ent_after = after,
      ent_metadata = metadata, ent_createdAt = createdAt\<rparr>"

end
