(* ===== verification/Models.thy ===== *)
theory Models
  imports Inventory_Agg Order_Agg Payment_Agg Product_Agg User_Agg Notification_Agg Audit_Agg
begin

text \<open>
  The persistence models of internal/infrastructure/persistence/gormrepo/models.go, one record
  per table, and the database they make up. The column \<open>UpdatedAt\<close> is left out: the driver
  writes it and no code of the service reads it.
\<close>

record UserModel =
  um_ID :: uint64
  um_Email :: string
  um_PasswordHash :: string
  um_FullName :: string
  um_Role :: string
  um_CreatedAt :: time

record ProductModel =
  pm_ID :: uint64
  pm_SKU :: string
  pm_Name :: string
  pm_Description :: string
  pm_PriceAmount :: int64
  pm_Currency :: string
  pm_Active :: bool
  pm_CreatedAt :: time

record InventoryModel =
  im_ID :: uint64
  im_ProductID :: uint64
  im_Available :: goint
  im_Reserved :: goint
  im_ReorderLevel :: goint
  im_Version :: goint
  im_CreatedAt :: time

record OrderItemModel =
  oim_ID :: uint64
  oim_OrderID :: uint64
  oim_ProductID :: uint64
  oim_SKU :: string
  oim_Name :: string
  oim_UnitPriceAmount :: int64
  oim_Currency :: string
  oim_Quantity :: goint

record OrderModel =
  om_ID :: uint64
  om_UserID :: uint64
  om_Status :: string
  om_TotalAmount :: int64
  om_Currency :: string
  om_IdempotencyKey :: string
  om_FailureReason :: string
  om_Items :: "OrderItemModel list"
  om_CreatedAt :: time

record PaymentModel =
  pym_ID :: uint64
  pym_OrderID :: uint64
  pym_IdempotencyKey :: string
  pym_Amount :: int64
  pym_Currency :: string
  pym_Status :: string
  pym_Provider :: string
  pym_ProviderRef :: string
  pym_Attempts :: goint
  pym_FailureReason :: string
  pym_CreatedAt :: time

record NotificationModel =
  nm_ID :: uint64
  nm_UserID :: "uint64 option"
  nm_Type :: string
  nm_Channel :: string
  nm_Status :: string
  nm_Subject :: string
  nm_Payload :: string
  nm_Attempts :: goint
  nm_FailureReason :: string
  nm_CreatedAt :: time

record AuditLogModel =
  am_ID :: uint64
  am_ActorID :: "uint64 option"
  am_Action :: string
  am_Entity :: string
  am_EntityID :: uint64
  am_Before :: string
  am_After :: string
  am_Metadata :: string
  am_CreatedAt :: time

text \<open>The tables of \<open>AllModels\<close>: an order's items are the rows that reference it.\<close>

record DB =
  db_users :: "UserModel list"
  db_products :: "ProductModel list"
  db_inventories :: "InventoryModel list"
  db_orders :: "OrderModel list"
  db_payments :: "PaymentModel list"
  db_notifications :: "NotificationModel list"
  db_audit_logs :: "AuditLogModel list"

section \<open>Column tags\<close>

text \<open>
  What the \<open>gorm\<close> tags of a model declare, table by table. \<open>sc_id\<close> is the primary key;
  \<open>sc_clash\<close> holds of two rows that agree on a column with a unique index;
  \<open>sc_stored r r'\<close> holds when \<open>r'\<close> is the row that storing the struct \<open>r\<close> may produce:
  every field the struct sets, the \<open>default:\<close> of a tag where the field has its zero value, a
  primary key (and, in an order, the keys of its items) where the struct has none, and a
  creation time where it is zero.
\<close>

record 'r Schema =
  sc_id :: "'r \<Rightarrow> uint64"
  sc_clash :: "'r \<Rightarrow> 'r \<Rightarrow> bool"
  sc_stored :: "'r \<Rightarrow> 'r \<Rightarrow> bool"

definition filled_id :: "uint64 \<Rightarrow> uint64 \<Rightarrow> bool" where
  "filled_id i i' \<longleftrightarrow> i' \<noteq> 0 \<and> (i \<noteq> 0 \<longrightarrow> i' = i)"

definition filled_time :: "time \<Rightarrow> time \<Rightarrow> bool" where
  "filled_time t t' \<longleftrightarrow> (t \<noteq> 0 \<longrightarrow> t' = t)"

definition filled_string :: "string \<Rightarrow> string \<Rightarrow> string" where
  "filled_string d s = (if s = '''' then d else s)"

definition userSchema :: "UserModel Schema" where
  "userSchema = \<lparr>
     sc_id = um_ID,
     sc_clash = (\<lambda>r r'. um_Email r = um_Email r'),
     sc_stored = (\<lambda>r r'. filled_id (um_ID r) (um_ID r') \<and>
       filled_time (um_CreatedAt r) (um_CreatedAt r') \<and>
       r' = r\<lparr>um_ID := um_ID r', um_CreatedAt := um_CreatedAt r',
              um_Role := filled_string ''customer'' (um_Role r)\<rparr>)\<rparr>"

definition productSchema :: "ProductModel Schema" where
  "productSchema = \<lparr>
     sc_id = pm_ID,
     sc_clash = (\<lambda>r r'. pm_SKU r = pm_SKU r'),
     sc_stored = (\<lambda>r r'. filled_id (pm_ID r) (pm_ID r') \<and>
       filled_time (pm_CreatedAt r) (pm_CreatedAt r') \<and>
       r' = r\<lparr>pm_ID := pm_ID r', pm_CreatedAt := pm_CreatedAt r',
              pm_Currency := filled_string ''USD'' (pm_Currency r), pm_Active := True\<rparr>)\<rparr>"

definition inventorySchema :: "InventoryModel Schema" where
  "inventorySchema = \<lparr>
     sc_id = im_ID,
     sc_clash = (\<lambda>r r'. im_ProductID r = im_ProductID r'),
     sc_stored = (\<lambda>r r'. filled_id (im_ID r) (im_ID r') \<and>
       filled_time (im_CreatedAt r) (im_CreatedAt r') \<and>
       r' = r\<lparr>im_ID := im_ID r', im_CreatedAt := im_CreatedAt r'\<rparr>)\<rparr>"

definition stored_item :: "uint64 \<Rightarrow> OrderItemModel \<Rightarrow> OrderItemModel \<Rightarrow> bool" where
  "stored_item orderID r r' \<longleftrightarrow> filled_id (oim_ID r) (oim_ID r') \<and>
     r' = r\<lparr>oim_ID := oim_ID r', oim_OrderID := orderID,
            oim_Currency := filled_string ''USD'' (oim_Currency r)\<rparr>"

definition orderSchema :: "OrderModel Schema" where
  "orderSchema = \<lparr>
     sc_id = om_ID,
     sc_clash = (\<lambda>r r'. om_IdempotencyKey r = om_IdempotencyKey r'),
     sc_stored = (\<lambda>r r'. filled_id (om_ID r) (om_ID r') \<and>
       filled_time (om_CreatedAt r) (om_CreatedAt r') \<and>
       list_all2 (stored_item (om_ID r')) (om_Items r) (om_Items r') \<and>
       r' = r\<lparr>om_ID := om_ID r', om_CreatedAt := om_CreatedAt r', om_Items := om_Items r',
              om_Currency := filled_string ''USD'' (om_Currency r)\<rparr>)\<rparr>"

definition paymentSchema :: "PaymentModel Schema" where
  "paymentSchema = \<lparr>
     sc_id = pym_ID,
     sc_clash = (\<lambda>r r'. pym_OrderID r = pym_OrderID r' \<or>
       pym_IdempotencyKey r = pym_IdempotencyKey r'),
     sc_stored = (\<lambda>r r'. filled_id (pym_ID r) (pym_ID r') \<and>
       filled_time (pym_CreatedAt r) (pym_CreatedAt r') \<and>
       r' = r\<lparr>pym_ID := pym_ID r', pym_CreatedAt := pym_CreatedAt r',
              pym_Currency := filled_string ''USD'' (pym_Currency r)\<rparr>)\<rparr>"

definition notificationSchema :: "NotificationModel Schema" where
  "notificationSchema = \<lparr>
     sc_id = nm_ID,
     sc_clash = (\<lambda>r r'. False),
     sc_stored = (\<lambda>r r'. filled_id (nm_ID r) (nm_ID r') \<and>
       filled_time (nm_CreatedAt r) (nm_CreatedAt r') \<and>
       r' = r\<lparr>nm_ID := nm_ID r', nm_CreatedAt := nm_CreatedAt r'\<rparr>)\<rparr>"

definition auditSchema :: "AuditLogModel Schema" where
  "auditSchema = \<lparr>
     sc_id = am_ID,
     sc_clash = (\<lambda>r r'. False),
     sc_stored = (\<lambda>r r'. filled_id (am_ID r) (am_ID r') \<and>
       filled_time (am_CreatedAt r) (am_CreatedAt r') \<and>
       r' = r\<lparr>am_ID := am_ID r', am_CreatedAt := am_CreatedAt r'\<rparr>)\<rparr>"

lemmas schema_defs = userSchema_def productSchema_def inventorySchema_def orderSchema_def
  paymentSchema_def notificationSchema_def auditSchema_def

text \<open>The constraints a database of these tables keeps: primary keys and unique indexes.\<close>

fun keys_ok :: "'r Schema \<Rightarrow> 'r list \<Rightarrow> bool" where
  "keys_ok S [] = True"
| "keys_ok S (r # rs) = (sc_id S r \<noteq> 0 \<and>
     list_all (\<lambda>r'. sc_id S r' \<noteq> sc_id S r \<and> \<not> sc_clash S r r') rs \<and> keys_ok S rs)"

definition db_ok :: "DB \<Rightarrow> bool" where
  "db_ok d \<longleftrightarrow> keys_ok userSchema (db_users d) \<and> keys_ok productSchema (db_products d) \<and>
     keys_ok inventorySchema (db_inventories d) \<and> keys_ok orderSchema (db_orders d) \<and>
     keys_ok paymentSchema (db_payments d) \<and> keys_ok notificationSchema (db_notifications d) \<and>
     keys_ok auditSchema (db_audit_logs d)"

lemma keys_ok_append:
  "keys_ok S (xs @ ys) \<longleftrightarrow> keys_ok S xs \<and> keys_ok S ys \<and>
     (\<forall>x \<in> set xs. \<forall>y \<in> set ys. sc_id S y \<noteq> sc_id S x \<and> \<not> sc_clash S x y)"
  by (induction xs) (auto simp: list_all_iff)

text \<open>Rewriting rows without touching their keys keeps the constraints.\<close>

lemma keys_ok_map:
  assumes "\<And>r. sc_id S (f r) = sc_id S r" and "\<And>r r'. sc_clash S (f r) (f r') = sc_clash S r r'"
  shows "keys_ok S (map f rs) = keys_ok S rs"
  by (induction rs) (auto simp: assms list_all_iff)

lemma keys_ok_id_nonzero: "keys_ok S rows \<Longrightarrow> r \<in> set rows \<Longrightarrow> sc_id S r \<noteq> 0"
  by (induction rows) auto

lemma keys_ok_distinct_id: "keys_ok S rs \<Longrightarrow> distinct (map (sc_id S) rs)"
  by (induction rs) (auto simp: list_all_iff)

lemma keys_ok_distinct_column:
  assumes "\<And>r r'. k r = k r' \<Longrightarrow> sc_clash S r r'" and "keys_ok S rs"
  shows "distinct (map k rs)"
  using assms(2) by (induction rs) (use assms(1) in \<open>auto simp: list_all_iff\<close>)

lemma db_ok_columns:
  assumes "db_ok d"
  shows "distinct (map im_ProductID (db_inventories d))"
    and "distinct (map om_ID (db_orders d))"
    and "distinct (map om_IdempotencyKey (db_orders d))"
    and "distinct (map pym_OrderID (db_payments d))"
    and "distinct (map pym_ID (db_payments d))"
    and "distinct (map um_Email (db_users d))"
proof -
  note ok = assms [unfolded db_ok_def]
  show "distinct (map im_ProductID (db_inventories d))"
    by (rule keys_ok_distinct_column [of _ inventorySchema]) (use ok in \<open>auto simp: inventorySchema_def\<close>)
  show "distinct (map om_ID (db_orders d))"
    using keys_ok_distinct_id [of orderSchema "db_orders d"] ok by (simp add: orderSchema_def)
  show "distinct (map om_IdempotencyKey (db_orders d))"
    by (rule keys_ok_distinct_column [of _ orderSchema]) (use ok in \<open>auto simp: orderSchema_def\<close>)
  show "distinct (map pym_OrderID (db_payments d))"
    by (rule keys_ok_distinct_column [of _ paymentSchema]) (use ok in \<open>auto simp: paymentSchema_def\<close>)
  show "distinct (map pym_ID (db_payments d))"
    using keys_ok_distinct_id [of paymentSchema "db_payments d"] ok by (simp add: paymentSchema_def)
  show "distinct (map um_Email (db_users d))"
    by (rule keys_ok_distinct_column [of _ userSchema]) (use ok in \<open>auto simp: userSchema_def\<close>)
qed

end
