(* ===== verification/Gorm.thy ===== *)
theory Gorm
  imports Models "HOL-Library.Multiset"
begin

text \<open>
  The database driver (gorm.io/gorm over PostgreSQL) as a parameter.

  The driver is not part of this repository. What the repositories call is a record of
  operations, one set per table, over an unknown state \<open>'s\<close> (connections, the database, the
  faults to come); every definition of gormrepo takes it as an argument. \<open>gorm_ok\<close> and
  \<open>transactional\<close> state the documented behaviour the code relies on, seen through a
  \<open>view\<close> that reads the tables out of the state: any operation may fail with an error, and
  then it has changed no row.

  A \<open>WHERE\<close> clause is a predicate on rows. The assignments of an \<open>UPDATE\<close> are a partial
  function on rows: \<open>None\<close> where SQL arithmetic leaves the range of a \<open>bigint\<close>, which
  makes the statement fail.
\<close>

record ('s, 'r) Table =
  tbl_Create :: "'r \<Rightarrow> ('s, 'r) prog"
  tbl_Save :: "'r \<Rightarrow> ('s, unit) prog"
  tbl_First :: "('r \<Rightarrow> bool) \<Rightarrow> ('s, 'r) prog"
  tbl_Find :: "('r \<Rightarrow> bool) \<Rightarrow> ('s, 'r list) prog"
  tbl_Page :: "('r \<Rightarrow> bool) \<Rightarrow> goint \<Rightarrow> goint \<Rightarrow> ('s, 'r list) prog"
  tbl_Count :: "('r \<Rightarrow> bool) \<Rightarrow> ('s, int64) prog"
  tbl_Updates :: "('r \<Rightarrow> bool) \<Rightarrow> ('r \<Rightarrow> 'r option) \<Rightarrow> ('s, int64) prog"
  tbl_UpdatesByID :: "uint64 \<Rightarrow> ('r \<Rightarrow> 'r option) \<Rightarrow> ('s, int64) prog"

record 's Gorm =
  g_users :: "('s, UserModel) Table"
  g_products :: "('s, ProductModel) Table"
  g_inventories :: "('s, InventoryModel) Table"
  g_orders :: "('s, OrderModel) Table"
  g_payments :: "('s, PaymentModel) Table"
  g_notifications :: "('s, NotificationModel) Table"
  g_audit_logs :: "('s, AuditLogModel) Table"

text \<open>
  \<open>gorm.DB.Transaction\<close>: runs a function on a transaction. \<open>'h\<close> are the Go variables the
  function captures: a rollback undoes the database, never them.
\<close>

type_synonym ('s, 'h) Transaction = "('s \<times> 'h, unit) prog \<Rightarrow> ('s \<times> 'h, unit) prog"

text \<open>The sentinel \<open>gorm.ErrRecordNotFound\<close>.\<close>

definition ErrRecordNotFound :: goerror where
  "ErrRecordNotFound = Plain ''record not found''"

text \<open>\<open>column + ?\<close> and \<open>column - ?\<close> of SQL on a bigint.\<close>

definition sql_add :: "goint \<Rightarrow> goint \<Rightarrow> goint option" where
  "sql_add a b = (if in_int64 (sint a + sint b) then Some (a + b) else None)"

definition sql_sub :: "goint \<Rightarrow> goint \<Rightarrow> goint option" where
  "sql_sub a b = (if in_int64 (sint a - sint b) then Some (a - b) else None)"

lemma sql_add_SomeD: "sql_add a b = Some c \<Longrightarrow> c = a + b \<and> sint c = sint a + sint b"
  by (auto simp: sql_add_def sint_add_exact split: if_splits)

lemma sql_sub_SomeD: "sql_sub a b = Some c \<Longrightarrow> c = a - b \<and> sint c = sint a - sint b"
  by (auto simp: sql_sub_def sint_diff_exact split: if_splits)

section \<open>Documented behaviour of a table\<close>

text \<open>How the result of one operation relates the tables before and after it.\<close>

definition reads_only :: "('s \<Rightarrow> DB) \<Rightarrow> 's \<Rightarrow> 'a outcome \<times> 's \<Rightarrow> ('a \<Rightarrow> bool) \<Rightarrow> bool" where
  "reads_only view s res Q \<longleftrightarrow> view (snd res) = view s \<and>
     (case fst res of Ok a \<Rightarrow> Q a | Err e \<Rightarrow> True | Panic p \<Rightarrow> False)"

definition writes :: "('s \<Rightarrow> DB) \<Rightarrow> 's \<Rightarrow> 'a outcome \<times> 's \<Rightarrow> ('a \<Rightarrow> DB \<Rightarrow> bool) \<Rightarrow> bool" where
  "writes view s res Q \<longleftrightarrow> (case fst res of
      Ok a \<Rightarrow> Q a (view (snd res))
    | Err e \<Rightarrow> view (snd res) = view s
    | Panic p \<Rightarrow> False)"

text \<open>A row inserted for the struct \<open>r\<close>: it breaks no key or unique index.\<close>

definition inserts :: "'r Schema \<Rightarrow> 'r list \<Rightarrow> 'r \<Rightarrow> 'r \<Rightarrow> bool" where
  "inserts S rows r r' \<longleftrightarrow> sc_stored S r r' \<and> sc_id S r' \<noteq> 0 \<and>
     (\<forall>x \<in> set rows. sc_id S r' \<noteq> sc_id S x \<and> \<not> sc_clash S x r')"

definition update_rows :: "('r \<Rightarrow> bool) \<Rightarrow> ('r \<Rightarrow> 'r option) \<Rightarrow> 'r list \<Rightarrow> 'r list" where
  "update_rows P f rows = map (\<lambda>x. if P x then the (f x) else x) rows"

definition updates_ok :: "('r \<Rightarrow> bool) \<Rightarrow> ('r \<Rightarrow> 'r option) \<Rightarrow> 'r list \<Rightarrow> int64 \<Rightarrow> bool" where
  "updates_ok P f rows n \<longleftrightarrow>
     (\<forall>x \<in> set rows. P x \<longrightarrow> f x \<noteq> None) \<and> n = of_nat (length (filter P rows))"

definition replace_row :: "'r Schema \<Rightarrow> 'r \<Rightarrow> 'r list \<Rightarrow> 'r list" where
  "replace_row S r rows = map (\<lambda>x. if sc_id S x = sc_id S r then r else x) rows"

text \<open>
  \<open>Save\<close>: an insert when the struct has no primary key or no row has it, otherwise an update
  of every column of the row, to the values of the struct, zero values included.
\<close>

definition saves :: "'r Schema \<Rightarrow> 'r list \<Rightarrow> 'r \<Rightarrow> 'r list \<Rightarrow> bool" where
  "saves S rows r rows' \<longleftrightarrow>
     (if sc_id S r \<noteq> 0 \<and> (\<exists>x \<in> set rows. sc_id S x = sc_id S r)
      then rows' = replace_row S r rows \<and>
        (\<forall>x \<in> set rows. sc_id S x \<noteq> sc_id S r \<longrightarrow> \<not> sc_clash S x r \<and> \<not> sc_clash S r x)
      else (\<exists>r'. inserts S rows r r' \<and> rows' = rows @ [r']))"

lemma inserts_keys_ok:
  "inserts S rows r r' \<Longrightarrow> keys_ok S rows \<Longrightarrow> keys_ok S (rows @ [r'])"
  by (auto simp: inserts_def keys_ok_append)

lemma saves_existing:
  assumes "saves S rows r rs" and "x \<in> set rows" and "sc_id S x = sc_id S r" and "sc_id S r \<noteq> 0"
  shows "rs = replace_row S r rows"
  using assms by (auto simp: saves_def split: if_splits)

definition table_ok ::
  "'r Schema \<Rightarrow> ('s \<Rightarrow> DB) \<Rightarrow> (DB \<Rightarrow> 'r list) \<Rightarrow> ('r list \<Rightarrow> DB \<Rightarrow> DB) \<Rightarrow> ('s, 'r) Table \<Rightarrow> bool"
where
  "table_ok S view rows put T \<longleftrightarrow>
     (\<forall>r s. writes view s (tbl_Create T r s) (\<lambda>r' d. inserts S (rows (view s)) r r' \<and>
        d = put (rows (view s) @ [r']) (view s))) \<and>
     (\<forall>r s. writes view s (tbl_Save T r s) (\<lambda>_ d. \<exists>rs. saves S (rows (view s)) r rs \<and>
        d = put rs (view s))) \<and>
     (\<forall>P s. reads_only view s (tbl_First T P s) (\<lambda>r. r \<in> set (rows (view s)) \<and> P r)) \<and>
     (\<forall>P s e. fst (tbl_First T P s) = Err e \<longrightarrow> IsError e ErrRecordNotFound \<longrightarrow>
        list_all (\<lambda>r. \<not> P r) (rows (view s))) \<and>
     (\<forall>P s. reads_only view s (tbl_Find T P s)
        (\<lambda>rs. mset rs = mset (filter P (rows (view s))))) \<and>
     (\<forall>P off lim s. 0 <s lim \<longrightarrow> reads_only view s (tbl_Page T P off lim s)
        (\<lambda>rs. \<exists>ordered. mset ordered = mset (filter P (rows (view s))) \<and>
           rs = take (nat (sint lim)) (drop (nat (sint off)) ordered))) \<and>
     (\<forall>P s. reads_only view s (tbl_Count T P s)
        (\<lambda>n. n = of_nat (length (filter P (rows (view s)))))) \<and>
     (\<forall>P f s. writes view s (tbl_Updates T P f s) (\<lambda>n d. updates_ok P f (rows (view s)) n \<and>
        d = put (update_rows P f (rows (view s))) (view s))) \<and>
     (\<forall>i f s. writes view s (tbl_UpdatesByID T i f s) (\<lambda>n d. i \<noteq> 0 \<and>
        updates_ok (\<lambda>x. sc_id S x = i) f (rows (view s)) n \<and>
        d = put (update_rows (\<lambda>x. sc_id S x = i) f (rows (view s))) (view s)))"

text \<open>Setters of the tables of a database.\<close>

abbreviation put_users :: "UserModel list \<Rightarrow> DB \<Rightarrow> DB" where
  "put_users rs d \<equiv> d\<lparr>db_users := rs\<rparr>"

abbreviation put_products :: "ProductModel list \<Rightarrow> DB \<Rightarrow> DB" where
  "put_products rs d \<equiv> d\<lparr>db_products := rs\<rparr>"

abbreviation put_inventories :: "InventoryModel list \<Rightarrow> DB \<Rightarrow> DB" where
  "put_inventories rs d \<equiv> d\<lparr>db_inventories := rs\<rparr>"

abbreviation put_orders :: "OrderModel list \<Rightarrow> DB \<Rightarrow> DB" where
  "put_orders rs d \<equiv> d\<lparr>db_orders := rs\<rparr>"

abbreviation put_payments :: "PaymentModel list \<Rightarrow> DB \<Rightarrow> DB" where
  "put_payments rs d \<equiv> d\<lparr>db_payments := rs\<rparr>"

abbreviation put_notifications :: "NotificationModel list \<Rightarrow> DB \<Rightarrow> DB" where
  "put_notifications rs d \<equiv> d\<lparr>db_notifications := rs\<rparr>"

abbreviation put_audit_logs :: "AuditLogModel list \<Rightarrow> DB \<Rightarrow> DB" where
  "put_audit_logs rs d \<equiv> d\<lparr>db_audit_logs := rs\<rparr>"

definition gorm_ok :: "'s Gorm \<Rightarrow> ('s \<Rightarrow> DB) \<Rightarrow> bool" where
  "gorm_ok G view \<longleftrightarrow>
     table_ok userSchema view db_users put_users (g_users G) \<and>
     table_ok productSchema view db_products put_products (g_products G) \<and>
     table_ok inventorySchema view db_inventories put_inventories (g_inventories G) \<and>
     table_ok orderSchema view db_orders put_orders (g_orders G) \<and>
     table_ok paymentSchema view db_payments put_payments (g_payments G) \<and>
     table_ok notificationSchema view db_notifications put_notifications (g_notifications G) \<and>
     table_ok auditSchema view db_audit_logs put_audit_logs (g_audit_logs G)"

section \<open>Documented behaviour of a transaction\<close>

text \<open>
  Either the transaction cannot begin; or its function runs on the tables as they are, and
  then a nil return is committed (or the commit fails and nothing is), and an error or a
  panic is passed on after everything is rolled back. The captured variables keep what the
  function did to them. No other transaction's writes show in between (isolation).
\<close>

definition transactional :: "('s \<Rightarrow> DB) \<Rightarrow> ('s, 'h) Transaction \<Rightarrow> bool" where
  "transactional view txn \<longleftrightarrow> (\<forall>fn s h r s' h'. txn fn (s, h) = (r, (s', h')) \<longrightarrow>
     ((\<exists>e. r = Err e) \<and> h' = h \<and> view s' = view s \<or>
      (\<exists>s0 r0 s1. view s0 = view s \<and> fn (s0, h) = (r0, (s1, h')) \<and> (case r0 of
          Ok u \<Rightarrow> r = Ok () \<and> view s' = view s1 \<or> (\<exists>e. r = Err e) \<and> view s' = view s
        | Err e \<Rightarrow> r = Err e \<and> view s' = view s
        | Panic p \<Rightarrow> r = Panic p \<and> view s' = view s))))"

text \<open>A committed transaction ran its function to a nil return on the tables it found.\<close>

lemma transactional_cases:
  assumes "transactional view txn" and "txn fn (s, h) = (r, (s', h'))"
  obtains (not_begun) e where "r = Err e" and "h' = h" and "view s' = view s"
  | (committed) s0 s1 where "view s0 = view s" and "fn (s0, h) = (Ok (), (s1, h'))"
      and "r = Ok ()" and "view s' = view s1"
  | (rolled_back) s0 s1 r0 where "view s0 = view s" and "fn (s0, h) = (r0, (s1, h'))"
      and "\<not> is_Ok r" and "view s' = view s" and "\<not> is_Ok r0 \<Longrightarrow> r = r0"
proof -
  from assms(1) [unfolded transactional_def, rule_format, OF assms(2)]
  consider (nb) "\<exists>e. r = Err e" "h' = h" "view s' = view s"
    | (run) s0 r0 s1 where "view s0 = view s" and "fn (s0, h) = (r0, (s1, h'))" and
      "case r0 of
          Ok u \<Rightarrow> r = Ok () \<and> view s' = view s1 \<or> (\<exists>e. r = Err e) \<and> view s' = view s
        | Err e \<Rightarrow> r = Err e \<and> view s' = view s
        | Panic p \<Rightarrow> r = Panic p \<and> view s' = view s"
    by blast
  then show ?thesis
  proof cases
    case nb
    then show ?thesis using not_begun by auto
  next
    case run
    show ?thesis
    proof (cases r0)
      case (Ok u)
      with run(2) have fn: "fn (s0, h) = (Ok (), (s1, h'))" by simp
      from run(3) Ok consider "r = Ok ()" "view s' = view s1"
        | e where "r = Err e" "view s' = view s" by auto
      then show ?thesis
        by cases (use committed [OF run(1) fn] rolled_back [OF run(1) fn] in auto)
    next
      case (Err e)
      with run rolled_back [OF run(1,2)] show ?thesis by auto
    next
      case (Panic p)
      with run rolled_back [OF run(1,2)] show ?thesis by auto
    qed
  qed
qed

lemma transactional_Ok:
  assumes "transactional view txn" and "txn fn (s, h) = (Ok u, (s', h'))"
  obtains s0 s1 where "view s0 = view s" and "fn (s0, h) = (Ok (), (s1, h'))"
    and "view s' = view s1"
  using assms by (cases rule: transactional_cases) auto

text \<open>A transaction that does not commit leaves the tables alone.\<close>

lemma transactional_not_Ok:
  assumes "transactional view txn" and "txn fn (s, h) = (r, (s', h'))" and "\<not> is_Ok r"
  shows "view s' = view s"
  using assms(1,2) by (cases rule: transactional_cases) (use assms(3) in auto)

text \<open>And what it did to the captured variables is what its function did, or nothing.\<close>

lemma transactional_captured:
  assumes "transactional view txn" and "txn fn (s, h) = (r, (s', h'))"
  obtains (untouched) "h' = h" and "\<not> is_Ok r"
  | (ran) s0 s1 r0 where "view s0 = view s" and "fn (s0, h) = (r0, (s1, h'))"
  using assms by (cases rule: transactional_cases) auto

section \<open>A database without faults\<close>

text \<open>
  \<open>gorm_ok\<close> lets every operation fail. \<open>gorm_live\<close> adds that none fails without a reason the
  tables give: a clash of keys, no row to read, an overflow. It is what a claim that a command
  succeeds needs, and no other claim uses it.
\<close>

definition keeps_keys :: "'r Schema \<Rightarrow> ('r \<Rightarrow> 'r option) \<Rightarrow> bool" where
  "keeps_keys S f \<longleftrightarrow> (\<forall>x y. f x = Some y \<longrightarrow> sc_id S y = sc_id S x \<and>
     (\<forall>z. sc_clash S y z = sc_clash S x z \<and> sc_clash S z y = sc_clash S z x))"

definition table_live :: "'r Schema \<Rightarrow> ('s \<Rightarrow> DB) \<Rightarrow> (DB \<Rightarrow> 'r list) \<Rightarrow> ('s, 'r) Table \<Rightarrow> bool" where
  "table_live S view rows T \<longleftrightarrow>
     (\<forall>r s. sc_id S r = 0 \<longrightarrow> (\<forall>x \<in> set (rows (view s)). \<not> sc_clash S x r) \<longrightarrow>
        is_Ok (fst (tbl_Create T r s))) \<and>
     (\<forall>P s. (\<exists>x \<in> set (rows (view s)). P x) \<longrightarrow> is_Ok (fst (tbl_First T P s))) \<and>
     (\<forall>P s. (\<forall>x \<in> set (rows (view s)). \<not> P x) \<longrightarrow>
        fst (tbl_First T P s) = Err ErrRecordNotFound) \<and>
     (\<forall>P f s. keeps_keys S f \<longrightarrow> (\<forall>x \<in> set (rows (view s)). P x \<longrightarrow> f x \<noteq> None) \<longrightarrow>
        is_Ok (fst (tbl_Updates T P f s))) \<and>
     (\<forall>i f s. keeps_keys S f \<longrightarrow> i \<noteq> 0 \<longrightarrow>
        (\<forall>x \<in> set (rows (view s)). sc_id S x = i \<longrightarrow> f x \<noteq> None) \<longrightarrow>
        is_Ok (fst (tbl_UpdatesByID T i f s)))"

definition gorm_live :: "'s Gorm \<Rightarrow> ('s \<Rightarrow> DB) \<Rightarrow> bool" where
  "gorm_live G view \<longleftrightarrow>
     table_live productSchema view db_products (g_products G) \<and>
     table_live inventorySchema view db_inventories (g_inventories G) \<and>
     table_live orderSchema view db_orders (g_orders G) \<and>
     table_live paymentSchema view db_payments (g_payments G)"

definition transaction_live :: "('s \<Rightarrow> DB) \<Rightarrow> ('s, 'h) Transaction \<Rightarrow> bool" where
  "transaction_live view txn \<longleftrightarrow> (\<forall>fn s h.
     (\<forall>s0. view s0 = view s \<longrightarrow> is_Ok (fst (fn (s0, h)))) \<longrightarrow> is_Ok (fst (txn fn (s, h))))"

section \<open>Using the hypotheses\<close>

lemma writes_Ok: "writes view s res Q \<Longrightarrow> res = (Ok a, s') \<Longrightarrow> Q a (view s')"
  by (simp add: writes_def)

lemma writes_failed:
  "writes view s res Q \<Longrightarrow> res = (r, s') \<Longrightarrow> \<not> is_Ok r \<Longrightarrow> view s' = view s \<and> (\<forall>p. r \<noteq> Panic p)"
  by (cases r) (auto simp: writes_def)

lemma reads_only_Ok:
  "reads_only view s res Q \<Longrightarrow> res = (Ok a, s') \<Longrightarrow> Q a \<and> view s' = view s"
  by (simp add: reads_only_def)

lemma reads_only_view: "reads_only view s res Q \<Longrightarrow> view (snd res) = view s"
  by (simp add: reads_only_def)

lemma reads_only_no_Panic: "reads_only view s res Q \<Longrightarrow> res \<noteq> (Panic p, s')"
  by (auto simp: reads_only_def)

lemma table_okD:
  assumes "table_ok S view rows put T"
  shows "writes view s (tbl_Create T r s) (\<lambda>r' d. inserts S (rows (view s)) r r' \<and>
        d = put (rows (view s) @ [r']) (view s))"
    and "writes view s (tbl_Save T r s) (\<lambda>_ d. \<exists>rs. saves S (rows (view s)) r rs \<and>
        d = put rs (view s))"
    and "reads_only view s (tbl_First T P s) (\<lambda>r. r \<in> set (rows (view s)) \<and> P r)"
    and "reads_only view s (tbl_Find T P s) (\<lambda>rs. mset rs = mset (filter P (rows (view s))))"
    and "0 <s lim \<Longrightarrow> reads_only view s (tbl_Page T P off lim s)
        (\<lambda>rs. \<exists>ordered. mset ordered = mset (filter P (rows (view s))) \<and>
           rs = take (nat (sint lim)) (drop (nat (sint off)) ordered))"
    and "reads_only view s (tbl_Count T P s)
        (\<lambda>n. n = of_nat (length (filter P (rows (view s)))))"
    and "writes view s (tbl_Updates T P f s) (\<lambda>n d. updates_ok P f (rows (view s)) n \<and>
        d = put (update_rows P f (rows (view s))) (view s))"
    and "writes view s (tbl_UpdatesByID T i f s) (\<lambda>n d. i \<noteq> 0 \<and>
        updates_ok (\<lambda>x. sc_id S x = i) f (rows (view s)) n \<and>
        d = put (update_rows (\<lambda>x. sc_id S x = i) f (rows (view s))) (view s))"
  using assms unfolding table_ok_def by simp_all

lemma table_ok_not_found:
  assumes "table_ok S view rows put T" and "tbl_First T P s = (Err e, s')"
    and "IsError e ErrRecordNotFound"
  shows "list_all (\<lambda>r. \<not> P r) (rows (view s))"
  using assms unfolding table_ok_def by (metis fst_conv)

text \<open>
  The repositories' \<open>if errors.Is(err, gorm.ErrRecordNotFound) { return errs.NotFound(...) }\<close>.
\<close>

definition orNotFound :: "goerror \<Rightarrow> ('s, 'a) prog \<Rightarrow> ('s, 'a) prog" where
  "orNotFound nf m s = (case m s of
      (Err e, s') \<Rightarrow> (Err (if IsError e ErrRecordNotFound then nf else e), s')
    | res \<Rightarrow> res)"

lemma orNotFound_Ok: "orNotFound nf m s = (Ok a, s') \<longleftrightarrow> m s = (Ok a, s')"
  by (auto simp: orNotFound_def split: prod.splits outcome.splits)

lemma orNotFound_state: "snd (orNotFound nf m s) = snd (m s)"
  by (auto simp: orNotFound_def split: prod.splits outcome.splits)

text \<open>The length of a list that has at most one element, as a driver reports it.\<close>

lemma rows_affected_one:
  assumes "length (xs :: 'r list) \<le> 1"
  shows "(of_nat (length xs) = (1 :: int64)) \<longleftrightarrow> xs \<noteq> []"
    and "(of_nat (length xs) = (0 :: int64)) \<longleftrightarrow> xs = []"
  using assms by (cases xs; simp)+

end
