(* ===== verification/Mappers.thy ===== *)
theory Mappers
  imports Models
begin

text \<open>
  The mappings between aggregates and rows of package gormrepo: the \<open>...ToModel\<close> and
  \<open>...ToDomain\<close> functions of its repositories. Reading a row back can fail: \<open>MustMoney\<close>
  panics on an amount or a currency that is not valid, and \<open>NewItem\<close> refuses a quantity.
\<close>

definition userToModel :: "User \<Rightarrow> UserModel" where
  "userToModel u = \<lparr>um_ID = usr_id u, um_Email = usr_email u,
     um_PasswordHash = usr_passwordHash u, um_FullName = usr_fullName u,
     um_Role = usr_role u, um_CreatedAt = 0\<rparr>"

definition userToDomain :: "UserModel \<Rightarrow> User" where
  "userToDomain m = ReconstituteUser (um_ID m) (um_Email m) (um_PasswordHash m) (um_FullName m)
     (um_Role m) (um_CreatedAt m)"

definition productToModel :: "Product \<Rightarrow> ProductModel" where
  "productToModel p = \<lparr>pm_ID = prod_id p, pm_SKU = prod_sku p, pm_Name = prod_name p,
     pm_Description = prod_description p, pm_PriceAmount = m_amount (prod_price p),
     pm_Currency = m_currency (prod_price p), pm_Active = prod_active p,
     pm_CreatedAt = prod_createdAt p\<rparr>"

definition productToDomain :: "ProductModel \<Rightarrow> Product outcome" where
  "productToDomain m = checkR (MustMoney (pm_PriceAmount m) (pm_Currency m)) (\<lambda>price.
     Ok (ReconstituteProduct (pm_ID m) (pm_SKU m) (pm_Name m) (pm_Description m) price
       (pm_Active m) (pm_CreatedAt m)))"

definition inventoryToModel :: "Inventory \<Rightarrow> InventoryModel" where
  "inventoryToModel i = \<lparr>im_ID = inv_id i, im_ProductID = inv_productID i,
     im_Available = inv_available i, im_Reserved = inv_reserved i,
     im_ReorderLevel = inv_reorderLevel i, im_Version = inv_version i, im_CreatedAt = 0\<rparr>"

definition inventoryToDomain :: "InventoryModel \<Rightarrow> Inventory" where
  "inventoryToDomain m = ReconstituteInventory (im_ID m) (im_ProductID m) (im_Available m)
     (im_Reserved m) (im_ReorderLevel m) (im_Version m)"

definition itemToModel :: "Item \<Rightarrow> OrderItemModel" where
  "itemToModel i = \<lparr>oim_ID = 0, oim_OrderID = 0, oim_ProductID = item_productID i,
     oim_SKU = item_sku i, oim_Name = item_name i,
     oim_UnitPriceAmount = m_amount (item_unitPrice i),
     oim_Currency = m_currency (item_unitPrice i), oim_Quantity = item_quantity i\<rparr>"

definition orderToModel :: "Order \<Rightarrow> OrderModel" where
  "orderToModel o1 = \<lparr>om_ID = ord_id o1, om_UserID = ord_userID o1, om_Status = ord_status o1,
     om_TotalAmount = m_amount (ord_total o1), om_Currency = m_currency (ord_total o1),
     om_IdempotencyKey = ord_idempotencyKey o1, om_FailureReason = ord_failureReason o1,
     om_Items = map itemToModel (ord_items o1), om_CreatedAt = 0\<rparr>"

definition itemToDomain :: "OrderItemModel \<Rightarrow> Item outcome" where
  "itemToDomain m = checkR (MustMoney (oim_UnitPriceAmount m) (oim_Currency m)) (\<lambda>price.
     NewItem (oim_ProductID m) (oim_SKU m) (oim_Name m) price (oim_Quantity m))"

definition orderToDomain :: "OrderModel \<Rightarrow> Order outcome" where
  "orderToDomain m = checkR (mapR itemToDomain (om_Items m)) (\<lambda>items.
     checkR (MustMoney (om_TotalAmount m) (om_Currency m)) (\<lambda>tot.
       Ok (ReconstituteOrder (om_ID m) (om_UserID m) (om_Status m) items tot
         (om_IdempotencyKey m) (om_FailureReason m) (om_CreatedAt m))))"

definition ordersToDomain :: "OrderModel list \<Rightarrow> Order list outcome" where
  "ordersToDomain = mapR orderToDomain"

definition paymentToModel :: "Payment \<Rightarrow> PaymentModel" where
  "paymentToModel p = \<lparr>pym_ID = pay_id p, pym_OrderID = pay_orderID p,
     pym_IdempotencyKey = pay_idempotencyKey p, pym_Amount = m_amount (pay_amount p),
     pym_Currency = m_currency (pay_amount p), pym_Status = pay_status p,
     pym_Provider = pay_provider p, pym_ProviderRef = pay_providerRef p,
     pym_Attempts = pay_attempts p, pym_FailureReason = pay_failureReason p,
     pym_CreatedAt = pay_createdAt p\<rparr>"

definition paymentToDomain :: "PaymentModel \<Rightarrow> Payment outcome" where
  "paymentToDomain m = checkR (MustMoney (pym_Amount m) (pym_Currency m)) (\<lambda>amount.
     Ok (ReconstitutePayment (pym_ID m) (pym_OrderID m) (pym_IdempotencyKey m) amount
       (pym_Status m) (pym_Provider m) (pym_ProviderRef m) (pym_Attempts m)
       (pym_FailureReason m) (pym_CreatedAt m)))"

definition notificationToModel :: "Notification \<Rightarrow> NotificationModel" where
  "notificationToModel n = \<lparr>nm_ID = ntf_id n, nm_UserID = ntf_userID n, nm_Type = ntf_type n,
     nm_Channel = ntf_channel n, nm_Status = ntf_status n, nm_Subject = ntf_subject n,
     nm_Payload = ntf_payload n, nm_Attempts = ntf_attempts n,
     nm_FailureReason = ntf_failureReason n, nm_CreatedAt = 0\<rparr>"

definition notificationToDomain :: "NotificationModel \<Rightarrow> Notification" where
  "notificationToDomain m = ReconstituteNotification (nm_ID m) (nm_UserID m) (nm_Type m)
     (nm_Channel m) (nm_Status m) (nm_Subject m) (nm_Payload m) (nm_Attempts m)
     (nm_FailureReason m) (nm_CreatedAt m)"

definition auditToModel :: "Entry \<Rightarrow> AuditLogModel" where
  "auditToModel e = \<lparr>am_ID = ent_id e, am_ActorID = ent_actorID e, am_Action = ent_action e,
     am_Entity = ent_entity e, am_EntityID = ent_entityID e, am_Before = ent_before e,
     am_After = ent_after e, am_Metadata = ent_metadata e, am_CreatedAt = ent_createdAt e\<rparr>"

section \<open>Round trips\<close>

text \<open>An order the repository can read back: valid money and positive quantities.\<close>

definition readable_item :: "Item \<Rightarrow> bool" where
  "readable_item i \<longleftrightarrow> valid_money (item_unitPrice i) \<and> 0 <s item_quantity i"

definition readable_order :: "Order \<Rightarrow> bool" where
  "readable_order o1 \<longleftrightarrow> valid_money (ord_total o1) \<and> list_all readable_item (ord_items o1)"

lemma filled_string_currency [simp]: "valid_money m \<Longrightarrow> filled_string d (m_currency m) = m_currency m"
  by (auto simp: filled_string_def valid_money_def)

lemma stored_item_read:
  assumes "readable_item i" and "stored_item oid (itemToModel i) r"
  shows "itemToDomain r = Ok i"
proof -
  from assms(2) obtain k where r: "r = (itemToModel i)\<lparr>oim_ID := k, oim_OrderID := oid,
      oim_Currency := filled_string ''USD'' (m_currency (item_unitPrice i))\<rparr>"
    by (auto simp: stored_item_def itemToModel_def)
  from assms(1) have "valid_money (item_unitPrice i)" "\<not> item_quantity i \<le>s 0"
    by (auto simp: readable_item_def not_sle_sless)
  then show ?thesis
    by (simp add: r itemToDomain_def itemToModel_def MustMoney_valid NewItem_def)
qed

lemma stored_items_read:
  assumes "list_all readable_item items"
    and "list_all2 (stored_item oid) (map itemToModel items) rs"
  shows "mapR itemToDomain rs = Ok items"
  using assms(2,1)
  by (induction "map itemToModel items" rs arbitrary: items rule: list_all2_induct)
    (auto simp: stored_item_read)

lemma stored_order_read:
  assumes "readable_order o1" and "sc_stored orderSchema (orderToModel o1) r"
  shows "orderToDomain r = Ok (o1\<lparr>pending := [], ord_id := om_ID r, ord_createdAt := om_CreatedAt r\<rparr>)"
proof -
  from assms(2) have items: "list_all2 (stored_item (om_ID r)) (map itemToModel (ord_items o1)) (om_Items r)"
    and cols: "om_UserID r = ord_userID o1" "om_Status r = ord_status o1"
      "om_TotalAmount r = m_amount (ord_total o1)"
      "om_Currency r = filled_string ''USD'' (m_currency (ord_total o1))"
      "om_IdempotencyKey r = ord_idempotencyKey o1" "om_FailureReason r = ord_failureReason o1"
    by (simp_all add: orderSchema_def orderToModel_def)
      (metis OrderModel.select_convs OrderModel.simps)+
  with assms(1) show ?thesis
    by (simp add: orderToDomain_def readable_order_def stored_items_read [OF _ items]
        MustMoney_valid ReconstituteOrder_def)
qed

text \<open>A payment row read and written back is the same row.\<close>

lemma paymentToModel_ToDomain: "paymentToDomain m = Ok p \<Longrightarrow> paymentToModel p = m"
  by (auto simp: paymentToDomain_def paymentToModel_def checkR_Ok_iff MustMoney_Ok_iff
      ReconstitutePayment_def)

lemma paymentToDomain_fields:
  assumes "paymentToDomain m = Ok p"
  shows "pay_id p = pym_ID m" and "pay_orderID p = pym_OrderID m" and "pay_status p = pym_Status m"
    and "pending p = []"
  using assms by (auto simp: paymentToDomain_def checkR_Ok_iff ReconstitutePayment_def)

end
