(* ===== verification/Ports.thy ===== *)
theory Ports
  imports Gorm Mappers
begin

text \<open>
  Package internal/application/ports: the interfaces between the commands and the
  infrastructure. A repository is a record of operations over an unknown state \<open>'s\<close>; an
  operation that writes back into the aggregate it is given (\<open>Create\<close> assigns its id) takes
  the state paired with the aggregate.

  Each interface has a locale that states what its provider promises, in terms of the tables a
  \<open>view\<close> reads out of the state. The commands are proved correct against the locales;
  the theories of package gormrepo interpret them.
\<close>

record Page =
  pg_Number :: goint
  pg_Size :: goint

record 's UserRepository =
  urep_Create :: "('s \<times> User, unit) prog"
  urep_Update :: "User \<Rightarrow> ('s, unit) prog"
  urep_FindByID :: "uint64 \<Rightarrow> ('s, User) prog"
  urep_FindByEmail :: "string \<Rightarrow> ('s, User) prog"

record 's ProductRepository =
  drep_Create :: "('s \<times> Product, unit) prog"
  drep_Update :: "Product \<Rightarrow> ('s, unit) prog"
  drep_FindByID :: "uint64 \<Rightarrow> ('s, Product) prog"
  drep_List :: "Page \<Rightarrow> ('s, Product list \<times> int64) prog"

record 's InventoryRepository =
  irep_FindByProductID :: "uint64 \<Rightarrow> ('s, Inventory) prog"
  irep_Save :: "Inventory \<Rightarrow> ('s, unit) prog"
  irep_Reserve :: "uint64 \<Rightarrow> goint \<Rightarrow> ('s, bool) prog"
  irep_Release :: "uint64 \<Rightarrow> goint \<Rightarrow> ('s, unit) prog"
  irep_Commit :: "uint64 \<Rightarrow> goint \<Rightarrow> ('s, unit) prog"
  irep_Restock :: "uint64 \<Rightarrow> goint \<Rightarrow> ('s, unit) prog"
  irep_ListLowStock :: "('s, Inventory list) prog"

record 's OrderRepository =
  orep_Create :: "('s \<times> Order, unit) prog"
  orep_Update :: "Order \<Rightarrow> ('s, unit) prog"
  orep_FindByID :: "uint64 \<Rightarrow> ('s, Order) prog"
  orep_FindByIdempotencyKey :: "string \<Rightarrow> ('s, Order) prog"
  orep_ListByUser :: "uint64 \<Rightarrow> Page \<Rightarrow> ('s, Order list \<times> int64) prog"
  orep_ListAll :: "Page \<Rightarrow> ('s, Order list \<times> int64) prog"

record 's PaymentRepository =
  prep_Create :: "('s \<times> Payment, unit) prog"
  prep_Update :: "Payment \<Rightarrow> ('s, unit) prog"
  prep_FindByID :: "uint64 \<Rightarrow> ('s, Payment) prog"
  prep_FindByOrderID :: "uint64 \<Rightarrow> ('s, Payment) prog"
  prep_FindByIdempotencyKey :: "string \<Rightarrow> ('s, Payment) prog"

record 's NotificationRepository =
  nrep_Create :: "('s \<times> Notification, unit) prog"
  nrep_Update :: "Notification \<Rightarrow> ('s, unit) prog"
  nrep_ListByStatus :: "string \<Rightarrow> goint \<Rightarrow> ('s, Notification list) prog"

record 's AuditRepository =
  arep_Append :: "Entry \<Rightarrow> ('s, unit) prog"

record 's RepositoryProvider =
  rp_Users :: "'s UserRepository"
  rp_Products :: "'s ProductRepository"
  rp_Inventory :: "'s InventoryRepository"
  rp_Orders :: "'s OrderRepository"
  rp_Payments :: "'s PaymentRepository"
  rp_Notifications :: "'s NotificationRepository"
  rp_Audit :: "'s AuditRepository"

text \<open>gateway.go and security.go.\<close>

record ChargeRequest =
  cr_IdempotencyKey :: string
  cr_Amount :: Money

record ChargeResult =
  cres_Provider :: string
  cres_ProviderRef :: string

record TokenClaims =
  tc_UserID :: uint64
  tc_Role :: string

section \<open>The stock a database holds\<close>

text \<open>
  The abstract state of the inventory table: for each product with a row, the exact numbers of
  its available and reserved units.
\<close>

definition inv_row :: "uint64 \<Rightarrow> DB \<Rightarrow> InventoryModel option" where
  "inv_row pid d = find (\<lambda>m. im_ProductID m = pid) (db_inventories d)"

definition stock :: "DB \<Rightarrow> uint64 \<rightharpoonup> int \<times> int" where
  "stock d pid = map_option (\<lambda>m. (sint (im_Available m), sint (im_Reserved m))) (inv_row pid d)"

text \<open>Units of a product in a list of (product, quantity) moves, and in an order's items.\<close>

fun units :: "uint64 \<Rightarrow> (uint64 \<times> int) list \<Rightarrow> int" where
  "units pid [] = 0"
| "units pid ((p, q) # mv) = (if p = pid then q else 0) + units pid mv"

definition moves :: "Item list \<Rightarrow> (uint64 \<times> int) list" where
  "moves items = map (\<lambda>i. (item_productID i, sint (item_quantity i))) items"

text \<open>
  \<open>stock_moved ka kr mv d d'\<close>: from \<open>d\<close> to \<open>d'\<close> each unit of the moves
  changed the available stock of its product by \<open>ka\<close> and the reserved stock by \<open>kr\<close>,
  and no other table changed.
\<close>

definition stock_moved :: "int \<Rightarrow> int \<Rightarrow> (uint64 \<times> int) list \<Rightarrow> DB \<Rightarrow> DB \<Rightarrow> bool" where
  "stock_moved ka kr mv d d' \<longleftrightarrow> d' = d\<lparr>db_inventories := db_inventories d'\<rparr> \<and>
     (\<forall>pid. stock d' pid = map_option (\<lambda>(a, r). (a + ka * units pid mv, r + kr * units pid mv))
        (stock d pid))"

text \<open>No product has a negative counter.\<close>

definition stock_ok :: "DB \<Rightarrow> bool" where
  "stock_ok d \<longleftrightarrow> list_all (\<lambda>m. 0 \<le>s im_Available m \<and> 0 \<le>s im_Reserved m) (db_inventories d)"

lemma units_append [simp]: "units pid (xs @ ys) = units pid xs + units pid ys"
  by (induction xs rule: units.induct) auto

lemma moves_simps [simp]:
  "moves [] = []"
  "moves (i # items) = (item_productID i, sint (item_quantity i)) # moves items"
  by (simp_all add: moves_def)

lemma stock_moved_Nil [simp]: "stock_moved ka kr [] d d"
  by (auto simp: stock_moved_def map_option_case split: option.splits)

lemma stock_moved_append:
  assumes "stock_moved ka kr xs d d'" and "stock_moved ka kr ys d' d''"
  shows "stock_moved ka kr (xs @ ys) d d''"
proof -
  from assms have "d'' = d\<lparr>db_inventories := db_inventories d'\<rparr>\<lparr>db_inventories := db_inventories d''\<rparr>"
    unfolding stock_moved_def by metis
  moreover have "stock d'' pid =
      map_option (\<lambda>(a, r). (a + ka * units pid (xs @ ys), r + kr * units pid (xs @ ys))) (stock d pid)"
    for pid
    using assms by (cases "stock d pid") (auto simp: stock_moved_def algebra_simps)
  ultimately show ?thesis by (simp add: stock_moved_def)
qed

text \<open>A change of stock, orders and payments only.\<close>

definition rest_kept :: "DB \<Rightarrow> DB \<Rightarrow> bool" where
  "rest_kept d d' \<longleftrightarrow> db_users d' = db_users d \<and> db_products d' = db_products d \<and>
     db_notifications d' = db_notifications d \<and> db_audit_logs d' = db_audit_logs d"

lemma rest_kept_trans: "rest_kept d d1 \<Longrightarrow> rest_kept d1 d2 \<Longrightarrow> rest_kept d d2"
  by (simp add: rest_kept_def)

lemma rest_kept_simps [simp]:
  "rest_kept d d" "rest_kept d (d'\<lparr>db_orders := rs\<rparr>) = rest_kept d d'"
  "rest_kept d (d'\<lparr>db_payments := ps\<rparr>) = rest_kept d d'"
  "rest_kept (d\<lparr>db_orders := rs\<rparr>) d' = rest_kept d d'"
  "rest_kept (d\<lparr>db_payments := ps\<rparr>) d' = rest_kept d d'"
  by (simp_all add: rest_kept_def)

lemma stock_moved_frame:
  assumes "stock_moved ka kr mv d d'"
  shows "db_users d' = db_users d" "db_products d' = db_products d" "db_orders d' = db_orders d"
    "db_payments d' = db_payments d" "db_notifications d' = db_notifications d"
    "db_audit_logs d' = db_audit_logs d"
proof -
  from assms have "d' = d\<lparr>db_inventories := db_inventories d'\<rparr>" by (simp add: stock_moved_def)
  then show "db_users d' = db_users d" "db_products d' = db_products d" "db_orders d' = db_orders d"
    "db_payments d' = db_payments d" "db_notifications d' = db_notifications d"
    "db_audit_logs d' = db_audit_logs d" by (metis DB.select_convs DB.surjective DB.update_convs)+
qed

lemma stock_moved_rest: "stock_moved ka kr mv d d' \<Longrightarrow> rest_kept d d'"
  by (simp add: rest_kept_def stock_moved_frame)

section \<open>Effects on orders and payments\<close>

definition order_created :: "Order \<Rightarrow> DB \<Rightarrow> DB \<Rightarrow> Order \<Rightarrow> bool" where
  "order_created o1 d d' o' \<longleftrightarrow> (\<exists>r. inserts orderSchema (db_orders d) (orderToModel o1) r \<and>
     d' = d\<lparr>db_orders := db_orders d @ [r]\<rparr> \<and> o' = Order_AssignID (om_ID r) o1)"

text \<open>The columns that \<open>Update\<close> writes of an order.\<close>

definition order_columns :: "Order \<Rightarrow> OrderModel \<Rightarrow> OrderModel" where
  "order_columns o1 m = m\<lparr>om_Status := ord_status o1, om_TotalAmount := m_amount (ord_total o1),
     om_Currency := m_currency (ord_total o1), om_FailureReason := ord_failureReason o1\<rparr>"

definition order_updated :: "Order \<Rightarrow> DB \<Rightarrow> DB" where
  "order_updated o1 d = d\<lparr>db_orders :=
     map (\<lambda>m. if om_ID m = ord_id o1 then order_columns o1 m else m) (db_orders d)\<rparr>"

definition payment_created :: "Payment \<Rightarrow> DB \<Rightarrow> DB \<Rightarrow> Payment \<Rightarrow> bool" where
  "payment_created p d d' p' \<longleftrightarrow> (\<exists>r. inserts paymentSchema (db_payments d) (paymentToModel p) r \<and>
     d' = d\<lparr>db_payments := db_payments d @ [r]\<rparr> \<and> p' = Payment_AssignID (pym_ID r) p)"

definition payment_saved :: "Payment \<Rightarrow> DB \<Rightarrow> DB \<Rightarrow> bool" where
  "payment_saved p d d' \<longleftrightarrow> (\<exists>rs. saves paymentSchema (db_payments d) (paymentToModel p) rs \<and>
     d' = d\<lparr>db_payments := rs\<rparr>)"

section \<open>Contracts\<close>

text \<open>
  \<open>ok g view\<close> says that \<open>g\<close> (a connection, a transaction) behaves as documented on the
  tables \<open>view\<close> reads. An operation that does not return nil leaves the tables alone.
\<close>

locale inventory_port =
  fixes ok :: "'g \<Rightarrow> ('s \<Rightarrow> DB) \<Rightarrow> bool"
    and invs :: "'g \<Rightarrow> 's InventoryRepository"
  assumes Reserve_true: "ok g view \<Longrightarrow> db_ok (view s) \<Longrightarrow> irep_Reserve (invs g) pid q s = (Ok True, s')
      \<Longrightarrow> stock_moved (-1) 1 [(pid, sint q)] (view s) (view s') \<and> db_ok (view s') \<and>
          (\<exists>a r. stock (view s) pid = Some (a, r) \<and> sint q \<le> a)"
    and Reserve_false: "ok g view \<Longrightarrow> db_ok (view s) \<Longrightarrow> irep_Reserve (invs g) pid q s = (Ok False, s')
      \<Longrightarrow> view s' = view s \<and> (\<forall>a r. stock (view s) pid = Some (a, r) \<longrightarrow> a < sint q)"
    and Release_Ok: "ok g view \<Longrightarrow> db_ok (view s) \<Longrightarrow> irep_Release (invs g) pid q s = (Ok u, s')
      \<Longrightarrow> stock_moved 1 (-1) [(pid, sint q)] (view s) (view s') \<and> db_ok (view s') \<and>
          (\<exists>a r. stock (view s) pid = Some (a, r) \<and> sint q \<le> r)"
    and Commit_Ok: "ok g view \<Longrightarrow> db_ok (view s) \<Longrightarrow> irep_Commit (invs g) pid q s = (Ok u, s')
      \<Longrightarrow> stock_moved 0 (-1) [(pid, sint q)] (view s) (view s') \<and> db_ok (view s') \<and>
          (\<exists>a r. stock (view s) pid = Some (a, r) \<and> sint q \<le> r)"
    and inv_failed: "ok g view \<Longrightarrow> db_ok (view s) \<Longrightarrow> \<not> is_Ok r \<Longrightarrow>
        irep_Release (invs g) pid q s = (r, s') \<or> irep_Commit (invs g) pid q s = (r, s')
      \<Longrightarrow> view s' = view s"
    and Reserve_failed: "ok g view \<Longrightarrow> \<not> is_Ok rb \<Longrightarrow> irep_Reserve (invs g) pid q s = (rb, s')
      \<Longrightarrow> view s' = view s"

locale order_port =
  fixes ok :: "'g \<Rightarrow> ('s \<Rightarrow> DB) \<Rightarrow> bool"
    and ords :: "'g \<Rightarrow> 's OrderRepository"
  assumes Create_order: "ok g view \<Longrightarrow> orep_Create (ords g) (s, o1) = (Ok u, (s', o'))
      \<Longrightarrow> order_created o1 (view s) (view s') o'"
    and Create_order_failed: "ok g view \<Longrightarrow> orep_Create (ords g) (s, o1) = (r, (s', o')) \<Longrightarrow> \<not> is_Ok r
      \<Longrightarrow> view s' = view s \<and> o' = o1"
    and Update_order: "ok g view \<Longrightarrow> orep_Update (ords g) o1 s = (Ok u, s')
      \<Longrightarrow> view s' = order_updated o1 (view s)"
    and Find_order: "ok g view \<Longrightarrow> orep_FindByID (ords g) i s = (Ok o1, s')
      \<Longrightarrow> \<exists>m \<in> set (db_orders (view s)). om_ID m = i \<and> orderToDomain m = Ok o1"
    and Find_order_key: "ok g view \<Longrightarrow> orep_FindByIdempotencyKey (ords g) key s = (Ok o1, s')
      \<Longrightarrow> \<exists>m \<in> set (db_orders (view s)). om_IdempotencyKey m = key \<and> orderToDomain m = Ok o1"
    and Find_order_reads: "ok g view \<Longrightarrow> orep_FindByID (ords g) i s = (ro, s') \<Longrightarrow> view s' = view s"
    and Find_order_key_reads: "ok g view \<Longrightarrow> orep_FindByIdempotencyKey (ords g) key s = (ro, s')
      \<Longrightarrow> view s' = view s"

locale payment_port =
  fixes ok :: "'g \<Rightarrow> ('s \<Rightarrow> DB) \<Rightarrow> bool"
    and pays :: "'g \<Rightarrow> 's PaymentRepository"
  assumes Create_payment: "ok g view \<Longrightarrow> prep_Create (pays g) (s, p) = (Ok u, (s', p'))
      \<Longrightarrow> payment_created p (view s) (view s') p'"
    and Update_payment: "ok g view \<Longrightarrow> prep_Update (pays g) p s = (Ok u, s')
      \<Longrightarrow> payment_saved p (view s) (view s')"
    and Find_payment_order: "ok g view \<Longrightarrow> prep_FindByOrderID (pays g) i s = (Ok p, s')
      \<Longrightarrow> view s' = view s \<and>
          (\<exists>m \<in> set (db_payments (view s)). pym_OrderID m = i \<and> paymentToDomain m = Ok p)"

locale product_port =
  fixes ok :: "'g \<Rightarrow> ('s \<Rightarrow> DB) \<Rightarrow> bool"
    and prods :: "'g \<Rightarrow> 's ProductRepository"
  assumes Find_product: "ok g view \<Longrightarrow> drep_FindByID (prods g) i s = (Ok p, s')
      \<Longrightarrow> \<exists>m \<in> set (db_products (view s)). pm_ID m = i \<and> productToDomain m = Ok p"
    and Find_product_reads: "ok g view \<Longrightarrow> drep_FindByID (prods g) i s = (ro, s') \<Longrightarrow> view s' = view s"

text \<open>
  The ports of the shop's commands together, and a unit of work: \<open>Do\<close> runs its function
  inside a transaction, on repositories that behave as the others do.
\<close>

locale shop_ports =
  inventory_port ok "\<lambda>g. rp_Inventory (rp g)" +
  order_port ok "\<lambda>g. rp_Orders (rp g)" +
  payment_port ok "\<lambda>g. rp_Payments (rp g)" +
  product_port ok "\<lambda>g. rp_Products (rp g)"
  for ok :: "'g \<Rightarrow> ('s \<Rightarrow> DB) \<Rightarrow> bool" and rp :: "'g \<Rightarrow> 's RepositoryProvider" +
  fixes uok :: "'c \<Rightarrow> ('s \<Rightarrow> DB) \<Rightarrow> bool"
    and uow :: "'c \<Rightarrow> ('s RepositoryProvider \<Rightarrow> ('s \<times> 'h, unit) prog) \<Rightarrow> ('s \<times> 'h, unit) prog"
  assumes Do_transaction: "uok c view \<Longrightarrow>
      \<exists>g txn. ok g view \<and> transactional view txn \<and> (\<forall>F. uow c F = txn (F (rp g)))"

end
