(* ===== verification/InventoryRepo.thy ===== *)
theory InventoryRepo
  imports Ports
begin

text \<open>
  The inventory repository (gormrepo/inventory_repo.go): conditional SQL updates of the
  counters, and the proof that they are the moves of stock the port promises.
\<close>

definition inventory_not_found :: goerror where
  "inventory_not_found = NotFound ''inventory.not_found'' ''inventory not found for product''"

definition release_failed :: goerror where
  "release_failed = Conflict ''inventory.release_failed'' ''cannot release more than is reserved''"

definition commit_failed :: goerror where
  "commit_failed = Conflict ''inventory.commit_failed'' ''cannot commit more than is reserved''"

text \<open>The assignments of the four \<open>UPDATE\<close> statements.\<close>

definition reserve_columns :: "goint \<Rightarrow> InventoryModel \<Rightarrow> InventoryModel option" where
  "reserve_columns qty m =
     (case (sql_sub (im_Available m) qty, sql_add (im_Reserved m) qty, sql_add (im_Version m) 1) of
        (Some a, Some r, Some v) \<Rightarrow>
          Some (m\<lparr>im_Available := a, im_Reserved := r, im_Version := v\<rparr>)
      | _ \<Rightarrow> None)"

definition release_columns :: "goint \<Rightarrow> InventoryModel \<Rightarrow> InventoryModel option" where
  "release_columns qty m =
     (case (sql_add (im_Available m) qty, sql_sub (im_Reserved m) qty) of
        (Some a, Some r) \<Rightarrow> Some (m\<lparr>im_Available := a, im_Reserved := r\<rparr>)
      | _ \<Rightarrow> None)"

definition commit_columns :: "goint \<Rightarrow> InventoryModel \<Rightarrow> InventoryModel option" where
  "commit_columns qty m =
     (case sql_sub (im_Reserved m) qty of Some r \<Rightarrow> Some (m\<lparr>im_Reserved := r\<rparr>) | None \<Rightarrow> None)"

definition restock_columns :: "goint \<Rightarrow> InventoryModel \<Rightarrow> InventoryModel option" where
  "restock_columns qty m =
     (case (sql_add (im_Available m) qty, sql_add (im_Version m) 1) of
        (Some a, Some v) \<Rightarrow> Some (m\<lparr>im_Available := a, im_Version := v\<rparr>)
      | _ \<Rightarrow> None)"

definition inventoryRepo_FindByProductID :: "'s Gorm \<Rightarrow> uint64 \<Rightarrow> ('s, Inventory) prog" where
  "inventoryRepo_FindByProductID G productID =
     check (orNotFound inventory_not_found
        (tbl_First (g_inventories G) (\<lambda>m. im_ProductID m = productID)))
       (\<lambda>m. return (inventoryToDomain m))"

definition inventoryRepo_Save :: "'s Gorm \<Rightarrow> Inventory \<Rightarrow> ('s, unit) prog" where
  "inventoryRepo_Save G i = tbl_Save (g_inventories G) (inventoryToModel i)"

definition inventoryRepo_Reserve :: "'s Gorm \<Rightarrow> uint64 \<Rightarrow> goint \<Rightarrow> ('s, bool) prog" where
  "inventoryRepo_Reserve G productID qty =
     check (tbl_Updates (g_inventories G)
        (\<lambda>m. im_ProductID m = productID \<and> qty \<le>s im_Available m) (reserve_columns qty))
       (\<lambda>rowsAffected. return (rowsAffected = 1))"

definition inventoryRepo_Release :: "'s Gorm \<Rightarrow> uint64 \<Rightarrow> goint \<Rightarrow> ('s, unit) prog" where
  "inventoryRepo_Release G productID qty =
     check (tbl_Updates (g_inventories G)
        (\<lambda>m. im_ProductID m = productID \<and> qty \<le>s im_Reserved m) (release_columns qty))
       (\<lambda>rowsAffected. if rowsAffected = 0 then fail release_failed else return ())"

definition inventoryRepo_Commit :: "'s Gorm \<Rightarrow> uint64 \<Rightarrow> goint \<Rightarrow> ('s, unit) prog" where
  "inventoryRepo_Commit G productID qty =
     check (tbl_Updates (g_inventories G)
        (\<lambda>m. im_ProductID m = productID \<and> qty \<le>s im_Reserved m) (commit_columns qty))
       (\<lambda>rowsAffected. if rowsAffected = 0 then fail commit_failed else return ())"

definition inventoryRepo_Restock :: "'s Gorm \<Rightarrow> uint64 \<Rightarrow> goint \<Rightarrow> ('s, unit) prog" where
  "inventoryRepo_Restock G productID qty =
     check (tbl_Updates (g_inventories G) (\<lambda>m. im_ProductID m = productID) (restock_columns qty))
       (\<lambda>_. return ())"

definition inventoryRepo_ListLowStock :: "'s Gorm \<Rightarrow> ('s, Inventory list) prog" where
  "inventoryRepo_ListLowStock G =
     check (tbl_Find (g_inventories G) (\<lambda>m. im_Available m \<le>s im_ReorderLevel m))
       (\<lambda>ms. return (map inventoryToDomain ms))"

definition newInventoryRepo :: "'s Gorm \<Rightarrow> 's InventoryRepository" where
  "newInventoryRepo G = \<lparr>
     irep_FindByProductID = inventoryRepo_FindByProductID G,
     irep_Save = inventoryRepo_Save G,
     irep_Reserve = inventoryRepo_Reserve G,
     irep_Release = inventoryRepo_Release G,
     irep_Commit = inventoryRepo_Commit G,
     irep_Restock = inventoryRepo_Restock G,
     irep_ListLowStock = inventoryRepo_ListLowStock G\<rparr>"

lemmas inventory_columns_defs = reserve_columns_def release_columns_def commit_columns_def
  restock_columns_def

section \<open>Conditional updates\<close>

definition keeps_inventory_keys :: "(InventoryModel \<Rightarrow> InventoryModel option) \<Rightarrow> bool" where
  "keeps_inventory_keys f \<longleftrightarrow>
     (\<forall>m m'. f m = Some m' \<longrightarrow> im_ID m' = im_ID m \<and> im_ProductID m' = im_ProductID m)"

lemma columns_keep_keys [simp]:
  "keeps_inventory_keys (reserve_columns q)" "keeps_inventory_keys (release_columns q)"
  "keeps_inventory_keys (commit_columns q)" "keeps_inventory_keys (restock_columns q)"
  by (auto simp: keeps_inventory_keys_def inventory_columns_defs split: option.splits)

lemma update_keeps_keys:
  assumes "keeps_inventory_keys f" and "\<forall>x \<in> set rows. P x \<longrightarrow> f x \<noteq> None"
  shows "\<exists>g. update_rows P f rows = map g rows \<and> (\<forall>x. im_ID (g x) = im_ID x) \<and>
    (\<forall>x. im_ProductID (g x) = im_ProductID x)"
proof -
  define g where "g x = (case f x of Some y \<Rightarrow> if P x then y else x | None \<Rightarrow> x)" for x
  have "update_rows P f rows = map g rows"
    using assms(2) by (auto simp: update_rows_def g_def split: option.splits)
  moreover have "im_ID (g x) = im_ID x" "im_ProductID (g x) = im_ProductID x" for x
    using assms(1) by (auto simp: g_def keeps_inventory_keys_def split: option.splits)
  ultimately show ?thesis by blast
qed

text \<open>A database whose stock rows are rewritten keeps its constraints.\<close>

lemma db_ok_update_inventories:
  assumes "db_ok d" and "keeps_inventory_keys f"
    and "\<forall>x \<in> set (db_inventories d). P x \<longrightarrow> f x \<noteq> None"
  shows "db_ok (d\<lparr>db_inventories := update_rows P f (db_inventories d)\<rparr>)"
proof -
  from update_keeps_keys [OF assms(2,3)] obtain g where
    g: "update_rows P f (db_inventories d) = map g (db_inventories d)"
      "\<forall>x. im_ID (g x) = im_ID x" "\<forall>x. im_ProductID (g x) = im_ProductID x" by blast
  have "keys_ok inventorySchema (map g (db_inventories d)) = keys_ok inventorySchema (db_inventories d)"
    by (rule keys_ok_map) (simp_all add: inventorySchema_def g(2,3))
  with assms(1) g(1) show ?thesis by (simp add: db_ok_def)
qed

text \<open>
  The driver's answer to a conditional update by product: either it changed the one row of the
  product, or there is no row that meets the condition and it changed none.
\<close>

lemma conditional_update:
  assumes "db_ok d" and "keeps_inventory_keys f"
    and "updates_ok (\<lambda>m. im_ProductID m = pid \<and> P m) f (db_inventories d) n"
    and "d' = d\<lparr>db_inventories := update_rows (\<lambda>m. im_ProductID m = pid \<and> P m) f (db_inventories d)\<rparr>"
  obtains (hit) m m' where "n = 1" and "inv_row pid d = Some m" and "P m" and "f m = Some m'"
      and "inv_row pid d' = Some m'" and "\<And>p. p \<noteq> pid \<Longrightarrow> inv_row p d' = inv_row p d"
      and "db_ok d'"
  | (miss) "n = 0" and "d' = d" and "\<And>m. inv_row pid d = Some m \<Longrightarrow> \<not> P m"
proof -
  let ?P = "\<lambda>m. im_ProductID m = pid \<and> P m"
  let ?rows = "db_inventories d"
  note dist = db_ok_columns(1) [OF assms(1)]
  have filt: "filter ?P ?rows = (case inv_row pid d of None \<Rightarrow> []
      | Some r \<Rightarrow> if P r then [r] else [])"
    using filter_distinct_key [OF dist, of pid P] by (simp add: inv_row_def)
  have some: "\<forall>x \<in> set ?rows. ?P x \<longrightarrow> f x \<noteq> None" and n: "n = of_nat (length (filter ?P ?rows))"
    using assms(3) by (simp_all add: updates_ok_def)
  note ok' = db_ok_update_inventories [OF assms(1,2) some, folded assms(4)]
  show ?thesis
  proof (cases "filter ?P ?rows")
    case Nil
    then have "update_rows ?P f ?rows = ?rows"
      unfolding update_rows_def by (intro map_idI) (auto simp: filter_empty_conv)
    with assms(4) n Nil filt show ?thesis by (auto intro!: miss split: if_splits)
  next
    case (Cons r rest)
    with filt obtain m where m: "inv_row pid d = Some m" "P m" "rest = []" "r = m"
      by (auto split: option.splits if_splits)
    then have pid: "im_ProductID m = pid" "m \<in> set ?rows"
      by (auto simp: inv_row_def dest: find_SomeD)
    with m some obtain m' where m': "f m = Some m'" by (metis not_Some_eq)
    define g where "g x = (case f x of Some y \<Rightarrow> if ?P x then y else x | None \<Rightarrow> x)" for x
    have rows': "db_inventories d' = map g ?rows"
      using some assms(4) by (auto simp: update_rows_def g_def split: option.splits)
    have "im_ProductID (g x) = im_ProductID x" for x
      using assms(2) by (auto simp: g_def keeps_inventory_keys_def split: option.splits)
    then have look: "inv_row p d' = map_option g (inv_row p d)" for p
      unfolding inv_row_def rows' by (rule find_map_key)
    have "inv_row pid d' = Some m'" using look m m' pid by (simp add: g_def)
    moreover have "inv_row p d' = inv_row p d" if "p \<noteq> pid" for p
    proof -
      have "g x = x" if "inv_row p d = Some x" for x
        using that \<open>p \<noteq> pid\<close> by (auto simp: g_def inv_row_def dest: find_SomeD split: option.splits)
      with look show ?thesis by (cases "inv_row p d") auto
    qed
    moreover have "n = 1" using n Cons m by simp
    ultimately show ?thesis using hit m m' ok' by blast
  qed
qed

lemma stock_moved_row:
  assumes "inv_row pid d = Some m" and "inv_row pid d' = Some m'"
    and "\<And>p. p \<noteq> pid \<Longrightarrow> inv_row p d' = inv_row p d"
    and "d' = d\<lparr>db_inventories := rs\<rparr>"
    and "sint (im_Available m') = sint (im_Available m) + ka * q"
    and "sint (im_Reserved m') = sint (im_Reserved m) + kr * q"
  shows "stock_moved ka kr [(pid, q)] d d'"
proof -
  have "d' = d\<lparr>db_inventories := db_inventories d'\<rparr>" using assms(4) by simp
  moreover have "stock d' p = map_option (\<lambda>(a, r). (a + ka * units p [(pid, q)],
      r + kr * units p [(pid, q)])) (stock d p)" for p
    using assms(1-3,5,6) by (cases "p = pid"; cases "inv_row p d") (auto simp: stock_def)
  ultimately show ?thesis by (simp add: stock_moved_def)
qed

section \<open>The contract of the port\<close>

lemma updates_inventories:
  assumes "gorm_ok G view" and "tbl_Updates (g_inventories G) P f s = (Ok n, s')"
  shows "updates_ok P f (db_inventories (view s)) n \<and>
    view s' = (view s)\<lparr>db_inventories := update_rows P f (db_inventories (view s))\<rparr>"
proof -
  from assms(1) have "table_ok inventorySchema view db_inventories put_inventories (g_inventories G)"
    by (simp add: gorm_ok_def)
  from writes_Ok [OF table_okD(7) [OF this] assms(2)] show ?thesis .
qed

lemma updates_inventories_failed:
  assumes "gorm_ok G view" and "tbl_Updates (g_inventories G) P f s = (r, s')" and "\<not> is_Ok r"
  shows "view s' = view s" and "\<And>p. r \<noteq> Panic p"
proof -
  from assms(1) have "table_ok inventorySchema view db_inventories put_inventories (g_inventories G)"
    by (simp add: gorm_ok_def)
  from writes_failed [OF table_okD(7) [OF this] assms(2,3)]
  show "view s' = view s" "\<And>p. r \<noteq> Panic p" by simp_all
qed

lemma inventoryRepo_Reserve_Ok:
  assumes "gorm_ok G view" and "db_ok (view s)"
    and "inventoryRepo_Reserve G pid q s = (Ok b, s')"
  shows "if b then stock_moved (-1) 1 [(pid, sint q)] (view s) (view s') \<and> db_ok (view s') \<and>
             (\<exists>a r. stock (view s) pid = Some (a, r) \<and> sint q \<le> a)
         else view s' = view s \<and> (\<forall>a r. stock (view s) pid = Some (a, r) \<longrightarrow> a < sint q)"
proof -
  from assms(3) obtain n where n: "tbl_Updates (g_inventories G)
      (\<lambda>m. im_ProductID m = pid \<and> q \<le>s im_Available m) (reserve_columns q) s = (Ok n, s')"
    and b: "b = (n = 1)"
    by (auto simp: inventoryRepo_Reserve_def check_Ok_iff)
  note upd = updates_inventories [OF assms(1) n]
  from assms(2) columns_keep_keys(1) conjunct1 [OF upd] conjunct2 [OF upd] show ?thesis
  proof (cases rule: conditional_update)
    case (hit m m')
    then have e: "sint (im_Available m') = sint (im_Available m) - sint q"
      "sint (im_Reserved m') = sint (im_Reserved m) + sint q"
      by (auto simp: reserve_columns_def split: option.splits dest!: sql_add_SomeD sql_sub_SomeD)
    have "stock_moved (-1) 1 [(pid, sint q)] (view s) (view s')"
      by (rule stock_moved_row [OF hit(2,5,6) conjunct2 [OF upd]]) (simp_all add: e)
    with hit b show ?thesis by (auto simp: stock_def word_sle_eq)
  next
    case miss
    with b show ?thesis by (auto simp: stock_def word_sle_eq)
  qed
qed

lemma inventoryRepo_Release_Ok:
  assumes "gorm_ok G view" and "db_ok (view s)"
    and "inventoryRepo_Release G pid q s = (Ok u, s')"
  shows "stock_moved 1 (-1) [(pid, sint q)] (view s) (view s') \<and> db_ok (view s') \<and>
    (\<exists>a r. stock (view s) pid = Some (a, r) \<and> sint q \<le> r)"
proof -
  from assms(3) obtain n where n: "tbl_Updates (g_inventories G)
      (\<lambda>m. im_ProductID m = pid \<and> q \<le>s im_Reserved m) (release_columns q) s = (Ok n, s')"
    and "n \<noteq> 0"
    by (auto simp: inventoryRepo_Release_def check_Ok_iff split: if_splits)
  note upd = updates_inventories [OF assms(1) n]
  from assms(2) columns_keep_keys(2) conjunct1 [OF upd] conjunct2 [OF upd] show ?thesis
  proof (cases rule: conditional_update)
    case (hit m m')
    then have e: "sint (im_Available m') = sint (im_Available m) + sint q"
      "sint (im_Reserved m') = sint (im_Reserved m) - sint q"
      by (auto simp: release_columns_def split: option.splits dest!: sql_add_SomeD sql_sub_SomeD)
    have "stock_moved 1 (-1) [(pid, sint q)] (view s) (view s')"
      by (rule stock_moved_row [OF hit(2,5,6) conjunct2 [OF upd]]) (simp_all add: e)
    with hit show ?thesis by (auto simp: stock_def word_sle_eq)
  next
    case miss
    with \<open>n \<noteq> 0\<close> show ?thesis by simp
  qed
qed

lemma inventoryRepo_Commit_Ok:
  assumes "gorm_ok G view" and "db_ok (view s)"
    and "inventoryRepo_Commit G pid q s = (Ok u, s')"
  shows "stock_moved 0 (-1) [(pid, sint q)] (view s) (view s') \<and> db_ok (view s') \<and>
    (\<exists>a r. stock (view s) pid = Some (a, r) \<and> sint q \<le> r)"
proof -
  from assms(3) obtain n where n: "tbl_Updates (g_inventories G)
      (\<lambda>m. im_ProductID m = pid \<and> q \<le>s im_Reserved m) (commit_columns q) s = (Ok n, s')"
    and "n \<noteq> 0"
    by (auto simp: inventoryRepo_Commit_def check_Ok_iff split: if_splits)
  note upd = updates_inventories [OF assms(1) n]
  from assms(2) columns_keep_keys(3) conjunct1 [OF upd] conjunct2 [OF upd] show ?thesis
  proof (cases rule: conditional_update)
    case (hit m m')
    then have e: "sint (im_Available m') = sint (im_Available m)"
      "sint (im_Reserved m') = sint (im_Reserved m) - sint q"
      by (auto simp: commit_columns_def split: option.splits dest!: sql_sub_SomeD)
    have "stock_moved 0 (-1) [(pid, sint q)] (view s) (view s')"
      by (rule stock_moved_row [OF hit(2,5,6) conjunct2 [OF upd]]) (simp_all add: e)
    with hit show ?thesis by (auto simp: stock_def word_sle_eq)
  next
    case miss
    with \<open>n \<noteq> 0\<close> show ?thesis by simp
  qed
qed

text \<open>A conditional update that is refused, for whatever reason, changed no row.\<close>

lemma refused_update:
  assumes "gorm_ok G view" and "db_ok (view s)" and "keeps_inventory_keys f" and "\<not> is_Ok r"
    and "check (tbl_Updates (g_inventories G) (\<lambda>m. im_ProductID m = pid \<and> P m) f)
      (\<lambda>n. if n = 0 then fail e else return ()) s = (r, s')"
  shows "view s' = view s"
proof -
  let ?P = "\<lambda>m. im_ProductID m = pid \<and> P m"
  obtain r0 s0 where u: "tbl_Updates (g_inventories G) ?P f s = (r0, s0)" by force
  show ?thesis
  proof (cases "is_Ok r0")
    case True
    then obtain n where n: "r0 = Ok n" by (auto simp: is_Ok_iff)
    with u assms(4,5) have z: "n = 0" "s' = s0" by (auto split: if_splits)
    note upd = updates_inventories [OF assms(1) u [unfolded n]]
    from assms(2,3) conjunct1 [OF upd] conjunct2 [OF upd] show ?thesis
      by (cases rule: conditional_update) (use z in auto)
  next
    case False
    with u assms(5) have "s' = s0" by (cases r0) auto
    with updates_inventories_failed [OF assms(1) u False] show ?thesis by simp
  qed
qed

lemma inventoryRepo_Reserve_failed:
  assumes "gorm_ok G view" and "\<not> is_Ok r" and "inventoryRepo_Reserve G pid q s = (r, s')"
  shows "view s' = view s"
proof -
  let ?P = "\<lambda>m. im_ProductID m = pid \<and> q \<le>s im_Available m"
  obtain r0 s0 where u: "tbl_Updates (g_inventories G) ?P (reserve_columns q) s = (r0, s0)" by force
  with assms(2,3) have "\<not> is_Ok r0" "s' = s0"
    by (cases r0; auto simp: inventoryRepo_Reserve_def)+
  with updates_inventories_failed [OF assms(1) u] show ?thesis by simp
qed

interpretation gorm_inventory: inventory_port gorm_ok newInventoryRepo
proof (unfold_locales, goal_cases)
  case (1 g view s pid q s')
  with inventoryRepo_Reserve_Ok [of g view s pid q True] show ?case by (simp add: newInventoryRepo_def)
next
  case (2 g view s pid q s')
  with inventoryRepo_Reserve_Ok [of g view s pid q False] show ?case by (simp add: newInventoryRepo_def)
next
  case (3 g view s pid q u s')
  then show ?case using inventoryRepo_Release_Ok by (simp add: newInventoryRepo_def)
next
  case (4 g view s pid q u s')
  then show ?case using inventoryRepo_Commit_Ok by (simp add: newInventoryRepo_def)
next
  case (5 g view s r pid q s')
  then have "inventoryRepo_Release g pid q s = (r, s') \<or> inventoryRepo_Commit g pid q s = (r, s')"
    by (simp add: newInventoryRepo_def)
  then show ?case
  proof
    assume "inventoryRepo_Release g pid q s = (r, s')"
    from refused_update [OF 5(1,2) columns_keep_keys(2) 5(3) this [unfolded inventoryRepo_Release_def]]
    show ?case .
  next
    assume "inventoryRepo_Commit g pid q s = (r, s')"
    from refused_update [OF 5(1,2) columns_keep_keys(3) 5(3) this [unfolded inventoryRepo_Commit_def]]
    show ?case .
  qed
next
  case (6 g view rb pid q s s')
  then show ?case using inventoryRepo_Reserve_failed by (simp add: newInventoryRepo_def)
qed

end
