(* ===== verification/OrderRepo.thy ===== *)
theory OrderRepo
  imports Ports
begin

text \<open>The order repository (gormrepo/order_repo.go) and its contract.\<close>

definition order_not_found :: goerror where
  "order_not_found = NotFound ''order.not_found'' ''order not found''"

definition orderRepo_Create :: "'s Gorm \<Rightarrow> ('s \<times> Order, unit) prog" where
  "orderRepo_Create G so = (case tbl_Create (g_orders G) (orderToModel (snd so)) (fst so) of
      (Ok m, s') \<Rightarrow> (Ok (), (s', Order_AssignID (om_ID m) (snd so)))
    | (Err e, s') \<Rightarrow> (Err e, (s', snd so))
    | (Panic p, s') \<Rightarrow> (Panic p, (s', snd so)))"

text \<open>
  \<open>Updates\<close> by primary key with a map of columns; the number of rows it changed is not looked at.
\<close>

definition orderRepo_Update :: "'s Gorm \<Rightarrow> Order \<Rightarrow> ('s, unit) prog" where
  "orderRepo_Update G o1 =
     check (tbl_UpdatesByID (g_orders G) (ord_id o1) (\<lambda>m. Some
        (m\<lparr>om_Status := ord_status o1, om_TotalAmount := m_amount (ord_total o1),
           om_Currency := m_currency (ord_total o1), om_FailureReason := ord_failureReason o1\<rparr>)))
       (\<lambda>_. return ())"

definition orderRepo_FindByID :: "'s Gorm \<Rightarrow> uint64 \<Rightarrow> ('s, Order) prog" where
  "orderRepo_FindByID G i =
     check (orNotFound order_not_found (tbl_First (g_orders G) (\<lambda>m. om_ID m = i)))
       (\<lambda>m. lift (orderToDomain m))"

definition orderRepo_FindByIdempotencyKey :: "'s Gorm \<Rightarrow> string \<Rightarrow> ('s, Order) prog" where
  "orderRepo_FindByIdempotencyKey G key =
     check (orNotFound order_not_found (tbl_First (g_orders G) (\<lambda>m. om_IdempotencyKey m = key)))
       (\<lambda>m. lift (orderToDomain m))"

definition normalizeOrderPage :: "Page \<Rightarrow> goint \<times> goint" where
  "normalizeOrderPage page =
     (let number = (if pg_Number page \<le>s 0 then 1 else pg_Number page);
          size = (if pg_Size page \<le>s 0 then 20 else pg_Size page)
      in (number, size))"

definition orderRepo_list :: "'s Gorm \<Rightarrow> (OrderModel \<Rightarrow> bool) \<Rightarrow> Page \<Rightarrow> ('s, Order list \<times> int64) prog"
where
  "orderRepo_list G P page = (let (number, sz) = normalizeOrderPage page; offset = (number - 1) * sz in
     check (tbl_Count (g_orders G) P) (\<lambda>tot.
     check (tbl_Page (g_orders G) P offset sz) (\<lambda>ms.
     check (lift (ordersToDomain ms)) (\<lambda>out.
     return (out, tot)))))"

definition orderRepo_ListByUser :: "'s Gorm \<Rightarrow> uint64 \<Rightarrow> Page \<Rightarrow> ('s, Order list \<times> int64) prog" where
  "orderRepo_ListByUser G userID = orderRepo_list G (\<lambda>m. om_UserID m = userID)"

definition orderRepo_ListAll :: "'s Gorm \<Rightarrow> Page \<Rightarrow> ('s, Order list \<times> int64) prog" where
  "orderRepo_ListAll G = orderRepo_list G (\<lambda>m. True)"

definition newOrderRepo :: "'s Gorm \<Rightarrow> 's OrderRepository" where
  "newOrderRepo G = \<lparr>
     orep_Create = orderRepo_Create G,
     orep_Update = orderRepo_Update G,
     orep_FindByID = orderRepo_FindByID G,
     orep_FindByIdempotencyKey = orderRepo_FindByIdempotencyKey G,
     orep_ListByUser = orderRepo_ListByUser G,
     orep_ListAll = orderRepo_ListAll G\<rparr>"

section \<open>The contract of the port\<close>

lemma orders_table:
  "gorm_ok G view \<Longrightarrow> table_ok orderSchema view db_orders put_orders (g_orders G)"
  by (simp add: gorm_ok_def)

lemma orderRepo_Create_Ok:
  assumes "gorm_ok G view" and "orderRepo_Create G (s, o1) = (Ok u, (s', o'))"
  shows "order_created o1 (view s) (view s') o'"
proof -
  from assms(2) obtain r where r: "tbl_Create (g_orders G) (orderToModel o1) s = (Ok r, s')"
    and o': "o' = Order_AssignID (om_ID r) o1"
    by (auto simp: orderRepo_Create_def split: prod.splits outcome.splits)
  from writes_Ok [OF table_okD(1) [OF orders_table [OF assms(1)]] r] o' show ?thesis
    by (auto simp: order_created_def)
qed

lemma orderRepo_Create_failed:
  assumes "gorm_ok G view" and "orderRepo_Create G (s, o1) = (r, (s', o'))" and "\<not> is_Ok r"
  shows "view s' = view s \<and> o' = o1"
proof -
  obtain r0 s0 where c: "tbl_Create (g_orders G) (orderToModel o1) s = (r0, s0)" by force
  with assms(2,3) have "\<not> is_Ok r0" "s' = s0" "o' = o1"
    by (cases r0; auto simp: orderRepo_Create_def)+
  with writes_failed [OF table_okD(1) [OF orders_table [OF assms(1)]] c] show ?thesis by simp
qed

lemma orderRepo_Update_Ok:
  assumes "gorm_ok G view" and "orderRepo_Update G o1 s = (Ok u, s')"
  shows "view s' = order_updated o1 (view s)"
proof -
  from assms(2) obtain n where n: "tbl_UpdatesByID (g_orders G) (ord_id o1)
      (\<lambda>m. Some (order_columns o1 m)) s = (Ok n, s')"
    by (auto simp: orderRepo_Update_def check_Ok_iff order_columns_def [symmetric])
  from writes_Ok [OF table_okD(8) [OF orders_table [OF assms(1)]] n] show ?thesis
    by (simp add: order_updated_def update_rows_def orderSchema_def if_distrib cong: if_cong)
qed

lemma first_order:
  assumes "gorm_ok G view"
    and "check (orNotFound e (tbl_First (g_orders G) P)) (\<lambda>m. lift (orderToDomain m)) s = (r, s')"
  shows "view s' = view s \<and>
    (\<forall>o1. r = Ok o1 \<longrightarrow> (\<exists>m \<in> set (db_orders (view s)). P m \<and> orderToDomain m = Ok o1))"
proof -
  note ro = table_okD(3) [OF orders_table [OF assms(1)], of s P]
  obtain r0 s0 where f: "orNotFound e (tbl_First (g_orders G) P) s = (r0, s0)" by force
  then have s0: "view s0 = view s"
    using reads_only_view [OF ro] orNotFound_state [of e "tbl_First (g_orders G) P" s] by simp
  show ?thesis
  proof (cases r0)
    case (Ok m)
    with f have "tbl_First (g_orders G) P s = (Ok m, s0)" by (simp add: orNotFound_Ok)
    from reads_only_Ok [OF ro this] f Ok assms(2) show ?thesis by auto
  qed (use f assms(2) s0 in auto)
qed

interpretation gorm_orders: order_port gorm_ok newOrderRepo
proof (unfold_locales, goal_cases)
  case (1 g view s o1 u s' o')
  then show ?case using orderRepo_Create_Ok by (simp add: newOrderRepo_def)
next
  case (2 g view s o1 r s' o')
  then show ?case using orderRepo_Create_failed by (simp add: newOrderRepo_def)
next
  case (3 g view o1 s u s')
  then show ?case using orderRepo_Update_Ok by (simp add: newOrderRepo_def)
next
  case (4 g view i s o1 s')
  with first_order [of g view order_not_found "\<lambda>m. om_ID m = i" s "Ok o1" s'] show ?case
    by (simp add: newOrderRepo_def orderRepo_FindByID_def)
next
  case (5 g view key s o1 s')
  with first_order [of g view order_not_found "\<lambda>m. om_IdempotencyKey m = key" s "Ok o1" s'] show ?case
    by (simp add: newOrderRepo_def orderRepo_FindByIdempotencyKey_def)
next
  case (6 g view i s ro s')
  with first_order [of g view order_not_found "\<lambda>m. om_ID m = i" s ro s'] show ?case
    by (simp add: newOrderRepo_def orderRepo_FindByID_def)
next
  case (7 g view key s ro s')
  with first_order [of g view order_not_found "\<lambda>m. om_IdempotencyKey m = key" s ro s'] show ?case
    by (simp add: newOrderRepo_def orderRepo_FindByIdempotencyKey_def)
qed

end
