(* ===== verification/PaymentRepo.thy ===== *)
theory PaymentRepo
  imports Ports
begin

text \<open>The payment repository (gormrepo/payment_repo.go) and its contract.\<close>

definition payment_not_found :: "string \<Rightarrow> goerror" where
  "payment_not_found message = NotFound ''payment.not_found'' message"

definition paymentRepo_Create :: "'s Gorm \<Rightarrow> ('s \<times> Payment, unit) prog" where
  "paymentRepo_Create G sp = (case tbl_Create (g_payments G) (paymentToModel (snd sp)) (fst sp) of
      (Ok m, s') \<Rightarrow> (Ok (), (s', Payment_AssignID (pym_ID m) (snd sp)))
    | (Err e, s') \<Rightarrow> (Err e, (s', snd sp))
    | (Panic p, s') \<Rightarrow> (Panic p, (s', snd sp)))"

definition paymentRepo_Update :: "'s Gorm \<Rightarrow> Payment \<Rightarrow> ('s, unit) prog" where
  "paymentRepo_Update G p = tbl_Save (g_payments G) (paymentToModel p)"

definition paymentRepo_first :: "'s Gorm \<Rightarrow> string \<Rightarrow> (PaymentModel \<Rightarrow> bool) \<Rightarrow> ('s, Payment) prog" where
  "paymentRepo_first G message P =
     check (orNotFound (payment_not_found message) (tbl_First (g_payments G) P))
       (\<lambda>m. lift (paymentToDomain m))"

definition paymentRepo_FindByID :: "'s Gorm \<Rightarrow> uint64 \<Rightarrow> ('s, Payment) prog" where
  "paymentRepo_FindByID G i = paymentRepo_first G ''payment not found'' (\<lambda>m. pym_ID m = i)"

definition paymentRepo_FindByOrderID :: "'s Gorm \<Rightarrow> uint64 \<Rightarrow> ('s, Payment) prog" where
  "paymentRepo_FindByOrderID G orderID =
     paymentRepo_first G ''payment not found for order'' (\<lambda>m. pym_OrderID m = orderID)"

definition paymentRepo_FindByIdempotencyKey :: "'s Gorm \<Rightarrow> string \<Rightarrow> ('s, Payment) prog" where
  "paymentRepo_FindByIdempotencyKey G key =
     paymentRepo_first G ''payment not found for idempotency key''
       (\<lambda>m. pym_IdempotencyKey m = key)"

definition newPaymentRepo :: "'s Gorm \<Rightarrow> 's PaymentRepository" where
  "newPaymentRepo G = \<lparr>
     prep_Create = paymentRepo_Create G,
     prep_Update = paymentRepo_Update G,
     prep_FindByID = paymentRepo_FindByID G,
     prep_FindByOrderID = paymentRepo_FindByOrderID G,
     prep_FindByIdempotencyKey = paymentRepo_FindByIdempotencyKey G\<rparr>"

lemma payments_table:
  "gorm_ok G view \<Longrightarrow> table_ok paymentSchema view db_payments put_payments (g_payments G)"
  by (simp add: gorm_ok_def)

lemma paymentRepo_Create_Ok:
  assumes "gorm_ok G view" and "paymentRepo_Create G (s, p) = (Ok u, (s', p'))"
  shows "payment_created p (view s) (view s') p'"
proof -
  from assms(2) obtain r where r: "tbl_Create (g_payments G) (paymentToModel p) s = (Ok r, s')"
    and p': "p' = Payment_AssignID (pym_ID r) p"
    by (auto simp: paymentRepo_Create_def split: prod.splits outcome.splits)
  from writes_Ok [OF table_okD(1) [OF payments_table [OF assms(1)]] r] p' show ?thesis
    by (auto simp: payment_created_def)
qed

lemma first_payment:
  assumes "gorm_ok G view" and "paymentRepo_first G message P s = (Ok p, s')"
  shows "view s' = view s \<and> (\<exists>m \<in> set (db_payments (view s)). P m \<and> paymentToDomain m = Ok p)"
proof -
  note ro = table_okD(3) [OF payments_table [OF assms(1)], of s P]
  from assms(2) obtain m where f: "tbl_First (g_payments G) P s = (Ok m, s')"
    and p: "paymentToDomain m = Ok p"
    by (auto simp: paymentRepo_first_def check_Ok_iff orNotFound_Ok)
  from reads_only_Ok [OF ro f] p show ?thesis by auto
qed

interpretation gorm_payments: payment_port gorm_ok newPaymentRepo
proof (unfold_locales, goal_cases)
  case (1 g view s p u s' p')
  then show ?case using paymentRepo_Create_Ok by (simp add: newPaymentRepo_def)
next
  case (2 g view p s u s')
  then have "tbl_Save (g_payments g) (paymentToModel p) s = (Ok u, s')"
    by (simp add: newPaymentRepo_def paymentRepo_Update_def)
  from writes_Ok [OF table_okD(2) [OF payments_table [OF 2(1)]] this] show ?case
    by (simp add: payment_saved_def)
next
  case (3 g view i s p s')
  then show ?case
    using first_payment [of g view "''payment not found for order''" "\<lambda>m. pym_OrderID m = i"]
    by (simp add: newPaymentRepo_def paymentRepo_FindByOrderID_def)
qed

end
