(* ===== verification/OtherRepos.thy ===== *)
theory OtherRepos
  imports Ports
begin

text \<open>
  The remaining repositories of package gormrepo: product_repo.go, user_repo.go,
  notification_repo.go and audit_repo.go.
\<close>

section \<open>Products\<close>

definition product_not_found :: goerror where
  "product_not_found = NotFound ''product.not_found'' ''product not found''"

definition productRepo_Create :: "'s Gorm \<Rightarrow> ('s \<times> Product, unit) prog" where
  "productRepo_Create G sp = (case tbl_Create (g_products G) (productToModel (snd sp)) (fst sp) of
      (Ok m, s') \<Rightarrow> (Ok (), (s', Product_AssignID (pm_ID m) (snd sp)))
    | (Err e, s') \<Rightarrow> (Err e, (s', snd sp))
    | (Panic p, s') \<Rightarrow> (Panic p, (s', snd sp)))"

definition productRepo_Update :: "'s Gorm \<Rightarrow> Product \<Rightarrow> ('s, unit) prog" where
  "productRepo_Update G p = tbl_Save (g_products G) (productToModel p)"

definition productRepo_FindByID :: "'s Gorm \<Rightarrow> uint64 \<Rightarrow> ('s, Product) prog" where
  "productRepo_FindByID G i =
     check (orNotFound product_not_found (tbl_First (g_products G) (\<lambda>m. pm_ID m = i)))
       (\<lambda>m. lift (productToDomain m))"

definition productRepo_List :: "'s Gorm \<Rightarrow> Page \<Rightarrow> ('s, Product list \<times> int64) prog" where
  "productRepo_List G page =
     (let number = (if pg_Number page \<le>s 0 then 1 else pg_Number page);
          sz = (if pg_Size page \<le>s 0 then 20 else pg_Size page);
          offset = (number - 1) * sz
      in check (tbl_Count (g_products G) (\<lambda>m. True)) (\<lambda>tot.
         check (tbl_Page (g_products G) (\<lambda>m. True) offset sz) (\<lambda>ms.
         check (lift (mapR productToDomain ms)) (\<lambda>out.
         return (out, tot)))))"

definition newProductRepo :: "'s Gorm \<Rightarrow> 's ProductRepository" where
  "newProductRepo G = \<lparr>
     drep_Create = productRepo_Create G,
     drep_Update = productRepo_Update G,
     drep_FindByID = productRepo_FindByID G,
     drep_List = productRepo_List G\<rparr>"

section \<open>Users\<close>

definition user_not_found :: goerror where
  "user_not_found = NotFound ''user.not_found'' ''user not found''"

definition userRepo_Create :: "'s Gorm \<Rightarrow> ('s \<times> User, unit) prog" where
  "userRepo_Create G su = (case tbl_Create (g_users G) (userToModel (snd su)) (fst su) of
      (Ok m, s') \<Rightarrow> (Ok (), (s', User_AssignID (um_ID m) (snd su)))
    | (Err e, s') \<Rightarrow> (Err e, (s', snd su))
    | (Panic p, s') \<Rightarrow> (Panic p, (s', snd su)))"

definition userRepo_Update :: "'s Gorm \<Rightarrow> User \<Rightarrow> ('s, unit) prog" where
  "userRepo_Update G u = tbl_Save (g_users G) (userToModel u)"

definition userRepo_FindByID :: "'s Gorm \<Rightarrow> uint64 \<Rightarrow> ('s, User) prog" where
  "userRepo_FindByID G i =
     check (orNotFound user_not_found (tbl_First (g_users G) (\<lambda>m. um_ID m = i)))
       (\<lambda>m. return (userToDomain m))"

definition userRepo_FindByEmail :: "'s Gorm \<Rightarrow> string \<Rightarrow> ('s, User) prog" where
  "userRepo_FindByEmail G email =
     check (orNotFound user_not_found (tbl_First (g_users G) (\<lambda>m. um_Email m = email)))
       (\<lambda>m. return (userToDomain m))"

definition newUserRepo :: "'s Gorm \<Rightarrow> 's UserRepository" where
  "newUserRepo G = \<lparr>
     urep_Create = userRepo_Create G,
     urep_Update = userRepo_Update G,
     urep_FindByID = userRepo_FindByID G,
     urep_FindByEmail = userRepo_FindByEmail G\<rparr>"

section \<open>Notifications\<close>

definition notification_not_found :: goerror where
  "notification_not_found = NotFound ''notification.not_found'' ''notification not found''"

definition notificationRepo_Create :: "'s Gorm \<Rightarrow> ('s \<times> Notification, unit) prog" where
  "notificationRepo_Create G sn =
     (case tbl_Create (g_notifications G) (notificationToModel (snd sn)) (fst sn) of
        (Ok m, s') \<Rightarrow> (Ok (), (s', Notification_AssignID (nm_ID m) (snd sn)))
      | (Err e, s') \<Rightarrow> (Err e, (s', snd sn))
      | (Panic p, s') \<Rightarrow> (Panic p, (s', snd sn)))"

definition notificationRepo_Update :: "'s Gorm \<Rightarrow> Notification \<Rightarrow> ('s, unit) prog" where
  "notificationRepo_Update G n = (let m = notificationToModel n in
     check (tbl_Updates (g_notifications G) (\<lambda>r. nm_ID r = nm_ID m) (\<lambda>r. Some
        (r\<lparr>nm_UserID := nm_UserID m, nm_Type := nm_Type m, nm_Channel := nm_Channel m,
           nm_Status := nm_Status m, nm_Subject := nm_Subject m, nm_Payload := nm_Payload m,
           nm_Attempts := nm_Attempts m, nm_FailureReason := nm_FailureReason m\<rparr>)))
       (\<lambda>rowsAffected. if rowsAffected = 0 then fail notification_not_found else return ()))"

definition notificationRepo_ListByStatus :: "'s Gorm \<Rightarrow> string \<Rightarrow> goint \<Rightarrow> ('s, Notification list) prog"
where
  "notificationRepo_ListByStatus G status limit =
     check (orNotFound notification_not_found
        (if 0 <s limit then tbl_Page (g_notifications G) (\<lambda>m. nm_Status m = status) 0 limit
         else tbl_Find (g_notifications G) (\<lambda>m. nm_Status m = status)))
       (\<lambda>ms. return (map notificationToDomain ms))"

definition newNotificationRepo :: "'s Gorm \<Rightarrow> 's NotificationRepository" where
  "newNotificationRepo G = \<lparr>
     nrep_Create = notificationRepo_Create G,
     nrep_Update = notificationRepo_Update G,
     nrep_ListByStatus = notificationRepo_ListByStatus G\<rparr>"

section \<open>Audit log\<close>

definition auditRepo_Append :: "'s Gorm \<Rightarrow> Entry \<Rightarrow> ('s, unit) prog" where
  "auditRepo_Append G e = check (tbl_Create (g_audit_logs G) (auditToModel e)) (\<lambda>_. return ())"

definition newAuditRepo :: "'s Gorm \<Rightarrow> 's AuditRepository" where
  "newAuditRepo G = \<lparr>arep_Append = auditRepo_Append G\<rparr>"

section \<open>The contract of the product port\<close>

lemma productRepo_FindByID_reads:
  assumes "gorm_ok G view" and "productRepo_FindByID G i s = (r, s')"
  shows "view s' = view s \<and> (\<forall>p. r = Ok p \<longrightarrow>
    (\<exists>m \<in> set (db_products (view s)). pm_ID m = i \<and> productToDomain m = Ok p))"
proof -
  from assms(1) have "table_ok productSchema view db_products put_products (g_products G)"
    by (simp add: gorm_ok_def)
  note ro = table_okD(3) [OF this, of s "\<lambda>m. pm_ID m = i"]
  let ?first = "tbl_First (g_products G) (\<lambda>m. pm_ID m = i)"
  obtain r0 s0 where f: "orNotFound product_not_found ?first s = (r0, s0)" by force
  then have s0: "view s0 = view s"
    using reads_only_view [OF ro] orNotFound_state [of product_not_found ?first s] by simp
  show ?thesis
  proof (cases r0)
    case (Ok m)
    with f have "?first s = (Ok m, s0)" by (simp add: orNotFound_Ok)
    from reads_only_Ok [OF ro this] f Ok assms(2) show ?thesis
      by (auto simp: productRepo_FindByID_def)
  qed (use f assms(2) s0 in \<open>auto simp: productRepo_FindByID_def\<close>)
qed

interpretation gorm_products: product_port gorm_ok newProductRepo
proof (unfold_locales, goal_cases)
  case (1 g view i s p s')
  with productRepo_FindByID_reads [of g view i s "Ok p" s'] show ?case by (simp add: newProductRepo_def)
next
  case (2 g view i s ro s')
  with productRepo_FindByID_reads [of g view i s ro s'] show ?case by (simp add: newProductRepo_def)
qed

end
