(* ===== verification/UnitOfWork.thy ===== *)
theory UnitOfWork
  imports InventoryRepo OrderRepo PaymentRepo OtherRepos
begin

text \<open>
  gormrepo/uow.go: the repository provider over a connection or a transaction, and the unit of
  work. \<open>'h\<close> are the variables the function given to \<open>Do\<close> captures.
\<close>

definition NewRepositories :: "'s Gorm \<Rightarrow> 's RepositoryProvider" where
  "NewRepositories G = \<lparr>
     rp_Users = newUserRepo G,
     rp_Products = newProductRepo G,
     rp_Inventory = newInventoryRepo G,
     rp_Orders = newOrderRepo G,
     rp_Payments = newPaymentRepo G,
     rp_Notifications = newNotificationRepo G,
     rp_Audit = newAuditRepo G\<rparr>"

text \<open>
  \<open>tx\<close> is the handle a transaction gives its function, \<open>txn\<close> the driver's
  \<open>Transaction\<close>.
\<close>

definition unitOfWork_Do ::
  "'s Gorm \<times> ('s, 'h) Transaction \<Rightarrow> ('s RepositoryProvider \<Rightarrow> ('s \<times> 'h, unit) prog)
    \<Rightarrow> ('s \<times> 'h, unit) prog"
where
  "unitOfWork_Do u fn = (let (tx, txn) = u in txn (fn (NewRepositories tx)))"

definition uow_ok :: "'s Gorm \<times> ('s, 'h) Transaction \<Rightarrow> ('s \<Rightarrow> DB) \<Rightarrow> bool" where
  "uow_ok u view \<longleftrightarrow> gorm_ok (fst u) view \<and> transactional view (snd u)"

interpretation shop: shop_ports gorm_ok NewRepositories uow_ok unitOfWork_Do
proof (intro shop_ports.intro shop_ports_axioms.intro, goal_cases)
  case 1
  then show ?case using gorm_inventory.inventory_port_axioms by (simp add: NewRepositories_def)
next
  case 2
  then show ?case using gorm_orders.order_port_axioms by (simp add: NewRepositories_def)
next
  case 3
  then show ?case using gorm_payments.payment_port_axioms by (simp add: NewRepositories_def)
next
  case 4
  then show ?case using gorm_products.product_port_axioms by (simp add: NewRepositories_def)
next
  case (5 c view)
  then show ?case by (auto simp: uow_ok_def unitOfWork_Do_def split_beta)
qed

section \<open>Looking an operation up\<close>

lemma repository_selectors [simp]:
  "rp_Users (NewRepositories G) = newUserRepo G"
  "rp_Products (NewRepositories G) = newProductRepo G"
  "rp_Inventory (NewRepositories G) = newInventoryRepo G"
  "rp_Orders (NewRepositories G) = newOrderRepo G"
  "rp_Payments (NewRepositories G) = newPaymentRepo G"
  "rp_Notifications (NewRepositories G) = newNotificationRepo G"
  "rp_Audit (NewRepositories G) = newAuditRepo G"
  by (simp_all add: NewRepositories_def)

lemma operation_selectors [simp]:
  "orep_Create (newOrderRepo G) = orderRepo_Create G"
  "orep_Update (newOrderRepo G) = orderRepo_Update G"
  "orep_FindByID (newOrderRepo G) = orderRepo_FindByID G"
  "orep_FindByIdempotencyKey (newOrderRepo G) = orderRepo_FindByIdempotencyKey G"
  "orep_ListByUser (newOrderRepo G) = orderRepo_ListByUser G"
  "orep_ListAll (newOrderRepo G) = orderRepo_ListAll G"
  "prep_Create (newPaymentRepo G) = paymentRepo_Create G"
  "prep_Update (newPaymentRepo G) = paymentRepo_Update G"
  "prep_FindByID (newPaymentRepo G) = paymentRepo_FindByID G"
  "prep_FindByOrderID (newPaymentRepo G) = paymentRepo_FindByOrderID G"
  "irep_Reserve (newInventoryRepo G) = inventoryRepo_Reserve G"
  "irep_Release (newInventoryRepo G) = inventoryRepo_Release G"
  "irep_Commit (newInventoryRepo G) = inventoryRepo_Commit G"
  "irep_Restock (newInventoryRepo G) = inventoryRepo_Restock G"
  "irep_Save (newInventoryRepo G) = inventoryRepo_Save G"
  "irep_FindByProductID (newInventoryRepo G) = inventoryRepo_FindByProductID G"
  "irep_ListLowStock (newInventoryRepo G) = inventoryRepo_ListLowStock G"
  "drep_Create (newProductRepo G) = productRepo_Create G"
  "drep_Update (newProductRepo G) = productRepo_Update G"
  "drep_FindByID (newProductRepo G) = productRepo_FindByID G"
  "drep_List (newProductRepo G) = productRepo_List G"
  "urep_Create (newUserRepo G) = userRepo_Create G"
  "urep_Update (newUserRepo G) = userRepo_Update G"
  "urep_FindByID (newUserRepo G) = userRepo_FindByID G"
  "urep_FindByEmail (newUserRepo G) = userRepo_FindByEmail G"
  "nrep_Create (newNotificationRepo G) = notificationRepo_Create G"
  "nrep_Update (newNotificationRepo G) = notificationRepo_Update G"
  "nrep_ListByStatus (newNotificationRepo G) = notificationRepo_ListByStatus G"
  "arep_Append (newAuditRepo G) = auditRepo_Append G"
  by (simp_all add: newOrderRepo_def newPaymentRepo_def newInventoryRepo_def newProductRepo_def
      newUserRepo_def newNotificationRepo_def newAuditRepo_def)

end
