(* ===== verification/DomainEvents.thy ===== *)
theory DomainEvents
  imports Inventory_Agg Order_Agg Payment_Agg Product_Agg User_Agg Notification_Agg
begin

text \<open>
  The interface \<open>shared.Event\<close> (internal/domain/shared/event.go): a value of any of the
  packages' event types, with its name and the id of its aggregate.
\<close>

datatype Event =
    EvInventory InventoryEvent
  | EvOrder OrderEvent
  | EvPayment PaymentEvent
  | EvProduct ProductEvent
  | EvUser UserEvent
  | EvNotification NotificationEvent

definition EventName :: "Event \<Rightarrow> string" where
  "EventName e = (case e of
      EvInventory x \<Rightarrow> InventoryEvent_EventName x
    | EvOrder x \<Rightarrow> OrderEvent_EventName x
    | EvPayment x \<Rightarrow> PaymentEvent_EventName x
    | EvProduct x \<Rightarrow> ProductEvent_EventName x
    | EvUser x \<Rightarrow> UserEvent_EventName x
    | EvNotification x \<Rightarrow> NotificationEvent_EventName x)"

definition AggregateID :: "Event \<Rightarrow> uint64" where
  "AggregateID e = (case e of
      EvInventory x \<Rightarrow> InventoryEvent_AggregateID x
    | EvOrder x \<Rightarrow> OrderEvent_AggregateID x
    | EvPayment x \<Rightarrow> PaymentEvent_AggregateID x
    | EvProduct x \<Rightarrow> ProductEvent_AggregateID x
    | EvUser x \<Rightarrow> UserEvent_AggregateID x
    | EvNotification x \<Rightarrow> NotificationEvent_AggregateID x)"

lemma EventName_order: "EventName (EvOrder x) = OrderEvent_EventName x"
  by (simp add: EventName_def)

lemma EventName_payment: "EventName (EvPayment x) = PaymentEvent_EventName x"
  by (simp add: EventName_def)

end
