(* ===== verification/PlaceOrder.thy ===== *)
theory PlaceOrder
  imports UnitOfWork DomainEvents
begin

text \<open>
  The command internal/application/command/place_order.go: the idempotency lookup, the order
  built from the catalogue, the transaction that reserves stock, the charge with its retries,
  and the transaction that settles.
\<close>

record PlaceOrderItem =
  poi_ProductID :: uint64
  poi_Quantity :: goint

record PlaceOrderInput =
  poin_UserID :: uint64
  poin_IdempotencyKey :: string
  poin_Items :: "PlaceOrderItem list"

text \<open>
  What a command acts on: the store its repositories use, the payment provider's own state, and
  a record of the calls that leave the service: every charge with its answer, every pause
  between charges, and every list of events handed to the bus.
\<close>

record ('s, 'g) World =
  w_store :: 's
  w_gateway :: 'g
  w_charges :: "(ChargeRequest \<times> ChargeResult outcome) list"
  w_slept :: "duration list"
  w_published :: "Event list list"

type_synonym 'g PaymentGateway = "ChargeRequest \<Rightarrow> ('g, ChargeResult) prog"

text \<open>
  The variables that the functions given to the unit of work capture: the order, and the
  payment once there is one.
\<close>

type_synonym Vars = "Order \<times> Payment option"

type_synonym 's Uow = "('s RepositoryProvider \<Rightarrow> ('s \<times> Vars, unit) prog) \<Rightarrow> ('s \<times> Vars, unit) prog"

record ('s, 'g) PlaceOrder =
  po_uow :: "'s Uow"
  po_reads :: "'s RepositoryProvider"
  po_gateway :: "'g PaymentGateway"
  po_submit :: "goerror option"
  po_maxAttempts :: goint
  po_retryBackoff :: duration

text \<open>\<open>po_submit\<close> is what \<open>pool.Submit\<close> returns: nil once the task is queued, or its error.\<close>

definition out_of_stock :: goerror where
  "out_of_stock = OutOfStock ''order.out_of_stock'' ''insufficient stock to reserve order items''"

definition inactive_product :: goerror where
  "inactive_product =
     Validation ''order.inactive_product'' ''product is not available for purchase''"

definition pool_unavailable :: "goerror \<Rightarrow> goerror" where
  "pool_unavailable submitErr = WithCause (Unavailable ''order.pool_unavailable''
     ''order processing pool is not accepting work'') submitErr"

definition payment_failed :: "goerror \<Rightarrow> goerror" where
  "payment_failed chargeErr = WithCause (PaymentFailedErr ''order.payment_failed''
     ''payment could not be completed'') chargeErr"

section \<open>Steps on the captured variables\<close>

definition createOrder :: "'s RepositoryProvider \<Rightarrow> ('s \<times> Vars, unit) prog" where
  "createOrder rp st = (case st of (s, (ord, pay)) \<Rightarrow>
     (case orep_Create (rp_Orders rp) (s, ord) of (r, (s', ord')) \<Rightarrow> (r, (s', (ord', pay)))))"

definition updateOrder :: "'s RepositoryProvider \<Rightarrow> ('s \<times> Vars, unit) prog" where
  "updateOrder rp st = (case st of (s, (ord, pay)) \<Rightarrow>
     onStore (orep_Update (rp_Orders rp) ord) (s, (ord, pay)))"

definition onOrder :: "(Order, unit) prog \<Rightarrow> ('s \<times> Vars, unit) prog" where
  "onOrder f st = (case st of (s, (ord, pay)) \<Rightarrow>
     (case f ord of (r, ord') \<Rightarrow> (r, (s, (ord', pay)))))"

text \<open>A call on a nil payment would panic.\<close>

definition nil_dereference :: string where
  "nil_dereference = ''invalid memory address or nil pointer dereference''"

definition onPayment :: "(Payment, unit) prog \<Rightarrow> ('s \<times> Vars, unit) prog" where
  "onPayment f st = (case st of
      (s, (ord, Some pay)) \<Rightarrow> (case f pay of (r, pay') \<Rightarrow> (r, (s, (ord, Some pay'))))
    | (s, (ord, None)) \<Rightarrow> (Panic nil_dereference, (s, (ord, None))))"

definition createPayment :: "'s RepositoryProvider \<Rightarrow> ('s \<times> Vars, unit) prog" where
  "createPayment rp st = (case st of
      (s, (ord, Some pay)) \<Rightarrow> (case prep_Create (rp_Payments rp) (s, pay) of
         (r, (s', pay')) \<Rightarrow> (r, (s', (ord, Some pay'))))
    | (s, (ord, None)) \<Rightarrow> (Panic nil_dereference, (s, (ord, None))))"

text \<open>The loops over \<open>ord.Items()\<close>.\<close>

definition forItems :: "(Item \<Rightarrow> ('s, unit) prog) \<Rightarrow> ('s \<times> Vars, unit) prog" where
  "forItems f st = onStore (forEach f (ord_items (fst (snd st)))) st"

definition reserveItem :: "'s RepositoryProvider \<Rightarrow> Item \<Rightarrow> ('s, unit) prog" where
  "reserveItem rp item =
     check (irep_Reserve (rp_Inventory rp) (item_productID item) (item_quantity item))
       (\<lambda>ok. if ok then return () else fail out_of_stock)"

definition releaseItem :: "'s RepositoryProvider \<Rightarrow> Item \<Rightarrow> ('s, unit) prog" where
  "releaseItem rp item =
     irep_Release (rp_Inventory rp) (item_productID item) (item_quantity item)"

definition commitItem :: "'s RepositoryProvider \<Rightarrow> Item \<Rightarrow> ('s, unit) prog" where
  "commitItem rp item =
     irep_Commit (rp_Inventory rp) (item_productID item) (item_quantity item)"

section \<open>The two transactions\<close>

definition reserveTx :: "'s RepositoryProvider \<Rightarrow> ('s \<times> Vars, unit) prog" where
  "reserveTx rp =
     check (createOrder rp) (\<lambda>_.
     check (forItems (reserveItem rp)) (\<lambda>_.
     check (onOrder Order_MarkReserved) (\<lambda>_.
     updateOrder rp)))"

definition declineTx :: "goerror \<Rightarrow> 's RepositoryProvider \<Rightarrow> ('s \<times> Vars, unit) prog" where
  "declineTx chargeErr rp =
     check (onPayment (Payment_MarkFailed (ErrorText chargeErr))) (\<lambda>_.
     check (createPayment rp) (\<lambda>_.
     check (forItems (releaseItem rp)) (\<lambda>_.
     check (onOrder (Order_Fail ''payment failed'')) (\<lambda>_.
     updateOrder rp))))"

definition acceptTx :: "ChargeResult \<Rightarrow> 's RepositoryProvider \<Rightarrow> ('s \<times> Vars, unit) prog" where
  "acceptTx res rp =
     check (onPayment (Payment_MarkSucceeded (cres_ProviderRef res))) (\<lambda>_.
     check (createPayment rp) (\<lambda>_.
     check (onOrder Order_MarkPaid) (\<lambda>_.
     check (forItems (commitItem rp)) (\<lambda>_.
     check (onOrder Order_MarkFulfilled) (\<lambda>_.
     updateOrder rp)))))"

section \<open>The charge and its retries\<close>

definition chargeOnce ::
  "'g PaymentGateway \<Rightarrow> ChargeRequest \<Rightarrow> ('s, 'g) World \<Rightarrow> ChargeResult outcome \<times> ('s, 'g) World"
where
  "chargeOnce gw req w = (case gw req (w_gateway w) of (r, g') \<Rightarrow>
     (r, w\<lparr>w_gateway := g', w_charges := w_charges w @ [(req, r)]\<rparr>))"

text \<open>
  The loop with \<open>n\<close> attempts left, the next one being number \<open>attempt\<close>: it stops at the
  first charge that succeeds, or with the answer of the last one.
\<close>

fun chargeLoop ::
  "'g PaymentGateway \<Rightarrow> duration \<Rightarrow> ChargeRequest \<Rightarrow> nat \<Rightarrow> goint \<Rightarrow> Payment \<Rightarrow> ('s, 'g) World
    \<Rightarrow> ChargeResult outcome \<times> Payment \<times> ('s, 'g) World"
where
  "chargeLoop gw backoff req 0 attempt pay w =
     (Ok \<lparr>cres_Provider = '''', cres_ProviderRef = ''''\<rparr>, pay, w)"
| "chargeLoop gw backoff req (Suc n) attempt pay w =
     (let pay' = snd (Payment_RecordAttempt ''mock'' pay);
          (r, w') = chargeOnce gw req w
      in case r of
          Err chargeErr \<Rightarrow>
            if n = 0 then (r, pay', w')
            else chargeLoop gw backoff req n (attempt + 1) pay'
              (if 0 <s backoff then w'\<lparr>w_slept := w_slept w' @ [backoff * attempt]\<rparr> else w')
        | _ \<Rightarrow> (r, pay', w'))"

definition chargeAttempts :: "goint \<Rightarrow> nat" where
  "chargeAttempts maxAttempts = (if maxAttempts <s 1 then 1 else nat (sint maxAttempts))"

section \<open>The command\<close>

text \<open>
  \<open>process\<close>, run by a worker of the pool: the payment it made, if it got that far, and its
  error.
\<close>

definition runTx :: "('s \<times> Vars, unit) prog \<Rightarrow> Order \<Rightarrow> Payment option \<Rightarrow> ('s, 'g) World
    \<Rightarrow> unit outcome \<times> Order \<times> Payment option \<times> ('s, 'g) World" where
  "runTx tx ord pay w = (case tx (w_store w, (ord, pay)) of
     (r, (s', (ord', pay'))) \<Rightarrow> (r, ord', pay', w\<lparr>w_store := s'\<rparr>))"

definition settle :: "('s, 'g) PlaceOrder \<Rightarrow> ChargeResult outcome \<Rightarrow> Order \<Rightarrow> Payment \<Rightarrow> ('s, 'g) World
    \<Rightarrow> unit outcome \<times> Order \<times> Payment option \<times> ('s, 'g) World" where
  "settle h charged ord pay w = (case charged of
      Ok res \<Rightarrow> runTx (po_uow h (acceptTx res)) ord (Some pay) w
    | Err chargeErr \<Rightarrow>
        (case runTx (po_uow h (declineTx chargeErr)) ord (Some pay) w of
          (Ok _, rest) \<Rightarrow> (Err (payment_failed chargeErr), rest)
        | res \<Rightarrow> res)
    | Panic p \<Rightarrow> (Panic p, ord, Some pay, w))"

definition PlaceOrder_process :: "('s, 'g) PlaceOrder \<Rightarrow> time \<Rightarrow> Order \<Rightarrow> ('s, 'g) World
    \<Rightarrow> unit outcome \<times> Order \<times> Payment option \<times> ('s, 'g) World" where
  "PlaceOrder_process h now ord w =
     (case runTx (po_uow h reserveTx) ord None w of
        (Ok _, ord1, _, w1) \<Rightarrow>
          (case NewPayment now (ord_id ord1) (ord_idempotencyKey ord1) (ord_total ord1) of
             Ok pay \<Rightarrow>
               (case chargeLoop (po_gateway h) (po_retryBackoff h)
                   \<lparr>cr_IdempotencyKey = ord_idempotencyKey ord1, cr_Amount = ord_total ord1\<rparr>
                   (chargeAttempts (po_maxAttempts h)) 1 pay w1 of
                 (charged, pay1, w2) \<Rightarrow> settle h charged ord1 pay1 w2)
           | Err e \<Rightarrow> (Err e, ord1, None, w1)
           | Panic p \<Rightarrow> (Panic p, ord1, None, w1))
      | (r, ord1, _, w1) \<Rightarrow> (r, ord1, None, w1))"

text \<open>The items of the order, priced from the catalogue.\<close>

definition buildItem :: "'s RepositoryProvider \<Rightarrow> PlaceOrderItem \<Rightarrow> ('s, Item) prog" where
  "buildItem reads line =
     check (drep_FindByID (rp_Products reads) (poi_ProductID line)) (\<lambda>p.
       if \<not> prod_active p then fail inactive_product
       else lift (NewItem (prod_id p) (prod_sku p) (prod_name p) (prod_price p)
         (poi_Quantity line)))"

definition publish :: "Event list \<Rightarrow> ('s, 'g) World \<Rightarrow> ('s, 'g) World" where
  "publish es w = w\<lparr>w_published := w_published w @ [es]\<rparr>"

text \<open>The events pulled from the order and from the payment, if there is one.\<close>

definition pulled :: "Order \<Rightarrow> Payment option \<Rightarrow> Event list" where
  "pulled ord pay = map EvOrder (pending ord) @
     (case pay of Some p \<Rightarrow> map EvPayment (pending p) | None \<Rightarrow> [])"

definition submitOrder :: "('s, 'g) PlaceOrder \<Rightarrow> time \<Rightarrow> Order \<Rightarrow> ('s, 'g) World
    \<Rightarrow> Order outcome \<times> ('s, 'g) World" where
  "submitOrder h now ord w = (case po_submit h of
      Some submitErr \<Rightarrow> (Err (pool_unavailable submitErr), w)
    | None \<Rightarrow> (case PlaceOrder_process h now ord w of
        (Panic p, _, _, w') \<Rightarrow> (Panic p, w')
      | (r, ord', pay, w') \<Rightarrow>
          (let w'' = publish (pulled ord' pay) w' in
           case r of
             Ok _ \<Rightarrow> (Ok (ord'\<lparr>pending := []\<rparr>), w'')
           | Err e \<Rightarrow> (Err e, w'')
           | Panic p \<Rightarrow> (Panic p, w''))))"

definition PlaceOrder_Handle :: "('s, 'g) PlaceOrder \<Rightarrow> time \<Rightarrow> time \<Rightarrow> PlaceOrderInput
    \<Rightarrow> ('s, 'g) World \<Rightarrow> Order outcome \<times> ('s, 'g) World" where
  "PlaceOrder_Handle h nowOrder nowPayment inp w =
     (case orep_FindByIdempotencyKey (rp_Orders (po_reads h)) (poin_IdempotencyKey inp) (w_store w) of
        (Ok existing, s1) \<Rightarrow> (Ok existing, w\<lparr>w_store := s1\<rparr>)
      | (Panic p, s1) \<Rightarrow> (Panic p, w\<lparr>w_store := s1\<rparr>)
      | (Err _, s1) \<Rightarrow>
          (case mapEach (buildItem (po_reads h)) (poin_Items inp) s1 of
             (Ok items, s2) \<Rightarrow>
               (case NewOrder nowOrder (poin_UserID inp) items (poin_IdempotencyKey inp) of
                  Ok ord \<Rightarrow> submitOrder h nowPayment ord (w\<lparr>w_store := s2\<rparr>)
                | Err e \<Rightarrow> (Err e, w\<lparr>w_store := s2\<rparr>)
                | Panic p \<Rightarrow> (Panic p, w\<lparr>w_store := s2\<rparr>))
           | (Err e, s2) \<Rightarrow> (Err e, w\<lparr>w_store := s2\<rparr>)
           | (Panic p, s2) \<Rightarrow> (Panic p, w\<lparr>w_store := s2\<rparr>)))"

end
