(* ===== verification/PlaceOrder_Steps.thy ===== *)
theory PlaceOrder_Steps
  imports PlaceOrder
begin

text \<open>
  The steps of PlaceOrder against the contracts of the ports: the loops over the items, the
  reserving transaction and the two settling ones. Everything here is proved inside the locale
  of the ports, and reaches the model of package gormrepo through its interpretation.
\<close>

section \<open>Loops that move stock\<close>

lemma units_not_in: "pid \<notin> fst ` set mv \<Longrightarrow> units pid mv = 0"
  by (induction mv rule: units.induct) auto

lemma moves_products: "fst ` set (moves items) = item_productID ` set items"
  by (auto simp: moves_def image_image)

text \<open>
  The counter a move takes from (available for a reservation, reserved for a release or a
  commit) covers all the moves of each product.
\<close>

definition covers :: "(int \<times> int \<Rightarrow> int) \<Rightarrow> (uint64 \<times> int) list \<Rightarrow> DB \<Rightarrow> bool" where
  "covers sel mv d \<longleftrightarrow>
     (\<forall>pid \<in> fst ` set mv. \<exists>ar. stock d pid = Some ar \<and> units pid mv \<le> sel ar)"

lemma covers_Cons:
  assumes "stock_moved ka kr [(pid, q)] d d1" and "covers sel mv d1"
    and "stock d pid = Some ar" and "q \<le> sel ar"
    and sel: "\<And>a r u. sel (a + ka * u, r + kr * u) = sel (a, r) - u"
  shows "covers sel ((pid, q) # mv) d"
proof -
  have "\<exists>ar. stock d p = Some ar \<and> units p ((pid, q) # mv) \<le> sel ar"
    if p: "p \<in> fst ` set ((pid, q) # mv)" for p
  proof (cases "p \<in> fst ` set mv")
    case True
    with assms(2) obtain ar1 where ar1: "stock d1 p = Some ar1" "units p mv \<le> sel ar1"
      by (auto simp: covers_def)
    with assms(1) obtain a r where "stock d p = Some (a, r)"
      "ar1 = (a + ka * units p [(pid, q)], r + kr * units p [(pid, q)])"
      by (auto simp: stock_moved_def)
    with ar1 sel show ?thesis by auto
  next
    case False
    with p assms(3,4) show ?thesis by (auto simp: units_not_in)
  qed
  then show ?thesis unfolding covers_def by blast
qed

lemma stock_loop:
  assumes step: "\<And>i s s'. db_ok (view s) \<Longrightarrow> op i s = (Ok (), s') \<Longrightarrow>
      stock_moved ka kr [(item_productID i, sint (item_quantity i))] (view s) (view s') \<and>
      db_ok (view s') \<and> (\<exists>ar. stock (view s) (item_productID i) = Some ar \<and>
        sint (item_quantity i) \<le> sel ar)"
    and sel: "\<And>a r u. sel (a + ka * u, r + kr * u) = sel (a, r) - u"
    and "db_ok (view s)" and "forEach op items s = (Ok (), s')"
  shows "stock_moved ka kr (moves items) (view s) (view s') \<and> db_ok (view s') \<and>
    covers sel (moves items) (view s)"
  using assms(3,4)
proof (induction items arbitrary: s)
  case Nil
  then show ?case by (simp add: covers_def)
next
  case (Cons i items)
  from Cons.prems(2) obtain s1 where s1: "op i s = (Ok (), s1)" "forEach op items s1 = (Ok (), s')"
    by (auto simp: check_Ok_iff)
  note st = step [OF Cons.prems(1) s1(1)]
  then have IH: "stock_moved ka kr (moves items) (view s1) (view s')" "db_ok (view s')"
    "covers sel (moves items) (view s1)" using Cons.IH s1(2) by blast+
  from stock_moved_append [OF conjunct1 [OF st] IH(1)] IH(2) st
    covers_Cons [OF conjunct1 [OF st] IH(3) _ _ sel]
  show ?case by auto
qed

section \<open>Rows of orders\<close>

lemma order_columns_simps [simp]:
  "om_ID (order_columns o1 m) = om_ID m" "om_UserID (order_columns o1 m) = om_UserID m"
  "om_Status (order_columns o1 m) = ord_status o1"
  "om_TotalAmount (order_columns o1 m) = m_amount (ord_total o1)"
  "om_Currency (order_columns o1 m) = m_currency (ord_total o1)"
  "om_IdempotencyKey (order_columns o1 m) = om_IdempotencyKey m"
  "om_FailureReason (order_columns o1 m) = ord_failureReason o1"
  "om_Items (order_columns o1 m) = om_Items m" "om_CreatedAt (order_columns o1 m) = om_CreatedAt m"
  by (simp_all add: order_columns_def)

lemma order_updated_frame [simp]:
  "db_inventories (order_updated o1 d) = db_inventories d"
  "db_payments (order_updated o1 d) = db_payments d"
  "db_users (order_updated o1 d) = db_users d" "db_products (order_updated o1 d) = db_products d"
  "stock (order_updated o1 d) = stock d"
  by (auto simp: order_updated_def stock_def inv_row_def)

lemma rest_kept_order_updated [simp]: "rest_kept d (order_updated o1 d') = rest_kept d d'"
  by (simp add: order_updated_def)

lemma db_ok_order_updated: "db_ok d \<Longrightarrow> db_ok (order_updated o1 d)"
proof -
  assume "db_ok d"
  moreover have "keys_ok orderSchema (map (\<lambda>m. if om_ID m = ord_id o1 then order_columns o1 m else m)
      (db_orders d)) = keys_ok orderSchema (db_orders d)"
    by (rule keys_ok_map) (auto simp: orderSchema_def)
  ultimately show ?thesis by (simp add: db_ok_def order_updated_def)
qed

lemma inserted_order:
  assumes "inserts orderSchema rows (orderToModel o1) r"
  shows "om_ID r \<noteq> 0" "om_UserID r = ord_userID o1" "om_Status r = ord_status o1"
    "om_TotalAmount r = m_amount (ord_total o1)" "om_IdempotencyKey r = ord_idempotencyKey o1"
    "om_FailureReason r = ord_failureReason o1"
    "list_all2 (stored_item (om_ID r)) (map itemToModel (ord_items o1)) (om_Items r)"
    "om_ID r \<notin> om_ID ` set rows" "ord_idempotencyKey o1 \<notin> om_IdempotencyKey ` set rows"
proof -
  from assms have st: "sc_stored orderSchema (orderToModel o1) r" "om_ID r \<noteq> 0"
    "\<forall>x \<in> set rows. om_ID r \<noteq> om_ID x \<and> om_IdempotencyKey x \<noteq> om_IdempotencyKey r"
    by (simp_all add: inserts_def orderSchema_def)
  then have cols: "r = (orderToModel o1)\<lparr>om_ID := om_ID r, om_CreatedAt := om_CreatedAt r,
      om_Items := om_Items r,
      om_Currency := filled_string ''USD'' (om_Currency (orderToModel o1))\<rparr>"
    and items: "list_all2 (stored_item (om_ID r)) (om_Items (orderToModel o1)) (om_Items r)"
    by (simp_all add: orderSchema_def)
  from arg_cong [OF cols, of om_UserID] show "om_UserID r = ord_userID o1"
    by (simp add: orderToModel_def)
  from arg_cong [OF cols, of om_Status] show "om_Status r = ord_status o1"
    by (simp add: orderToModel_def)
  from arg_cong [OF cols, of om_TotalAmount] show "om_TotalAmount r = m_amount (ord_total o1)"
    by (simp add: orderToModel_def)
  from arg_cong [OF cols, of om_FailureReason] show "om_FailureReason r = ord_failureReason o1"
    by (simp add: orderToModel_def)
  from arg_cong [OF cols, of om_IdempotencyKey]
  show key: "om_IdempotencyKey r = ord_idempotencyKey o1" by (simp add: orderToModel_def)
  show "list_all2 (stored_item (om_ID r)) (map itemToModel (ord_items o1)) (om_Items r)"
    using items by (simp add: orderToModel_def)
  show "om_ID r \<noteq> 0" "om_ID r \<notin> om_ID ` set rows" "ord_idempotencyKey o1 \<notin> om_IdempotencyKey ` set rows"
    using st(2,3) key by auto
qed

lemma inserted_payment:
  assumes "inserts paymentSchema rows (paymentToModel p) r"
  shows "pym_ID r \<noteq> 0" "pym_OrderID r = pay_orderID p" "pym_Status r = pay_status p"
    "pym_Amount r = m_amount (pay_amount p)" "pym_IdempotencyKey r = pay_idempotencyKey p"
    "pym_Attempts r = pay_attempts p" "pym_ProviderRef r = pay_providerRef p"
    "pym_FailureReason r = pay_failureReason p"
    "pay_orderID p \<notin> pym_OrderID ` set rows" "pay_idempotencyKey p \<notin> pym_IdempotencyKey ` set rows"
proof -
  from assms have st: "sc_stored paymentSchema (paymentToModel p) r" "pym_ID r \<noteq> 0"
    "\<forall>x \<in> set rows. pym_OrderID x \<noteq> pym_OrderID r \<and> pym_IdempotencyKey x \<noteq> pym_IdempotencyKey r"
    by (auto simp: inserts_def paymentSchema_def)
  then have cols: "r = (paymentToModel p)\<lparr>pym_ID := pym_ID r, pym_CreatedAt := pym_CreatedAt r,
      pym_Currency := filled_string ''USD'' (pym_Currency (paymentToModel p))\<rparr>"
    by (simp add: paymentSchema_def)
  from arg_cong [OF cols, of pym_Status] show "pym_Status r = pay_status p"
    by (simp add: paymentToModel_def)
  from arg_cong [OF cols, of pym_Amount] show "pym_Amount r = m_amount (pay_amount p)"
    by (simp add: paymentToModel_def)
  from arg_cong [OF cols, of pym_Attempts] show "pym_Attempts r = pay_attempts p"
    by (simp add: paymentToModel_def)
  from arg_cong [OF cols, of pym_ProviderRef] show "pym_ProviderRef r = pay_providerRef p"
    by (simp add: paymentToModel_def)
  from arg_cong [OF cols, of pym_FailureReason] show "pym_FailureReason r = pay_failureReason p"
    by (simp add: paymentToModel_def)
  from arg_cong [OF cols, of pym_OrderID] show oid: "pym_OrderID r = pay_orderID p"
    by (simp add: paymentToModel_def)
  from arg_cong [OF cols, of pym_IdempotencyKey]
  show key: "pym_IdempotencyKey r = pay_idempotencyKey p" by (simp add: paymentToModel_def)
  show "pym_ID r \<noteq> 0" "pay_orderID p \<notin> pym_OrderID ` set rows"
    "pay_idempotencyKey p \<notin> pym_IdempotencyKey ` set rows"
    using st(2,3) oid key by auto
qed

section \<open>Inverting a step that returned nil\<close>

lemma createOrder_Ok:
  "createOrder R (s, (o1, p)) = (Ok u, (s', (o2, p2))) \<longleftrightarrow>
     orep_Create (rp_Orders R) (s, o1) = (Ok u, (s', o2)) \<and> p2 = p"
  by (auto simp: createOrder_def split: prod.splits)

lemma updateOrder_Ok:
  "updateOrder R (s, (o1, p)) = (r, (s', (o2, p2))) \<longleftrightarrow>
     orep_Update (rp_Orders R) o1 s = (r, s') \<and> o2 = o1 \<and> p2 = p"
  by (auto simp: updateOrder_def split: prod.splits)

lemma onOrder_Ok:
  "onOrder f (s, (o1, p)) = (r, (s', (o2, p2))) \<longleftrightarrow> f o1 = (r, o2) \<and> s' = s \<and> p2 = p"
  by (auto simp: onOrder_def split: prod.splits)

lemma onPayment_Ok:
  "onPayment f (s, (o1, Some p)) = (r, (s', (o2, p2))) \<longleftrightarrow>
     (\<exists>q. f p = (r, q) \<and> p2 = Some q) \<and> s' = s \<and> o2 = o1"
  by (auto simp: onPayment_def split: prod.splits)

lemma createPayment_Ok:
  "createPayment R (s, (o1, Some p)) = (r, (s', (o2, p2))) \<longleftrightarrow>
     (\<exists>q. prep_Create (rp_Payments R) (s, p) = (r, (s', q)) \<and> p2 = Some q) \<and> o2 = o1"
  by (auto simp: createPayment_def split: prod.splits)

lemma forItems_Ok:
  "forItems f (s, (o1, p)) = (r, (s', (o2, p2))) \<longleftrightarrow>
     forEach f (ord_items o1) s = (r, s') \<and> o2 = o1 \<and> p2 = p"
  by (auto simp: forItems_def split: prod.splits)

lemmas step_iffs = check_Ok_iff createOrder_Ok updateOrder_Ok onOrder_Ok onPayment_Ok
  createPayment_Ok forItems_Ok

section \<open>What the transactions do to the tables\<close>

definition stock_shift :: "int \<Rightarrow> int \<Rightarrow> (uint64 \<times> int) list \<Rightarrow> DB \<Rightarrow> DB \<Rightarrow> bool" where
  "stock_shift ka kr mv d d' \<longleftrightarrow> (\<forall>pid. stock d' pid =
     map_option (\<lambda>(a, r). (a + ka * units pid mv, r + kr * units pid mv)) (stock d pid))"

lemma stock_moved_shift: "stock_moved ka kr mv d d' \<Longrightarrow> stock_shift ka kr mv d d'"
  by (simp add: stock_moved_def stock_shift_def)

text \<open>The order as it is once reserved under the id its row got.\<close>

definition reserved_order :: "uint64 \<Rightarrow> Order \<Rightarrow> Order" where
  "reserved_order i o1 = o1\<lparr>ord_id := i, ord_status := StatusReserved,
     pending := pending o1 @ [OrderReserved i]\<rparr>"

definition order_placed :: "Order \<Rightarrow> DB \<Rightarrow> DB \<Rightarrow> Order \<Rightarrow> bool" where
  "order_placed o1 d d' o2 \<longleftrightarrow> (\<exists>r.
     inserts orderSchema (db_orders d) (orderToModel o1) r \<and>
     o2 = reserved_order (om_ID r) o1 \<and>
     db_orders d' = db_orders d @ [order_columns o2 r] \<and>
     db_payments d' = db_payments d \<and> db_ok d' \<and> rest_kept d d' \<and>
     stock_shift (-1) 1 (moves (ord_items o1)) d d' \<and>
     covers fst (moves (ord_items o1)) d)"

definition fulfilled_order :: "Order \<Rightarrow> Order" where
  "fulfilled_order o1 = o1\<lparr>ord_status := StatusFulfilled,
     pending := pending o1 @ [OrderPaid (ord_id o1), OrderFulfilled (ord_id o1)]\<rparr>"

definition succeeded_payment :: "string \<Rightarrow> Payment \<Rightarrow> Payment" where
  "succeeded_payment ref p = p\<lparr>pay_status := PaySucceeded, pay_providerRef := ref,
     pay_failureReason := '''',
     pending := pending p @ [PaymentSucceeded (pay_id p) (pay_orderID p)]\<rparr>"

definition order_settled :: "ChargeResult \<Rightarrow> Order \<Rightarrow> Payment \<Rightarrow> DB \<Rightarrow> DB \<Rightarrow> Order \<Rightarrow> Payment \<Rightarrow> bool" where
  "order_settled res o1 p d d' o2 p2 \<longleftrightarrow>
     o2 = fulfilled_order o1 \<and>
     (\<exists>r. inserts paymentSchema (db_payments d)
            (paymentToModel (succeeded_payment (cres_ProviderRef res) p)) r \<and>
          p2 = Payment_AssignID (pym_ID r) (succeeded_payment (cres_ProviderRef res) p) \<and>
          db_payments d' = db_payments d @ [r]) \<and>
     db_orders d' = db_orders (order_updated o2 d) \<and> db_ok d' \<and> rest_kept d d' \<and>
     stock_shift 0 (-1) (moves (ord_items o1)) d d' \<and>
     covers snd (moves (ord_items o1)) d"

definition failed_order :: "Order \<Rightarrow> Order" where
  "failed_order o1 = o1\<lparr>ord_status := StatusFailed, ord_failureReason := ''payment failed'',
     pending := pending o1 @ [OrderFailed (ord_id o1) ''payment failed'']\<rparr>"

definition failed_payment :: "string \<Rightarrow> Payment \<Rightarrow> Payment" where
  "failed_payment reason p = p\<lparr>pay_status := PayFailed, pay_failureReason := reason,
     pending := pending p @ [PaymentFailed (pay_id p) (pay_orderID p) reason]\<rparr>"

definition order_declined :: "goerror \<Rightarrow> Order \<Rightarrow> Payment \<Rightarrow> DB \<Rightarrow> DB \<Rightarrow> Order \<Rightarrow> Payment \<Rightarrow> bool" where
  "order_declined e o1 p d d' o2 p2 \<longleftrightarrow>
     o2 = failed_order o1 \<and>
     (\<exists>r. inserts paymentSchema (db_payments d) (paymentToModel (failed_payment (ErrorText e) p)) r \<and>
          p2 = Payment_AssignID (pym_ID r) (failed_payment (ErrorText e) p) \<and>
          db_payments d' = db_payments d @ [r]) \<and>
     db_orders d' = db_orders (order_updated o2 d) \<and> db_ok d' \<and> rest_kept d d' \<and>
     stock_shift 1 (-1) (moves (ord_items o1)) d d' \<and>
     covers snd (moves (ord_items o1)) d"

context shop_ports
begin

lemma reserveItems:
  assumes "ok g view" and "db_ok (view s)" and "forEach (reserveItem (rp g)) items s = (Ok (), s')"
  shows "stock_moved (-1) 1 (moves items) (view s) (view s') \<and> db_ok (view s') \<and>
    covers fst (moves items) (view s)"
proof (rule stock_loop [where view = view and op = "reserveItem (rp g)" and sel = fst and ka = "-1" and kr = "1", OF _ _ assms(2,3)])
  fix i s s'
  assume d: "db_ok (view s)" and "reserveItem (rp g) i s = (Ok (), s')"
  then have "irep_Reserve (rp_Inventory (rp g)) (item_productID i) (item_quantity i) s = (Ok True, s')"
    by (auto simp: reserveItem_def check_Ok_iff split: if_splits)
  from Reserve_true [OF assms(1) d this]
  show "stock_moved (-1) 1 [(item_productID i, sint (item_quantity i))] (view s) (view s') \<and>
      db_ok (view s') \<and> (\<exists>ar. stock (view s) (item_productID i) = Some ar \<and>
        sint (item_quantity i) \<le> fst ar)" by fastforce
qed simp

lemma releaseItems:
  assumes "ok g view" and "db_ok (view s)" and "forEach (releaseItem (rp g)) items s = (Ok (), s')"
  shows "stock_moved 1 (-1) (moves items) (view s) (view s') \<and> db_ok (view s') \<and>
    covers snd (moves items) (view s)"
proof (rule stock_loop [where view = view and op = "releaseItem (rp g)" and sel = snd and ka = "1" and kr = "-1", OF _ _ assms(2,3)])
  fix i s s'
  assume d: "db_ok (view s)" and "releaseItem (rp g) i s = (Ok (), s')"
  from Release_Ok [OF assms(1) d this(2) [unfolded releaseItem_def]]
  show "stock_moved 1 (-1) [(item_productID i, sint (item_quantity i))] (view s) (view s') \<and>
      db_ok (view s') \<and> (\<exists>ar. stock (view s) (item_productID i) = Some ar \<and>
        sint (item_quantity i) \<le> snd ar)" by fastforce
qed simp

lemma commitItems:
  assumes "ok g view" and "db_ok (view s)" and "forEach (commitItem (rp g)) items s = (Ok (), s')"
  shows "stock_moved 0 (-1) (moves items) (view s) (view s') \<and> db_ok (view s') \<and>
    covers snd (moves items) (view s)"
proof (rule stock_loop [where view = view and op = "commitItem (rp g)" and sel = snd and ka = "0" and kr = "-1", OF _ _ assms(2,3)])
  fix i s s'
  assume d: "db_ok (view s)" and "commitItem (rp g) i s = (Ok (), s')"
  from Commit_Ok [OF assms(1) d this(2) [unfolded commitItem_def]]
  show "stock_moved 0 (-1) [(item_productID i, sint (item_quantity i))] (view s) (view s') \<and>
      db_ok (view s') \<and> (\<exists>ar. stock (view s) (item_productID i) = Some ar \<and>
        sint (item_quantity i) \<le> snd ar)" by fastforce
qed simp

end

section \<open>The transactions against the ports\<close>

lemma stock_shift_orders [simp]:
  "stock_shift ka kr mv (d\<lparr>db_orders := rs\<rparr>) d' = stock_shift ka kr mv d d'"
  "stock_shift ka kr mv (d\<lparr>db_payments := ps\<rparr>) d' = stock_shift ka kr mv d d'"
  "stock_shift ka kr mv d (order_updated o1 d') = stock_shift ka kr mv d d'"
  "covers sel mv (d\<lparr>db_orders := rs\<rparr>) = covers sel mv d"
  "covers sel mv (d\<lparr>db_payments := ps\<rparr>) = covers sel mv d"
  by (simp_all add: stock_shift_def covers_def stock_def inv_row_def)

lemma db_ok_insert_order:
  "db_ok d \<Longrightarrow> inserts orderSchema (db_orders d) m r \<Longrightarrow> db_ok (d\<lparr>db_orders := db_orders d @ [r]\<rparr>)"
  by (simp add: db_ok_def inserts_keys_ok)

lemma db_ok_insert_payment:
  "db_ok d \<Longrightarrow> inserts paymentSchema (db_payments d) m r \<Longrightarrow>
    db_ok (d\<lparr>db_payments := db_payments d @ [r]\<rparr>)"
  by (simp add: db_ok_def inserts_keys_ok)

lemma order_updated_last:
  assumes "om_ID r = ord_id o1" and "ord_id o1 \<notin> om_ID ` set rows"
  shows "map (\<lambda>m. if om_ID m = ord_id o1 then order_columns o1 m else m) (rows @ [r]) =
    rows @ [order_columns o1 r]"
proof -
  have "om_ID m \<noteq> ord_id o1" if "m \<in> set rows" for m using assms(2) that by force
  then show ?thesis using assms(1) by (simp add: map_idI)
qed

context shop_ports
begin

lemma reserveTx_Ok:
  assumes "ok g view" and "db_ok (view s)" and "ord_id o1 = 0"
    and "reserveTx (rp g) (s, (o1, p)) = (Ok u, (s', (o2, p2)))"
  shows "order_placed o1 (view s) (view s') o2 \<and> p2 = p \<and> ord_status o1 = StatusPending"
proof -
  from assms(4) obtain oc s1 s2 where
    create: "orep_Create (rp_Orders (rp g)) (s, o1) = (Ok (), (s1, oc))" and
    loop: "forEach (reserveItem (rp g)) (ord_items oc) s1 = (Ok (), s2)" and
    mark: "Order_MarkReserved oc = (Ok (), o2)" and
    upd: "orep_Update (rp_Orders (rp g)) o2 s2 = (Ok (), s')" and "p2 = p"
    by (auto simp: reserveTx_def step_iffs)
  from Create_order [OF assms(1) create] obtain r where
    r: "inserts orderSchema (db_orders (view s)) (orderToModel o1) r"
    and v1: "view s1 = (view s)\<lparr>db_orders := db_orders (view s) @ [r]\<rparr>"
    and oc: "oc = Order_AssignID (om_ID r) o1"
    by (auto simp: order_created_def)
  have oc': "oc = o1\<lparr>ord_id := om_ID r\<rparr>" using assms(3) by (simp add: oc Order_AssignID_def)
  have d1: "db_ok (view s1)" using db_ok_insert_order [OF assms(2) r] v1 by simp
  from reserveItems [OF assms(1) d1 loop] have
    st: "stock_moved (-1) 1 (moves (ord_items o1)) (view s1) (view s2)"
    and d2: "db_ok (view s2)" and cov: "covers fst (moves (ord_items o1)) (view s1)"
    by (simp_all add: oc')
  from mark have o2: "o2 = reserved_order (om_ID r) o1" and pend: "ord_status o1 = StatusPending"
    by (auto simp: Order_MarkReserved_def oc' reserved_order_def Record_def split: if_splits)
  from Update_order [OF assms(1) upd] have v: "view s' = order_updated o2 (view s2)" .
  have i: "ord_id o2 = om_ID r" by (simp add: o2 reserved_order_def)
  have "db_orders (view s') = db_orders (view s) @ [order_columns o2 r]"
    using order_updated_last [of r o2 "db_orders (view s)"] inserted_order(8) [OF r]
      stock_moved_frame(3) [OF st] v1 i
    by (simp add: v order_updated_def)
  moreover have "db_payments (view s') = db_payments (view s)"
    using stock_moved_frame(4) [OF st] v1 by (simp add: v)
  moreover have "stock_shift (-1) 1 (moves (ord_items o1)) (view s) (view s')"
    using stock_moved_shift [OF st] v1 v by simp
  moreover have "covers fst (moves (ord_items o1)) (view s)" using cov v1 by simp
  moreover have "rest_kept (view s) (view s')" using stock_moved_rest [OF st] v1 v by simp
  ultimately show ?thesis
    using r o2 pend \<open>p2 = p\<close> db_ok_order_updated [OF d2] v unfolding order_placed_def by auto
qed

lemma acceptTx_Ok:
  assumes "ok g view" and "db_ok (view s)"
    and "acceptTx res (rp g) (s, (o1, Some p)) = (Ok u, (s', (o2, q2)))"
  shows "\<exists>p2. q2 = Some p2 \<and> order_settled res o1 p (view s) (view s') o2 p2 \<and>
    pay_status p = PayPending \<and> cres_ProviderRef res \<noteq> '''' \<and> ord_status o1 = StatusReserved"
proof -
  from assms(3) obtain pm pc s1 op s2 where
    mark: "Payment_MarkSucceeded (cres_ProviderRef res) p = (Ok (), pm)" and
    create: "prep_Create (rp_Payments (rp g)) (s, pm) = (Ok (), (s1, pc))" and
    paid: "Order_MarkPaid o1 = (Ok (), op)" and
    loop: "forEach (commitItem (rp g)) (ord_items op) s1 = (Ok (), s2)" and
    fulf: "Order_MarkFulfilled op = (Ok (), o2)" and
    upd: "orep_Update (rp_Orders (rp g)) o2 s2 = (Ok (), s')" and q2: "q2 = Some pc"
    by (auto simp: acceptTx_def step_iffs)
  from mark have pm: "pm = succeeded_payment (cres_ProviderRef res) p"
    and pend: "pay_status p = PayPending" "cres_ProviderRef res \<noteq> ''''"
    by (auto simp: Payment_MarkSucceeded_def succeeded_payment_def Record_def split: if_splits)
  from Create_payment [OF assms(1) create] obtain r where
    r: "inserts paymentSchema (db_payments (view s)) (paymentToModel pm) r"
    and v1: "view s1 = (view s)\<lparr>db_payments := db_payments (view s) @ [r]\<rparr>"
    and pc: "pc = Payment_AssignID (pym_ID r) pm"
    by (auto simp: payment_created_def)
  from paid have op: "op = Record [OrderPaid (ord_id o1)] (o1\<lparr>ord_status := StatusPaid\<rparr>)"
    and res: "ord_status o1 = StatusReserved"
    by (auto simp: Order_MarkPaid_def split: if_splits)
  have items: "ord_items op = ord_items o1" by (simp add: op Record_def)
  from fulf have o2: "o2 = fulfilled_order o1"
    by (auto simp: Order_MarkFulfilled_def op fulfilled_order_def Record_def split: if_splits)
  have d1: "db_ok (view s1)" using db_ok_insert_payment [OF assms(2) r] v1 by simp
  from commitItems [OF assms(1) d1 loop] have
    st: "stock_moved 0 (-1) (moves (ord_items o1)) (view s1) (view s2)"
    and d2: "db_ok (view s2)" and cov: "covers snd (moves (ord_items o1)) (view s1)"
    by (simp_all add: items)
  from Update_order [OF assms(1) upd] have v: "view s' = order_updated o2 (view s2)" .
  have "db_orders (view s2) = db_orders (view s)"
    using stock_moved_frame(3) [OF st] v1 by simp
  then have "db_orders (view s') = db_orders (order_updated o2 (view s))"
    by (simp add: v order_updated_def)
  moreover have "db_payments (view s') = db_payments (view s) @ [r]"
    using stock_moved_frame(4) [OF st] v1 by (simp add: v)
  moreover have "stock_shift 0 (-1) (moves (ord_items o1)) (view s) (view s')"
    using stock_moved_shift [OF st] v1 v by simp
  moreover have "covers snd (moves (ord_items o1)) (view s)" using cov v1 by simp
  moreover have "rest_kept (view s) (view s')" using stock_moved_rest [OF st] v1 v by simp
  ultimately show ?thesis
    using r o2 pend q2 pc pm res db_ok_order_updated [OF d2] v unfolding order_settled_def by auto
qed

lemma declineTx_Ok:
  assumes "ok g view" and "db_ok (view s)"
    and "declineTx e (rp g) (s, (o1, Some p)) = (Ok u, (s', (o2, q2)))"
  shows "\<exists>p2. q2 = Some p2 \<and> order_declined e o1 p (view s) (view s') o2 p2 \<and>
    pay_status p = PayPending \<and> ErrorText e \<noteq> ''''"
proof -
  from assms(3) obtain pm pc s1 s2 where
    mark: "Payment_MarkFailed (ErrorText e) p = (Ok (), pm)" and
    create: "prep_Create (rp_Payments (rp g)) (s, pm) = (Ok (), (s1, pc))" and
    loop: "forEach (releaseItem (rp g)) (ord_items o1) s1 = (Ok (), s2)" and
    failed: "Order_Fail ''payment failed'' o1 = (Ok (), o2)" and
    upd: "orep_Update (rp_Orders (rp g)) o2 s2 = (Ok (), s')" and q2: "q2 = Some pc"
    by (auto simp: declineTx_def step_iffs)
  from mark have pm: "pm = failed_payment (ErrorText e) p"
    and pend: "pay_status p = PayPending" "ErrorText e \<noteq> ''''"
    by (auto simp: Payment_MarkFailed_def failed_payment_def Record_def split: if_splits)
  from Create_payment [OF assms(1) create] obtain r where
    r: "inserts paymentSchema (db_payments (view s)) (paymentToModel pm) r"
    and v1: "view s1 = (view s)\<lparr>db_payments := db_payments (view s) @ [r]\<rparr>"
    and pc: "pc = Payment_AssignID (pym_ID r) pm"
    by (auto simp: payment_created_def)
  from failed have o2: "o2 = failed_order o1"
    by (auto simp: Order_Fail_def failed_order_def Record_def split: if_splits)
  have d1: "db_ok (view s1)" using db_ok_insert_payment [OF assms(2) r] v1 by simp
  from releaseItems [OF assms(1) d1 loop] have
    st: "stock_moved 1 (-1) (moves (ord_items o1)) (view s1) (view s2)"
    and d2: "db_ok (view s2)" and cov: "covers snd (moves (ord_items o1)) (view s1)"
    by simp_all
  from Update_order [OF assms(1) upd] have v: "view s' = order_updated o2 (view s2)" .
  have "db_orders (view s2) = db_orders (view s)"
    using stock_moved_frame(3) [OF st] v1 by simp
  then have "db_orders (view s') = db_orders (order_updated o2 (view s))"
    by (simp add: v order_updated_def)
  moreover have "db_payments (view s') = db_payments (view s) @ [r]"
    using stock_moved_frame(4) [OF st] v1 by (simp add: v)
  moreover have "stock_shift 1 (-1) (moves (ord_items o1)) (view s) (view s')"
    using stock_moved_shift [OF st] v1 v by simp
  moreover have "covers snd (moves (ord_items o1)) (view s)" using cov v1 by simp
  moreover have "rest_kept (view s) (view s')" using stock_moved_rest [OF st] v1 v by simp
  ultimately show ?thesis
    using r o2 pend q2 pc pm db_ok_order_updated [OF d2] v unfolding order_declined_def by auto
qed

end

end
