(* ===== verification/PlaceOrder_Correct.thy ===== *)
theory PlaceOrder_Correct
  imports PlaceOrder_Steps
begin

text \<open>
  What PlaceOrder does as a whole: the charges it makes, and the five ways a run of
  \<open>process\<close> can end, each with its effect on the tables.
\<close>

section \<open>The retry loop\<close>

text \<open>
  A run of charges: the same request every time, each refused but perhaps the last, whose answer
  is the outcome.
\<close>

definition charge_run ::
  "ChargeRequest \<Rightarrow> nat \<Rightarrow> ChargeResult outcome \<Rightarrow> (ChargeRequest \<times> ChargeResult outcome) list \<Rightarrow> bool"
where
  "charge_run req n r new \<longleftrightarrow> new \<noteq> [] \<and> length new \<le> n \<and>
     list_all (\<lambda>(q, _). q = req) new \<and> snd (last new) = r \<and>
     list_all (\<lambda>(_, a). \<exists>e. a = Err e) (butlast new) \<and>
     ((\<exists>e. r = Err e) \<longrightarrow> length new = n)"

lemma charge_run_single: "charge_run req n r [(req, r)] \<longleftrightarrow> 1 \<le> n \<and> ((\<exists>e. r = Err e) \<longrightarrow> n = 1)"
  by (auto simp: charge_run_def)

lemma charge_run_Cons:
  "charge_run req n r new \<Longrightarrow> charge_run req (Suc n) r ((req, Err e) # new)"
  by (auto simp: charge_run_def)

definition attempted :: "nat \<Rightarrow> Payment \<Rightarrow> Payment" where
  "attempted k p = p\<lparr>pay_attempts := pay_attempts p + of_nat k, pay_provider := ''mock''\<rparr>"

lemma RecordAttempt_mock: "snd (Payment_RecordAttempt ''mock'' p) = attempted 1 p"
  by (simp add: Payment_RecordAttempt_def attempted_def)

lemma attempted_attempted: "attempted k (attempted (Suc 0) p) = attempted (Suc k) p"
  by (simp add: attempted_def)

lemma chargeLoop_run:
  assumes "chargeLoop gw backoff req n k pay w = (r, pay', w')" and "0 < n"
  obtains new where "charge_run req n r new" and "w_charges w' = w_charges w @ new"
    and "pay' = attempted (length new) pay"
    and "w_store w' = w_store w" and "w_published w' = w_published w"
  using assms
proof (induction n arbitrary: k pay w thesis)
  case 0
  then show ?case by simp
next
  case (Suc n)
  obtain a w1 where a: "chargeOnce gw req w = (a, w1)" by force
  then have w1: "w_charges w1 = w_charges w @ [(req, a)]" "w_store w1 = w_store w"
    "w_published w1 = w_published w"
    by (auto simp: chargeOnce_def split: prod.splits)
  show ?case
  proof (cases "(\<exists>e. a = Err e) \<and> n \<noteq> 0")
    case False
    with Suc.prems(2) a have "r = a" "pay' = attempted 1 pay" "w' = w1"
      by (auto simp: RecordAttempt_mock Let_def split: outcome.splits)
    with w1 False show ?thesis
      by (intro Suc.prems(1) [of "[(req, a)]"]) (auto simp: charge_run_single)
  next
    case True
    then obtain e where e: "a = Err e" "0 < n" by auto
    define w2 where
      "w2 = (if 0 <s backoff then w1\<lparr>w_slept := w_slept w1 @ [backoff * k]\<rparr> else w1)"
    from Suc.prems(2) a e have
      rest: "chargeLoop gw backoff req n (k + 1) (attempted 1 pay) w2 = (r, pay', w')"
      by (simp add: RecordAttempt_mock Let_def w2_def)
    have w2: "w_charges w2 = w_charges w1" "w_store w2 = w_store w1" "w_published w2 = w_published w1"
      by (simp_all add: w2_def)
    from Suc.IH [OF _ rest e(2)] obtain new where new: "charge_run req n r new"
      "w_charges w' = w_charges w2 @ new" "pay' = attempted (length new) (attempted 1 pay)"
      "w_store w' = w_store w2" "w_published w' = w_published w2"
      by blast
    from new(1) have "0 < length new" by (simp add: charge_run_def)
    with new w1 w2 e show ?thesis
      by (intro Suc.prems(1) [of "(req, a) # new"])
        (auto simp: charge_run_Cons attempted_attempted)
  qed
qed

lemma chargeAttempts_pos: "0 < chargeAttempts m"
  by (auto simp: chargeAttempts_def not_sless_sle word_sle_eq)

section \<open>The five ways to end\<close>

text \<open>Once there is a payment, no step of a transaction loses it.\<close>

definition keeps_payment :: "('s \<times> Vars, unit) prog \<Rightarrow> bool" where
  "keeps_payment m \<longleftrightarrow> (\<forall>s o1 p r s' o2 q. m (s, (o1, Some p)) = (r, (s', (o2, q))) \<longrightarrow> q \<noteq> None)"

lemma keeps_payment_check:
  assumes "keeps_payment m" and "keeps_payment f"
  shows "keeps_payment (check m (\<lambda>_. f))"
proof -
  have "q \<noteq> None" if run: "check m (\<lambda>_. f) (s, (o1, Some p)) = (r, (s', (o2, q)))"
    for s o1 p r s' o2 q
  proof -
    obtain r1 s1 oa pa where m: "m (s, (o1, Some p)) = (r1, (s1, (oa, pa)))" by (metis prod_cases4)
    with assms(1) obtain pb where "pa = Some pb" unfolding keeps_payment_def by blast
    with m run assms(2) show ?thesis
      by (cases r1) (auto simp: keeps_payment_def)
  qed
  then show ?thesis unfolding keeps_payment_def by blast
qed

lemma keeps_payment_steps:
  "keeps_payment (onPayment f)" "keeps_payment (createPayment R)" "keeps_payment (onOrder g)"
  "keeps_payment (forItems l)" "keeps_payment (updateOrder R)"
  by (auto simp: keeps_payment_def onPayment_Ok createPayment_Ok onOrder_Ok forItems_Ok updateOrder_Ok)

lemma keeps_payment_settling: "keeps_payment (acceptTx res R)" "keeps_payment (declineTx e R)"
  unfolding acceptTx_def declineTx_def by (intro keeps_payment_check keeps_payment_steps)+

text \<open>The request of an order's charges, and the payment made for it.\<close>

definition order_charge :: "Order \<Rightarrow> ChargeRequest" where
  "order_charge o1 = \<lparr>cr_IdempotencyKey = ord_idempotencyKey o1, cr_Amount = ord_total o1\<rparr>"

definition order_payment :: "time \<Rightarrow> Order \<Rightarrow> Payment outcome" where
  "order_payment now o1 = NewPayment now (ord_id o1) (ord_idempotencyKey o1) (ord_total o1)"

definition charges_made :: "('s, 'g) PlaceOrder \<Rightarrow> Order \<Rightarrow> ChargeResult outcome \<Rightarrow> nat
    \<Rightarrow> ('s, 'g) World \<Rightarrow> ('s, 'g) World \<Rightarrow> bool" where
  "charges_made h o1 r k w w' \<longleftrightarrow> (\<exists>new. w_charges w' = w_charges w @ new \<and> length new = k \<and>
     charge_run (order_charge o1) (chargeAttempts (po_maxAttempts h)) r new)"

locale place_ports = shop_ports ok rp uok uow
  for ok :: "'g \<Rightarrow> ('s \<Rightarrow> DB) \<Rightarrow> bool" and rp :: "'g \<Rightarrow> 's RepositoryProvider"
    and uok :: "'c \<Rightarrow> ('s \<Rightarrow> DB) \<Rightarrow> bool" and uow :: "'c \<Rightarrow> 's Uow"
begin

lemma runTx_cases:
  assumes "uok c view" and "runTx (uow c F) o1 p w = (r, o2, p2, w')"
  obtains (committed) g s0 s1 where "ok g view" and "view s0 = view (w_store w)"
      and "F (rp g) (s0, (o1, p)) = (Ok (), (s1, (o2, p2)))" and "r = Ok ()"
      and "view (w_store w') = view s1"
      and "w_charges w' = w_charges w" and "w_published w' = w_published w"
  | (rolled_back) "\<not> is_Ok r" and "view (w_store w') = view (w_store w)"
      and "w_charges w' = w_charges w" and "w_published w' = w_published w"
proof -
  from Do_transaction [OF assms(1)] obtain g txn where
    g: "ok g view" "transactional view txn" "uow c F = txn (F (rp g))" by blast
  obtain s' where run: "txn (F (rp g)) (w_store w, (o1, p)) = (r, (s', (o2, p2)))"
    and w': "w' = w\<lparr>w_store := s'\<rparr>"
    using assms(2) g(3) by (auto simp: runTx_def split: prod.splits)
  from g(2) run show ?thesis
    by (cases rule: transactional_cases) (use g(1) w' in \<open>auto intro: committed rolled_back\<close>)
qed

lemma runTx_payment:
  assumes "uok c view" and "\<And>R. keeps_payment (F R)"
    and "runTx (uow c F) o1 (Some p) w = (r, o2, q, w')"
  shows "q \<noteq> None"
proof -
  from Do_transaction [OF assms(1)] obtain g txn where
    g: "transactional view txn" "uow c F = txn (F (rp g))" by blast
  obtain s' where run: "txn (F (rp g)) (w_store w, (o1, Some p)) = (r, (s', (o2, q)))"
    using assms(3) g(2) by (auto simp: runTx_def split: prod.splits)
  from g(1) run show ?thesis
    by (cases rule: transactional_captured) (use assms(2) in \<open>auto simp: keeps_payment_def\<close>)
qed

lemma settle_cases:
  assumes "uok c view" and "po_uow h = uow c" and "db_ok (view (w_store w))"
    and "settle h a o1 p w = (r, o', pay, w')"
  obtains (accepted) res p2 where "a = Ok res" and "r = Ok ()" and "pay = Some p2"
      and "order_settled res o1 p (view (w_store w)) (view (w_store w')) o' p2"
      and "w_charges w' = w_charges w" and "w_published w' = w_published w"
  | (refused) e p2 where "a = Err e" and "r = Err (payment_failed e)" and "pay = Some p2"
      and "order_declined e o1 p (view (w_store w)) (view (w_store w')) o' p2"
      and "w_charges w' = w_charges w" and "w_published w' = w_published w"
  | (rolled_back) "\<not> is_Ok r" and "pay \<noteq> None" and "view (w_store w') = view (w_store w)"
      and "w_charges w' = w_charges w" and "w_published w' = w_published w"
proof (cases a)
  case (Ok res)
  with assms(4) have run: "runTx (uow c (acceptTx res)) o1 (Some p) w = (r, o', pay, w')"
    by (simp add: settle_def assms(2))
  from assms(1) run show ?thesis
  proof (cases rule: runTx_cases)
    case (committed g s0 s1)
    from acceptTx_Ok [OF committed(1) _ committed(3)] committed(2,5) assms(3)
    obtain p2 where p2: "pay = Some p2"
      "order_settled res o1 p (view (w_store w)) (view (w_store w')) o' p2" by auto
    show ?thesis by (rule accepted [OF Ok committed(4) p2 committed(6,7)])
  next
    case rb: rolled_back
    show ?thesis
      by (rule rolled_back [OF rb(1) runTx_payment [OF assms(1) keeps_payment_settling(1) run] rb(2-4)])
  qed
next
  case (Err e)
  obtain r0 where run: "runTx (uow c (declineTx e)) o1 (Some p) w = (r0, o', pay, w')"
    and r: "r = (if is_Ok r0 then Err (payment_failed e) else r0)"
  proof -
    obtain r0 oa pa wa where run: "runTx (uow c (declineTx e)) o1 (Some p) w = (r0, oa, pa, wa)"
      by (metis prod_cases4)
    with assms(4) Err have "oa = o' \<and> pa = pay \<and> wa = w' \<and> r = (if is_Ok r0 then Err (payment_failed e) else r0)"
      by (cases r0) (auto simp: settle_def assms(2))
    with run that show ?thesis by blast
  qed
  from assms(1) run show ?thesis
  proof (cases rule: runTx_cases)
    case (committed g s0 s1)
    from declineTx_Ok [OF committed(1) _ committed(3)] committed(2,5) assms(3)
    obtain p2 where p2: "pay = Some p2"
      "order_declined e o1 p (view (w_store w)) (view (w_store w')) o' p2" by auto
    have "r = Err (payment_failed e)" using r committed(4) by simp
    from refused [OF Err this p2 committed(6,7)] show ?thesis .
  next
    case rb: rolled_back
    have "\<not> is_Ok r" using r rb(1) by simp
    from rolled_back [OF this runTx_payment [OF assms(1) keeps_payment_settling(2) run] rb(2-4)]
    show ?thesis .
  qed
next
  case (Panic q)
  with assms(4) show ?thesis by (intro rolled_back) (auto simp: settle_def)
qed

lemma process_cases:
  assumes "uok c view" and "po_uow h = uow c" and "db_ok (view (w_store w))" and "ord_id o1 = 0"
    and "PlaceOrder_process h now o1 w = (r, o', pay, w')"
  obtains (not_reserved) "\<not> is_Ok r" and "pay = None" and "view (w_store w') = view (w_store w)"
      and "w_charges w' = w_charges w" and "w_published w' = w_published w"
  | (no_payment) e where "r = Err e" and "pay = None"
      and "order_placed o1 (view (w_store w)) (view (w_store w')) o'"
      and "order_payment now o' = Err e"
      and "w_charges w' = w_charges w" and "w_published w' = w_published w"
  | (settled) o2 d p res k p2 where "r = Ok ()" and "pay = Some p2"
      and "order_placed o1 (view (w_store w)) d o2" and "order_payment now o2 = Ok p"
      and "charges_made h o2 (Ok res) k w w'"
      and "order_settled res o2 (attempted k p) d (view (w_store w')) o' p2"
      and "w_published w' = w_published w"
  | (declined) o2 d p e k p2 where "r = Err (payment_failed e)" and "pay = Some p2"
      and "order_placed o1 (view (w_store w)) d o2" and "order_payment now o2 = Ok p"
      and "charges_made h o2 (Err e) k w w'"
      and "order_declined e o2 (attempted k p) d (view (w_store w')) o' p2"
      and "w_published w' = w_published w"
  | (unsettled) o2 p a k where "\<not> is_Ok r" and "pay \<noteq> None"
      and "order_placed o1 (view (w_store w)) (view (w_store w')) o2"
      and "order_payment now o2 = Ok p" and "charges_made h o2 a k w w'"
      and "w_published w' = w_published w"
proof -
  obtain r1 o2 p1 w1 where t1: "runTx (po_uow h reserveTx) o1 None w = (r1, o2, p1, w1)"
    by (metis prod_cases4)
  from assms(1) t1 [unfolded assms(2)] show ?thesis
  proof (cases rule: runTx_cases)
    case rolled_back
    with rolled_back t1 assms(5) show ?thesis
      by (cases r1) (auto simp: PlaceOrder_process_def intro: not_reserved)
  next
    case (committed g s0 s1)
    from reserveTx_Ok [OF committed(1) _ assms(4) committed(3)] assms(3) committed(2)
    have placed: "order_placed o1 (view (w_store w)) (view (w_store w1)) o2"
      by (simp add: committed(5))
    then have d1: "db_ok (view (w_store w1))" by (auto simp: order_placed_def)
    note w1 = committed(6,7)
    show ?thesis
    proof (cases "order_payment now o2")
      case (Err e)
      with t1 committed(4) assms(5) placed w1 show ?thesis
        by (intro no_payment) (auto simp: PlaceOrder_process_def order_payment_def)
    next
      case (Panic q)
      then show ?thesis by (simp add: order_payment_def)
    next
      case (Ok p)
      obtain a pa w2 where loop: "chargeLoop (po_gateway h) (po_retryBackoff h) (order_charge o2)
          (chargeAttempts (po_maxAttempts h)) 1 p w1 = (a, pa, w2)"
        by (metis prod_cases3)
      with Ok t1 committed(4) assms(5) have st: "settle h a o2 pa w2 = (r, o', pay, w')"
        by (simp add: PlaceOrder_process_def order_payment_def order_charge_def)
      from chargeLoop_run [OF loop chargeAttempts_pos] obtain new where
        new: "charge_run (order_charge o2) (chargeAttempts (po_maxAttempts h)) a new"
          "w_charges w2 = w_charges w @ new" "pa = attempted (length new) p"
          "w_store w2 = w_store w1" "w_published w2 = w_published w"
        using w1 by metis
      let ?k = "length new"
      have d2: "db_ok (view (w_store w2))" using d1 new(4) by simp
      have made: "charges_made h o2 a ?k w w'" if "w_charges w' = w_charges w2"
        using new(1,2) that by (auto simp: charges_made_def)
      from assms(1,2) d2 st show ?thesis
      proof (cases rule: settle_cases)
        case (accepted res p2)
        then show ?thesis
          using settled [OF accepted(2,3) placed Ok] made new(3-5) by simp
      next
        case (refused e p2)
        then show ?thesis
          using declined [OF refused(2,3) placed Ok] made new(3-5) by simp
      next
        case rolled_back
        then show ?thesis
          using unsettled [OF rolled_back(1,2) _ Ok made] placed new(4,5) by simp
      qed
    qed
  qed
qed

end

section \<open>The command\<close>

text \<open>An item built for a line of the request: priced by the catalogue, and on sale.\<close>

definition priced :: "DB \<Rightarrow> PlaceOrderItem \<Rightarrow> Item \<Rightarrow> bool" where
  "priced d line item \<longleftrightarrow> item_productID item = poi_ProductID line \<and>
     item_quantity item = poi_Quantity line \<and> 0 <s poi_Quantity line \<and>
     valid_money (item_unitPrice item) \<and>
     (\<exists>m \<in> set (db_products d). pm_ID m = poi_ProductID line \<and> pm_Active m \<and>
        item_sku item = pm_SKU m \<and> item_name item = pm_Name m \<and>
        item_unitPrice item = \<lparr>m_amount = pm_PriceAmount m, m_currency = pm_Currency m\<rparr>)"

lemma mapEach_reads:
  assumes "\<And>x s r s'. f x s = (r, s') \<Longrightarrow> view s' = view s"
    and "mapEach f xs s = (r, s')"
  shows "view s' = view s"
  using assms(2)
proof (induction xs arbitrary: s r s')
  case Nil
  then show ?case by simp
next
  case (Cons x xs)
  obtain r1 s1 where x: "f x s = (r1, s1)" by force
  note v1 = assms(1) [OF x]
  show ?case
  proof (cases r1)
    case (Ok y)
    obtain r2 s2 where xs: "mapEach f xs s1 = (r2, s2)" by force
    from Cons.IH [OF xs] v1 x xs Ok Cons.prems show ?thesis by (cases r2) auto
  qed (use x v1 Cons.prems in auto)
qed

lemma mapEach_all:
  assumes step: "\<And>x s y s'. view s = d \<Longrightarrow> f x s = (Ok y, s') \<Longrightarrow> view s' = d \<and> R x y"
    and "view s = d" and "mapEach f xs s = (Ok ys, s')"
  shows "list_all2 R xs ys"
  using assms(2,3)
proof (induction xs arbitrary: s ys)
  case Nil
  then show ?case by simp
next
  case (Cons x xs)
  from Cons.prems(2) obtain y s1 zs where
    y: "f x s = (Ok y, s1)" "mapEach f xs s1 = (Ok zs, s')" "ys = y # zs"
    by (auto simp: check_Ok_iff)
  from step [OF Cons.prems(1) y(1)] Cons.IH [OF _ y(2)] y(3) show ?case by simp
qed

context shop_ports
begin

lemma buildItem_reads:
  assumes "ok g view" and "buildItem (rp g) line s = (r, s')"
  shows "view s' = view s"
proof -
  obtain r0 s0 where f: "drep_FindByID (rp_Products (rp g)) (poi_ProductID line) s = (r0, s0)" by force
  from Find_product_reads [OF assms(1) f] f assms(2) show ?thesis
    by (cases r0) (auto simp: buildItem_def split: if_splits)
qed

lemma buildItem_Ok:
  assumes "ok g view" and "buildItem (rp g) line s = (Ok item, s')"
  shows "view s' = view s \<and> priced (view s) line item"
proof -
  from assms(2) obtain p where
    f: "drep_FindByID (rp_Products (rp g)) (poi_ProductID line) s = (Ok p, s')"
    and act: "prod_active p"
    and item: "NewItem (prod_id p) (prod_sku p) (prod_name p) (prod_price p) (poi_Quantity line) = Ok item"
    by (auto simp: buildItem_def check_Ok_iff split: if_splits)
  from Find_product [OF assms(1) f] obtain m where
    m: "m \<in> set (db_products (view s))" "pm_ID m = poi_ProductID line" "productToDomain m = Ok p"
    by auto
  from m(3) have p: "prod_id p = pm_ID m" "prod_sku p = pm_SKU m" "prod_name p = pm_Name m"
    "prod_active p = pm_Active m" "valid_money (prod_price p)"
    "prod_price p = \<lparr>m_amount = pm_PriceAmount m, m_currency = pm_Currency m\<rparr>"
    by (auto simp: productToDomain_def checkR_Ok_iff MustMoney_Ok_iff ReconstituteProduct_def)
  from item have "item = \<lparr>item_productID = prod_id p, item_sku = prod_sku p, item_name = prod_name p,
      item_unitPrice = prod_price p, item_quantity = poi_Quantity line\<rparr>" "0 <s poi_Quantity line"
    by (auto simp: NewItem_def not_sle_sless split: if_splits)
  with m p act Find_product_reads [OF assms(1) f] show ?thesis
    unfolding priced_def by (intro conjI bexI [of _ m]) simp_all
qed

end

text \<open>How a call of the handler can go.\<close>

definition untouched :: "('s \<Rightarrow> DB) \<Rightarrow> ('s, 'g) World \<Rightarrow> ('s, 'g) World \<Rightarrow> bool" where
  "untouched view w w' \<longleftrightarrow> view (w_store w') = view (w_store w) \<and>
     w_charges w' = w_charges w \<and> w_published w' = w_published w"

context place_ports
begin

lemma Handle_cases:
  assumes "ok g view" and "po_reads h = rp g"
    and "PlaceOrder_Handle h t1 t2 inp w = (res, w')"
  obtains (existing) o1 where "res = Ok o1" and "untouched view w w'"
      and "\<exists>m \<in> set (db_orders (view (w_store w))).
             om_IdempotencyKey m = poin_IdempotencyKey inp \<and> orderToDomain m = Ok o1"
  | (rejected) "\<not> is_Ok res" and "untouched view w w'"
  | (processed) items o1 w1 r o2 pay w2 where
      "list_all2 (priced (view (w_store w))) (poin_Items inp) items"
      and "NewOrder t1 (poin_UserID inp) items (poin_IdempotencyKey inp) = Ok o1"
      and "untouched view w w1" and "po_submit h = None"
      and "PlaceOrder_process h t2 o1 w1 = (r, o2, pay, w2)"
      and "res = checkR r (\<lambda>_. Ok (o2\<lparr>pending := []\<rparr>))"
      and "w' = (if \<exists>p. r = Panic p then w2 else publish (pulled o2 pay) w2)"
proof -
  obtain fr s1 where find: "orep_FindByIdempotencyKey (rp_Orders (rp g)) (poin_IdempotencyKey inp)
      (w_store w) = (fr, s1)" by force
  note v1 = Find_order_key_reads [OF assms(1) find]
  show ?thesis
  proof (cases fr)
    case (Ok o1)
    with find assms(2,3) have "res = Ok o1" "w' = w\<lparr>w_store := s1\<rparr>"
      by (auto simp: PlaceOrder_Handle_def)
    with existing v1 Find_order_key [OF assms(1) find [unfolded Ok]] show ?thesis
      by (simp add: untouched_def)
  next
    case (Panic p)
    with find assms(2,3) v1 show ?thesis
      by (intro rejected) (auto simp: PlaceOrder_Handle_def untouched_def)
  next
    case (Err e)
    obtain ir s2 where loop: "mapEach (buildItem (rp g)) (poin_Items inp) s1 = (ir, s2)" by force
    have v2: "view s2 = view (w_store w)"
      using mapEach_reads [where view = view, OF _ loop] buildItem_reads [OF assms(1)] v1 by metis
    let ?w = "w\<lparr>w_store := s2\<rparr>"
    have same: "untouched view w ?w" using v2 by (simp add: untouched_def)
    show ?thesis
    proof (cases "is_Ok ir")
      case False
      with find Err loop assms(2,3) same show ?thesis
        by (intro rejected) (auto simp: PlaceOrder_Handle_def split: outcome.splits)
    next
      case True
      then obtain items where items: "ir = Ok items" by (auto simp: is_Ok_iff)
      have priced: "list_all2 (priced (view (w_store w))) (poin_Items inp) items"
        by (rule mapEach_all [where view = view and d = "view (w_store w)", OF _ v1 loop [unfolded items]])
          (use buildItem_Ok [OF assms(1)] in metis)
      show ?thesis
      proof (cases "NewOrder t1 (poin_UserID inp) items (poin_IdempotencyKey inp)")
        case (Ok o1)
        with find Err loop items assms(2,3) have sub: "submitOrder h t2 o1 ?w = (res, w')"
          by (auto simp: PlaceOrder_Handle_def)
        show ?thesis
        proof (cases "po_submit h")
          case (Some e)
          with sub same show ?thesis by (intro rejected) (auto simp: submitOrder_def)
        next
          case None
          obtain r o2 pay w2 where run: "PlaceOrder_process h t2 o1 ?w = (r, o2, pay, w2)"
            by (metis prod_cases4)
          have "res = checkR r (\<lambda>_. Ok (o2\<lparr>pending := []\<rparr>))"
            "w' = (if \<exists>p. r = Panic p then w2 else publish (pulled o2 pay) w2)"
            using sub run None by (cases r; auto simp: submitOrder_def Let_def)+
          with processed [OF priced Ok same None run] show ?thesis by blast
        qed
      next
        case new: (Err e2)
        have "res = Err e2" "w' = ?w"
          using find Err loop items new assms(2,3) by (simp_all add: PlaceOrder_Handle_def)
        with same show ?thesis by (intro rejected) simp_all
      next
        case (Panic p)
        then show ?thesis using NewOrder_no_panic by blast
      qed
    qed
  qed
qed

end

interpretation placing: place_ports gorm_ok NewRepositories uow_ok unitOfWork_Do
  by unfold_locales

end
