(* ===== verification/MemDB.thy ===== *)
theory MemDB
  imports Gorm
begin

text \<open>
  A reference database: tables in memory with serial transactions. No code of the repository
  does this; it shows that the hypotheses on the driver (\<open>gorm_ok\<close>, \<open>transactional\<close>) can be
  met, and it is the concrete driver on which the witnesses run the commands.
\<close>

definition duplicate_key :: goerror where
  "duplicate_key = Plain ''duplicate key value violates unique constraint''"

definition out_of_range :: goerror where
  "out_of_range = Plain ''bigint out of range''"

definition missing_where :: goerror where
  "missing_where = Plain ''WHERE conditions required''"

text \<open>The first positive number that no row has as its key.\<close>

fun fresh_from :: "nat \<Rightarrow> nat \<Rightarrow> uint64 list \<Rightarrow> uint64" where
  "fresh_from 0 k ids = 0"
| "fresh_from (Suc n) k ids =
     (let i = of_nat (Suc k) in if i \<in> set ids \<or> i = 0 then fresh_from n (Suc k) ids else i)"

definition fresh :: "uint64 list \<Rightarrow> uint64" where
  "fresh ids = fresh_from (Suc (length ids)) 0 ids"

definition mem_insert :: "'r Schema \<Rightarrow> (uint64 \<Rightarrow> 'r \<Rightarrow> 'r) \<Rightarrow> 'r list \<Rightarrow> 'r \<Rightarrow> 'r option" where
  "mem_insert S fill rows r =
     (let i = (if sc_id S r = 0 then fresh (map (sc_id S) rows) else sc_id S r); r' = fill i r
      in if sc_stored S r r' \<and> sc_id S r' \<noteq> 0 \<and>
            list_all (\<lambda>x. sc_id S r' \<noteq> sc_id S x \<and> \<not> sc_clash S x r') rows
         then Some r' else None)"

definition mem_table ::
  "'r Schema \<Rightarrow> (uint64 \<Rightarrow> 'r \<Rightarrow> 'r) \<Rightarrow> (DB \<Rightarrow> 'r list) \<Rightarrow> ('r list \<Rightarrow> DB \<Rightarrow> DB) \<Rightarrow> (DB, 'r) Table"
where
  "mem_table S fill rows put = \<lparr>
     tbl_Create = (\<lambda>r d. case mem_insert S fill (rows d) r of
        Some r' \<Rightarrow> (Ok r', put (rows d @ [r']) d)
      | None \<Rightarrow> (Err duplicate_key, d)),
     tbl_Save = (\<lambda>r d.
        if sc_id S r \<noteq> 0 \<and> list_ex (\<lambda>x. sc_id S x = sc_id S r) (rows d)
        then (if list_all (\<lambda>x. sc_id S x \<noteq> sc_id S r \<longrightarrow> \<not> sc_clash S x r \<and> \<not> sc_clash S r x) (rows d)
              then (Ok (), put (replace_row S r (rows d)) d) else (Err duplicate_key, d))
        else (case mem_insert S fill (rows d) r of
           Some r' \<Rightarrow> (Ok (), put (rows d @ [r']) d)
         | None \<Rightarrow> (Err duplicate_key, d))),
     tbl_First = (\<lambda>P d. case find P (rows d) of
        Some r \<Rightarrow> (Ok r, d) | None \<Rightarrow> (Err ErrRecordNotFound, d)),
     tbl_Find = (\<lambda>P d. (Ok (filter P (rows d)), d)),
     tbl_Page = (\<lambda>P off lim d.
        (Ok (take (nat (sint lim)) (drop (nat (sint off)) (filter P (rows d)))), d)),
     tbl_Count = (\<lambda>P d. (Ok (of_nat (length (filter P (rows d)))), d)),
     tbl_Updates = (\<lambda>P f d. if list_all (\<lambda>x. P x \<longrightarrow> f x \<noteq> None) (rows d)
        then (Ok (of_nat (length (filter P (rows d)))), put (update_rows P f (rows d)) d)
        else (Err out_of_range, d)),
     tbl_UpdatesByID = (\<lambda>i f d. if i = 0 then (Err missing_where, d)
        else if list_all (\<lambda>x. sc_id S x = i \<longrightarrow> f x \<noteq> None) (rows d)
        then (Ok (of_nat (length (filter (\<lambda>x. sc_id S x = i) (rows d)))),
              put (update_rows (\<lambda>x. sc_id S x = i) f (rows d)) d)
        else (Err out_of_range, d))\<rparr>"

definition fill_item :: "uint64 \<Rightarrow> OrderItemModel \<Rightarrow> OrderItemModel" where
  "fill_item oid r = r\<lparr>oim_ID := (if oim_ID r = 0 then 1 else oim_ID r), oim_OrderID := oid,
     oim_Currency := filled_string ''USD'' (oim_Currency r)\<rparr>"

definition fill_user :: "uint64 \<Rightarrow> UserModel \<Rightarrow> UserModel" where
  "fill_user i r = r\<lparr>um_ID := i, um_Role := filled_string ''customer'' (um_Role r)\<rparr>"

definition fill_product :: "uint64 \<Rightarrow> ProductModel \<Rightarrow> ProductModel" where
  "fill_product i r = r\<lparr>pm_ID := i, pm_Currency := filled_string ''USD'' (pm_Currency r),
     pm_Active := True\<rparr>"

definition fill_order :: "uint64 \<Rightarrow> OrderModel \<Rightarrow> OrderModel" where
  "fill_order i r = r\<lparr>om_ID := i, om_Items := map (fill_item i) (om_Items r),
     om_Currency := filled_string ''USD'' (om_Currency r)\<rparr>"

definition fill_payment :: "uint64 \<Rightarrow> PaymentModel \<Rightarrow> PaymentModel" where
  "fill_payment i r = r\<lparr>pym_ID := i, pym_Currency := filled_string ''USD'' (pym_Currency r)\<rparr>"

definition memGorm :: "DB Gorm" where
  "memGorm = \<lparr>
     g_users = mem_table userSchema fill_user db_users put_users,
     g_products = mem_table productSchema fill_product db_products put_products,
     g_inventories = mem_table inventorySchema (\<lambda>i r. r\<lparr>im_ID := i\<rparr>) db_inventories put_inventories,
     g_orders = mem_table orderSchema fill_order db_orders put_orders,
     g_payments = mem_table paymentSchema fill_payment db_payments put_payments,
     g_notifications = mem_table notificationSchema (\<lambda>i r. r\<lparr>nm_ID := i\<rparr>)
       db_notifications put_notifications,
     g_audit_logs = mem_table auditSchema (\<lambda>i r. r\<lparr>am_ID := i\<rparr>) db_audit_logs put_audit_logs\<rparr>"

definition memTransaction :: "(DB, 'h) Transaction" where
  "memTransaction fn dh = (case fn dh of
      (Ok u, dh') \<Rightarrow> (Ok (), dh')
    | (r, (d', h')) \<Rightarrow> (r, (fst dh, h')))"

section \<open>It meets the hypotheses\<close>

lemma mem_insert_inserts: "mem_insert S fill rows r = Some r' \<Longrightarrow> inserts S rows r r'"
  by (auto simp: mem_insert_def inserts_def Let_def list_all_iff split: if_splits)

lemma mem_table_ok: "table_ok S id rows put (mem_table S fill rows put)"
proof -
  let ?T = "mem_table S fill rows put"
  have "writes id s (tbl_Create ?T r s) (\<lambda>r' d. inserts S (rows (id s)) r r' \<and>
      d = put (rows (id s) @ [r']) (id s))" for r s
    by (auto simp: writes_def mem_table_def mem_insert_inserts split: option.splits)
  moreover have "writes id s (tbl_Save ?T r s) (\<lambda>_ d. \<exists>rs. saves S (rows (id s)) r rs \<and>
      d = put rs (id s))" for r s
    by (auto simp: writes_def mem_table_def saves_def list_all_iff list_ex_iff
        dest: mem_insert_inserts split: option.splits)
  moreover have "reads_only id s (tbl_First ?T P s) (\<lambda>r. r \<in> set (rows (id s)) \<and> P r)" for P s
    by (auto simp: reads_only_def mem_table_def dest: find_SomeD split: option.splits)
  moreover have "fst (tbl_First ?T P s) = Err e \<Longrightarrow> list_all (\<lambda>r. \<not> P r) (rows (id s))" for P s e
    by (auto simp: mem_table_def list_all_iff find_None_iff split: option.splits)
  moreover have "reads_only id s (tbl_Find ?T P s)
      (\<lambda>rs. mset rs = mset (filter P (rows (id s))))" for P s
    by (simp add: reads_only_def mem_table_def)
  moreover have "reads_only id s (tbl_Page ?T P off lim s)
      (\<lambda>rs. \<exists>ordered. mset ordered = mset (filter P (rows (id s))) \<and>
         rs = take (nat (sint lim)) (drop (nat (sint off)) ordered))" for P off lim s
    by (simp add: reads_only_def mem_table_def) (metis mset_filter)
  moreover have "reads_only id s (tbl_Count ?T P s)
      (\<lambda>n. n = of_nat (length (filter P (rows (id s)))))" for P s
    by (simp add: reads_only_def mem_table_def)
  moreover have "writes id s (tbl_Updates ?T P f s) (\<lambda>n d. updates_ok P f (rows (id s)) n \<and>
      d = put (update_rows P f (rows (id s))) (id s))" for P f s
    by (auto simp: writes_def mem_table_def updates_ok_def list_all_iff)
  moreover have "writes id s (tbl_UpdatesByID ?T i f s) (\<lambda>n d. i \<noteq> 0 \<and>
      updates_ok (\<lambda>x. sc_id S x = i) f (rows (id s)) n \<and>
      d = put (update_rows (\<lambda>x. sc_id S x = i) f (rows (id s))) (id s))" for i f s
    by (auto simp: writes_def mem_table_def updates_ok_def list_all_iff)
  ultimately show ?thesis unfolding table_ok_def by simp
qed

lemma memGorm_ok: "gorm_ok memGorm id"
  by (simp add: gorm_ok_def memGorm_def mem_table_ok)

lemma memTransaction_ok: "transactional id memTransaction"
  by (auto simp: transactional_def memTransaction_def split: prod.splits outcome.splits)

section \<open>Running it\<close>

named_theorems mem_eval \<open>rewrite rules that run a program on the reference database\<close>

lemma memGorm_tables [mem_eval]:
  "g_users memGorm = mem_table userSchema fill_user db_users put_users"
  "g_products memGorm = mem_table productSchema fill_product db_products put_products"
  "g_inventories memGorm =
     mem_table inventorySchema (\<lambda>i r. r\<lparr>im_ID := i\<rparr>) db_inventories put_inventories"
  "g_orders memGorm = mem_table orderSchema fill_order db_orders put_orders"
  "g_payments memGorm = mem_table paymentSchema fill_payment db_payments put_payments"
  "g_notifications memGorm =
     mem_table notificationSchema (\<lambda>i r. r\<lparr>nm_ID := i\<rparr>) db_notifications put_notifications"
  "g_audit_logs memGorm = mem_table auditSchema (\<lambda>i r. r\<lparr>am_ID := i\<rparr>) db_audit_logs put_audit_logs"
  by (simp_all add: memGorm_def)

lemma mem_table_ops [mem_eval]:
  "tbl_Create (mem_table S fill rows put) r d = (case mem_insert S fill (rows d) r of
      Some r' \<Rightarrow> (Ok r', put (rows d @ [r']) d) | None \<Rightarrow> (Err duplicate_key, d))"
  "tbl_Save (mem_table S fill rows put) r d =
     (if sc_id S r \<noteq> 0 \<and> list_ex (\<lambda>x. sc_id S x = sc_id S r) (rows d)
      then (if list_all (\<lambda>x. sc_id S x \<noteq> sc_id S r \<longrightarrow> \<not> sc_clash S x r \<and> \<not> sc_clash S r x) (rows d)
            then (Ok (), put (replace_row S r (rows d)) d) else (Err duplicate_key, d))
      else (case mem_insert S fill (rows d) r of
         Some r' \<Rightarrow> (Ok (), put (rows d @ [r']) d) | None \<Rightarrow> (Err duplicate_key, d)))"
  "tbl_First (mem_table S fill rows put) P d = (case find P (rows d) of
      Some r \<Rightarrow> (Ok r, d) | None \<Rightarrow> (Err ErrRecordNotFound, d))"
  "tbl_Find (mem_table S fill rows put) P d = (Ok (filter P (rows d)), d)"
  "tbl_Page (mem_table S fill rows put) P off lim d =
     (Ok (take (nat (sint lim)) (drop (nat (sint off)) (filter P (rows d)))), d)"
  "tbl_Count (mem_table S fill rows put) P d = (Ok (of_nat (length (filter P (rows d)))), d)"
  "tbl_Updates (mem_table S fill rows put) P f d =
     (if list_all (\<lambda>x. P x \<longrightarrow> f x \<noteq> None) (rows d)
      then (Ok (of_nat (length (filter P (rows d)))), put (update_rows P f (rows d)) d)
      else (Err out_of_range, d))"
  "tbl_UpdatesByID (mem_table S fill rows put) i f d =
     (if i = 0 then (Err missing_where, d)
      else if list_all (\<lambda>x. sc_id S x = i \<longrightarrow> f x \<noteq> None) (rows d)
      then (Ok (of_nat (length (filter (\<lambda>x. sc_id S x = i) (rows d)))),
            put (update_rows (\<lambda>x. sc_id S x = i) f (rows d)) d)
      else (Err out_of_range, d))"
  by (simp_all add: mem_table_def)

lemmas [mem_eval] = mem_insert_def fresh_def fill_user_def fill_product_def fill_order_def
  fill_payment_def fill_item_def filled_string_def filled_id_def filled_time_def stored_item_def
  schema_defs update_rows_def replace_row_def memTransaction_def orNotFound_def check_def
  ErrRecordNotFound_def sql_add_def sql_sub_def in_int64_def word_sle_eq word_sless_alt

end
