(* ===== verification/Examples.thy ===== *)
theory Examples
  imports PlaceOrder_Correct MemDB
begin

text \<open>
  Concrete databases, providers and requests: the inputs on which the witnesses apply the
  properties, over the reference database of MemDB.
\<close>

definition demo_product :: ProductModel where
  "demo_product = \<lparr>pm_ID = 7, pm_SKU = ''KB'', pm_Name = ''Keyboard'', pm_Description = '''',
     pm_PriceAmount = 250, pm_Currency = ''USD'', pm_Active = True, pm_CreatedAt = 0\<rparr>"

definition demo_stock :: InventoryModel where
  "demo_stock = \<lparr>im_ID = 1, im_ProductID = 7, im_Available = 5, im_Reserved = 0,
     im_ReorderLevel = 1, im_Version = 0, im_CreatedAt = 0\<rparr>"

definition demo_db :: DB where
  "demo_db = \<lparr>db_users = [], db_products = [demo_product], db_inventories = [demo_stock],
     db_orders = [], db_payments = [], db_notifications = [], db_audit_logs = []\<rparr>"

definition accepting :: "nat PaymentGateway" where
  "accepting req n = (Ok \<lparr>cres_Provider = ''mock'', cres_ProviderRef = ''ref''\<rparr>, n + 1)"

definition declining :: "nat PaymentGateway" where
  "declining req n = (Err (PaymentFailedErr ''payment.declined'' ''declined''), n + 1)"

text \<open>A provider that refuses its first charge.\<close>

definition flaky :: "nat PaymentGateway" where
  "flaky req n = (if n = 0 then declining req n else accepting req n)"

definition memUow :: "DB Uow" where
  "memUow = unitOfWork_Do (memGorm, memTransaction)"

definition demo_handler :: "nat PaymentGateway \<Rightarrow> (DB, nat) PlaceOrder" where
  "demo_handler gw = \<lparr>po_uow = memUow, po_reads = NewRepositories memGorm, po_gateway = gw,
     po_submit = None, po_maxAttempts = 3, po_retryBackoff = 10\<rparr>"

definition demo_world :: "DB \<Rightarrow> (DB, nat) World" where
  "demo_world d = \<lparr>w_store = d, w_gateway = 0, w_charges = [], w_slept = [], w_published = []\<rparr>"

definition demo_input :: PlaceOrderInput where
  "demo_input = \<lparr>poin_UserID = 3, poin_IdempotencyKey = ''k1'',
     poin_Items = [\<lparr>poi_ProductID = 7, poi_Quantity = 2\<rparr>]\<rparr>"

section \<open>Running the examples\<close>

lemma chargeLoop_numeral:
  "chargeLoop gw backoff req (numeral k) attempt pay w =
     (let pay' = snd (Payment_RecordAttempt ''mock'' pay);
          (r, w') = chargeOnce gw req w
      in case r of
          Err chargeErr \<Rightarrow>
            if pred_numeral k = 0 then (r, pay', w')
            else chargeLoop gw backoff req (pred_numeral k) (attempt + 1) pay'
              (if 0 <s backoff then w'\<lparr>w_slept := w_slept w' @ [backoff * attempt]\<rparr> else w')
        | _ \<Rightarrow> (r, pay', w'))"
  by (simp only: numeral_eq_Suc chargeLoop.simps)

lemmas place_eval = mem_eval runTx_def memUow_def unitOfWork_Do_def reserveTx_def createOrder_def
  declineTx_def acceptTx_def orderRepo_Create_def orderRepo_Update_def
  orderRepo_FindByIdempotencyKey_def orderToModel_def itemToModel_def Order_AssignID_def
  forItems_def reserveItem_def releaseItem_def commitItem_def inventoryRepo_Reserve_def
  inventoryRepo_Release_def inventoryRepo_Commit_def reserve_columns_def release_columns_def
  commit_columns_def onOrder_def onPayment_def order_op_defs updateOrder_def Record_def
  Payment_MarkSucceeded_def Payment_MarkFailed_def Payment_RecordAttempt_def createPayment_def
  paymentRepo_Create_def paymentToModel_def Payment_AssignID_def Order_IsTerminal_def
  PlaceOrder_process_def PlaceOrder_Handle_def submitOrder_def settle_def chargeOnce_def
  chargeAttempts_def NewPayment_def Money_IsZero_def Let_def pulled_def publish_def
  buildItem_def productRepo_FindByID_def productToDomain_def MustMoney_def NewMoney_def
  ReconstituteProduct_def NewItem_def NewOrder_def ZeroMoney_def Money_Add_def Item_Subtotal_def
  Money_Mul_def order_not_found_def
  chargeLoop_numeral

lemmas demo_defs = demo_product_def demo_stock_def demo_db_def accepting_def declining_def flaky_def
  demo_handler_def demo_world_def demo_input_def

lemma demo_db_ok: "db_ok demo_db"
  by (simp add: db_ok_def demo_db_def schema_defs demo_stock_def demo_product_def)

lemma memUow_ok: "uow_ok (memGorm, memTransaction) id"
  by (simp add: uow_ok_def memGorm_ok memTransaction_ok)

text \<open>The order of the request, once it is fulfilled.\<close>

definition demo_order :: "OrderStatus \<Rightarrow> Order" where
  "demo_order st = \<lparr>pending = [], ord_id = 1, ord_userID = 3, ord_status = st,
     ord_items = [\<lparr>item_productID = 7, item_sku = ''KB'', item_name = ''Keyboard'',
       item_unitPrice = \<lparr>m_amount = 250, m_currency = ''USD''\<rparr>, item_quantity = 2\<rparr>],
     ord_total = \<lparr>m_amount = 500, m_currency = ''USD''\<rparr>, ord_idempotencyKey = ''k1'',
     ord_failureReason = '''', ord_createdAt = 100\<rparr>"

lemma run_accepted:
  "fst (PlaceOrder_Handle (demo_handler accepting) 100 200 demo_input (demo_world demo_db)) =
     Ok (demo_order StatusFulfilled)"
  by (simp add: place_eval demo_defs demo_order_def)

lemma run_declined:
  "is_Ok (fst (PlaceOrder_Handle (demo_handler declining) 100 200 demo_input (demo_world demo_db)))
     = False"
  "length (w_charges (snd (PlaceOrder_Handle (demo_handler declining) 100 200 demo_input
     (demo_world demo_db)))) = 3"
  "map om_Status (db_orders (w_store (snd (PlaceOrder_Handle (demo_handler declining) 100 200
     demo_input (demo_world demo_db))))) = [StatusFailed]"
  by (simp_all add: place_eval demo_defs demo_order_def PaymentFailedErr_def NewError_def)

text \<open>The demo database after the demo order was fulfilled.\<close>

definition demo_row :: OrderModel where
  "demo_row = \<lparr>om_ID = 1, om_UserID = 3, om_Status = StatusFulfilled, om_TotalAmount = 500,
     om_Currency = ''USD'', om_IdempotencyKey = ''k1'', om_FailureReason = '''',
     om_Items = [\<lparr>oim_ID = 1, oim_OrderID = 1, oim_ProductID = 7, oim_SKU = ''KB'',
       oim_Name = ''Keyboard'', oim_UnitPriceAmount = 250, oim_Currency = ''USD'', oim_Quantity = 2\<rparr>],
     om_CreatedAt = 100\<rparr>"

definition demo_db2 :: DB where
  "demo_db2 = demo_db\<lparr>db_orders := [demo_row]\<rparr>"

lemma demo_db2_ok: "db_ok demo_db2"
  using demo_db_ok by (simp add: db_ok_def demo_db2_def demo_db_def schema_defs demo_row_def)

lemma demo_row_order: "orderToDomain demo_row = Ok (demo_order StatusFulfilled)"
  by (simp add: orderToDomain_def demo_row_def itemToDomain_def MustMoney_def NewMoney_def
      NewItem_def ReconstituteOrder_def demo_order_def word_sle_eq word_sless_alt)

end
