(* ===== verification/Accounting.thy ===== *)
theory Accounting
  imports PlaceOrder_Steps
begin

text \<open>
  Stock and orders together. The reserved counter of a product is meant to be what the orders
  that are still open (reserved, or paid and not yet fulfilled) hold of it, and what has left the
  warehouse is meant to be what the fulfilled orders hold. This is the abstract account of the
  shop that the commands are checked against.
\<close>

definition row_moves :: "OrderModel \<Rightarrow> (uint64 \<times> int) list" where
  "row_moves m = map (\<lambda>i. (oim_ProductID i, sint (oim_Quantity i))) (om_Items m)"

definition open_row :: "OrderModel \<Rightarrow> bool" where
  "open_row m \<longleftrightarrow> om_Status m = StatusReserved \<or> om_Status m = StatusPaid"

text \<open>Units of a product that the rows with a given property hold.\<close>

definition units_of :: "(OrderModel \<Rightarrow> bool) \<Rightarrow> uint64 \<Rightarrow> OrderModel list \<Rightarrow> int" where
  "units_of P pid rows = (\<Sum>m\<leftarrow>filter P rows. units pid (row_moves m))"

definition held :: "DB \<Rightarrow> uint64 \<Rightarrow> int" where
  "held d pid = units_of open_row pid (db_orders d)"

definition shipped :: "DB \<Rightarrow> uint64 \<Rightarrow> int" where
  "shipped d pid = units_of (\<lambda>m. om_Status m = StatusFulfilled) pid (db_orders d)"

text \<open>
  The books are in order: no product has a negative available stock, the reserved counter of each
  product is what the open orders hold of it, and every row has positive quantities.
\<close>

definition accounted :: "DB \<Rightarrow> bool" where
  "accounted d \<longleftrightarrow>
     (\<forall>pid a r. stock d pid = Some (a, r) \<longrightarrow> 0 \<le> a \<and> r = held d pid) \<and>
     (\<forall>m \<in> set (db_orders d). \<forall>i \<in> set (om_Items m). 0 < sint (oim_Quantity i))"

text \<open>All the units of a product the shop ever had: in stock, held, or shipped.\<close>

definition warehouse :: "DB \<Rightarrow> uint64 \<rightharpoonup> int" where
  "warehouse d pid = map_option (\<lambda>(a, r). a + r + shipped d pid) (stock d pid)"

lemma units_of_append [simp]: "units_of P pid (xs @ ys) = units_of P pid xs + units_of P pid ys"
  by (simp add: units_of_def)

lemma units_of_single [simp]: "units_of P pid [m] = (if P m then units pid (row_moves m) else 0)"
  by (simp add: units_of_def)

lemma units_nonneg: "(\<And>p q. (p, q) \<in> set mv \<Longrightarrow> 0 \<le> q) \<Longrightarrow> 0 \<le> units pid mv"
proof (induction mv rule: units.induct)
  case (1 pid)
  then show ?case by simp
next
  case (2 pid p q mv)
  have "0 \<le> q" by (rule 2(2) [of p]) simp
  moreover have "0 \<le> units pid mv" by (rule 2(1)) (use 2(2) in auto)
  ultimately show ?case by simp
qed

lemma held_nonneg:
  assumes "accounted d"
  shows "0 \<le> held d pid"
proof -
  have "0 \<le> units pid (row_moves m)" if "m \<in> set (db_orders d)" for m
    by (rule units_nonneg) (use that assms in \<open>auto simp: accounted_def row_moves_def less_imp_le\<close>)
  then show ?thesis unfolding held_def units_of_def by (intro sum_list_nonneg) auto
qed

lemma stored_items_moves:
  assumes "list_all2 (stored_item oid) (map itemToModel items) rs"
  shows "map (\<lambda>i. (oim_ProductID i, sint (oim_Quantity i))) rs = moves items"
  using assms
proof (induction items arbitrary: rs)
  case Nil
  then show ?case by simp
next
  case (Cons i items)
  then obtain r rest where r: "rs = r # rest" "stored_item oid (itemToModel i) r"
    "list_all2 (stored_item oid) (map itemToModel items) rest"
    by (auto simp: list_all2_Cons1)
  from r(2) have e: "r = (itemToModel i)\<lparr>oim_ID := oim_ID r, oim_OrderID := oid,
      oim_Currency := filled_string ''USD'' (oim_Currency (itemToModel i))\<rparr>"
    by (simp add: stored_item_def)
  have "oim_ProductID r = item_productID i" "oim_Quantity r = item_quantity i"
    by (subst e, simp add: itemToModel_def)+
  with Cons.IH [OF r(3)] r(1) show ?case by simp
qed

text \<open>
  One new row, and a move of the stock of its products that agrees with the row's status: an
  open row holds its units, a fulfilled one has taken them out, any other leaves the stock as
  it was.
\<close>

lemma accounted_new_row:
  assumes acc: "accounted d" and rows: "db_orders d' = db_orders d @ [m]"
    and shift: "stock_shift ka kr (row_moves m) d d'"
    and kr: "kr = (if open_row m then 1 else 0)"
    and ka: "ka = (if open_row m \<or> om_Status m = StatusFulfilled then -1 else 0)"
    and cov: "ka = 0 \<or> covers fst (row_moves m) d"
    and pos: "\<forall>i \<in> set (om_Items m). 0 < sint (oim_Quantity i)"
  shows "accounted d' \<and> warehouse d' = warehouse d"
proof -
  let ?u = "\<lambda>pid. units pid (row_moves m)"
  have held': "held d' pid = held d pid + (if open_row m then ?u pid else 0)" for pid
    by (simp add: held_def rows)
  have shipped': "shipped d' pid = shipped d pid + (if om_Status m = StatusFulfilled then ?u pid else 0)"
    for pid by (simp add: shipped_def rows)
  have avail: "0 \<le> a + ka * ?u pid" if "stock d pid = Some (a, r)" for pid a r
  proof (cases "ka = 0 \<or> pid \<notin> fst ` set (row_moves m)")
    case True
    with that acc show ?thesis by (auto simp: accounted_def units_not_in)
  next
    case False
    with cov that have "?u pid \<le> a" by (auto simp: covers_def)
    with False ka show ?thesis by (auto split: if_splits)
  qed
  have "accounted d'"
    unfolding accounted_def
  proof (intro conjI allI impI ballI)
    fix pid a r assume "stock d' pid = Some (a, r)"
    with shift obtain a0 r0 where s: "stock d pid = Some (a0, r0)" "a = a0 + ka * ?u pid"
      "r = r0 + kr * ?u pid" by (auto simp: stock_shift_def)
    with acc avail held' kr show "0 \<le> a" "r = held d' pid" by (auto simp: accounted_def)
  qed (use acc pos rows in \<open>auto simp: accounted_def\<close>)
  moreover have "warehouse d' pid = warehouse d pid" for pid
  proof (cases "stock d pid")
    case None
    with shift show ?thesis by (simp add: warehouse_def stock_shift_def)
  next
    case (Some ar)
    have "\<not> (open_row m \<and> om_Status m = StatusFulfilled)" by (auto simp: open_row_def)
    with Some shift shipped' ka kr show ?thesis
      by (cases ar) (auto simp: warehouse_def stock_shift_def)
  qed
  ultimately show ?thesis by auto
qed

end
