(* ===== verification/PlaceOrder_Props.thy ===== *)
theory PlaceOrder_Props
  imports Examples Accounting
begin

text \<open>
  The properties of PlaceOrder over the repositories of package gormrepo, with witnesses on the
  reference database.
\<close>

text \<open>A handler as bootstrap wires it: its reads and its unit of work on a documented driver.\<close>

definition wired :: "'s Gorm \<Rightarrow> 's Gorm \<times> ('s, Vars) Transaction \<Rightarrow> ('s \<Rightarrow> DB) \<Rightarrow> ('s, 'g) PlaceOrder \<Rightarrow> bool"
where
  "wired G u view h \<longleftrightarrow> gorm_ok G view \<and> uow_ok u view \<and> po_uow h = unitOfWork_Do u \<and>
     po_reads h = NewRepositories G"

lemma demo_wired: "wired memGorm (memGorm, memTransaction) id (demo_handler gw)"
  by (simp add: wired_def memGorm_ok memUow_ok demo_handler_def memUow_def)

lemma wiredD:
  assumes "wired G u view h"
  shows "gorm_ok G view" and "uow_ok u view" and "po_uow h = unitOfWork_Do u"
    and "po_reads h = NewRepositories G"
  using assms by (simp_all add: wired_def)

lemma stock_shift_trans:
  assumes "stock_shift ka kr mv d d1" and "stock_shift kb kq mv d1 d2"
  shows "stock_shift (ka + kb) (kr + kq) mv d d2"
  unfolding stock_shift_def
proof
  fix pid
  show "stock d2 pid = map_option (\<lambda>(a, r). (a + (ka + kb) * units pid mv, r + (kr + kq) * units pid mv))
      (stock d pid)"
    using assms by (cases "stock d pid") (auto simp: stock_shift_def algebra_simps)
qed

lemma order_columns_twice: "order_columns o2 (order_columns o1 r) = order_columns o2 r"
  by (simp add: order_columns_def)

text \<open>The row of an order just placed, after a later update of that order.\<close>

lemma placed_then_updated:
  assumes "order_placed o1 d d1 o2" and "ord_id o3 = ord_id o2"
  obtains r where "inserts orderSchema (db_orders d) (orderToModel o1) r"
    and "o2 = reserved_order (om_ID r) o1"
    and "db_orders (order_updated o3 d1) = db_orders d @ [order_columns o3 r]"
proof -
  from assms(1) obtain r where r: "inserts orderSchema (db_orders d) (orderToModel o1) r"
    "o2 = reserved_order (om_ID r) o1" "db_orders d1 = db_orders d @ [order_columns o2 r]"
    by (auto simp: order_placed_def)
  then have "ord_id o3 = om_ID (order_columns o2 r)" "ord_id o3 \<notin> om_ID ` set (db_orders d)"
    using inserted_order(8) [OF r(1)] assms(2) by (auto simp: reserved_order_def)
  with order_updated_last [of "order_columns o2 r" o3 "db_orders d"] r that show ?thesis
    by (simp add: order_updated_def order_columns_twice)
qed

section \<open>Idempotency\<close>

text \<open>C9: a request whose idempotency key already has an order changes no table, charges
  nothing, and can only return that order, whatever faults the database has meanwhile (a lookup
  that fails is followed by an insert the unique index refuses).\<close>

theorem place_order_idempotent:
  assumes "wired G u view h" and "db_ok (view (w_store w))"
    and "m \<in> set (db_orders (view (w_store w)))" and "om_IdempotencyKey m = poin_IdempotencyKey inp"
    and "PlaceOrder_Handle h t1 t2 inp w = (res, w')"
  shows "view (w_store w') = view (w_store w) \<and> w_charges w' = w_charges w \<and>
    (\<forall>o1. res = Ok o1 \<longrightarrow> orderToDomain m = Ok o1)"
proof -
  note wd = wiredD [OF assms(1)]
  from wd(1,4) assms(5) show ?thesis
  proof (cases rule: placing.Handle_cases)
    case (existing o1)
    then obtain m' where m': "m' \<in> set (db_orders (view (w_store w)))"
      "om_IdempotencyKey m' = poin_IdempotencyKey inp" "orderToDomain m' = Ok o1" by auto
    have "m' = m"
      by (rule distinct_key_unique [OF db_ok_columns(3) [OF assms(2)] m'(1) assms(3)])
        (simp add: m'(2) assms(4))
    with existing m'(3) show ?thesis by (simp add: untouched_def)
  next
    case rejected
    then show ?thesis by (auto simp: untouched_def)
  next
    case (processed items o1 w1 r o2 pay w2)
    from processed(2) have o1: "ord_id o1 = 0" "ord_idempotencyKey o1 = poin_IdempotencyKey inp"
      by (auto simp: NewOrder_Ok_iff)
    have no: "\<not> order_placed o1 (view (w_store w1)) d ox" for d ox
      using inserted_order(9) [of "db_orders (view (w_store w))" o1] assms(3,4) o1(2) processed(3)
      by (force simp: order_placed_def untouched_def)
    have d1: "db_ok (view (w_store w1))" using assms(2) processed(3) by (simp add: untouched_def)
    from wd(2,3) d1 o1(1) processed(5) have "\<not> is_Ok r \<and> view (w_store w2) = view (w_store w1) \<and>
        w_charges w2 = w_charges w1"
      by (cases rule: placing.process_cases) (use no in auto)
    with processed(3,6,7) show ?thesis by (cases r) (auto simp: untouched_def publish_def)
  qed
qed

theorem place_order_idempotent_witness:
  "w_charges (snd (PlaceOrder_Handle (demo_handler accepting) 100 200 demo_input (demo_world demo_db2)))
     = [] \<and>
   fst (PlaceOrder_Handle (demo_handler accepting) 100 200 demo_input (demo_world demo_db2))
     = Ok (demo_order StatusFulfilled)"
proof -
  obtain res w' where run: "PlaceOrder_Handle (demo_handler accepting) 100 200 demo_input
      (demo_world demo_db2) = (res, w')" by force
  have m: "demo_row \<in> set (db_orders (id (w_store (demo_world demo_db2))))"
    "om_IdempotencyKey demo_row = poin_IdempotencyKey demo_input"
    "db_ok (id (w_store (demo_world demo_db2)))"
    using demo_db2_ok by (simp_all add: demo_db2_def demo_world_def demo_row_def demo_input_def)
  from place_order_idempotent [OF demo_wired m(3,1,2) run]
  have "w_charges w' = []" "\<forall>o1. res = Ok o1 \<longrightarrow> orderToDomain demo_row = Ok o1"
    by (simp_all add: demo_world_def)
  moreover have "is_Ok (fst (PlaceOrder_Handle (demo_handler accepting) 100 200 demo_input
      (demo_world demo_db2)))"
    by (simp add: PlaceOrder_Handle_def demo_handler_def demo_world_def demo_db2_def demo_input_def
        orderRepo_FindByIdempotencyKey_def mem_eval demo_row_order, simp add: demo_row_def)
  ultimately show ?thesis using run demo_row_order by (auto simp: is_Ok_iff)
qed

section \<open>A successful request\<close>

text \<open>
  The tables after a request that succeeded: its order fulfilled at catalogue prices, its
  payment succeeded with the provider's reference, its units gone from the available stock,
  and nothing left reserved for it.
\<close>

definition order_completed :: "PlaceOrderInput \<Rightarrow> DB \<Rightarrow> DB \<Rightarrow> Order \<Rightarrow> string \<Rightarrow> bool" where
  "order_completed inp d d' o1 ref \<longleftrightarrow>
     list_all2 (priced d) (poin_Items inp) (ord_items o1) \<and>
     ord_status o1 = StatusFulfilled \<and> ord_userID o1 = poin_UserID inp \<and>
     ord_idempotencyKey o1 = poin_IdempotencyKey inp \<and> ord_total o1 = items_total (ord_items o1) \<and>
     (\<exists>m. db_orders d' = db_orders d @ [m] \<and> om_ID m = ord_id o1 \<and> om_Status m = StatusFulfilled \<and>
        om_UserID m = poin_UserID inp \<and> om_IdempotencyKey m = poin_IdempotencyKey inp \<and>
        om_TotalAmount m = m_amount (ord_total o1) \<and>
        list_all2 (stored_item (om_ID m)) (map itemToModel (ord_items o1)) (om_Items m)) \<and>
     (\<exists>p. db_payments d' = db_payments d @ [p] \<and> pym_OrderID p = ord_id o1 \<and>
        pym_Status p = PaySucceeded \<and> pym_Amount p = m_amount (ord_total o1) \<and>
        pym_ProviderRef p = ref) \<and>
     stock_shift (-1) 0 (moves (ord_items o1)) d d' \<and> covers fst (moves (ord_items o1)) d \<and>
     db_ok d' \<and> rest_kept d d'"

lemma placed_and_settled:
  assumes o1: "NewOrder t (poin_UserID inp) items (poin_IdempotencyKey inp) = Ok o1"
    and items: "list_all2 (priced d) (poin_Items inp) items"
    and placed: "order_placed o1 d d1 o2"
    and pay: "order_payment now o2 = Ok p"
    and settled: "order_settled res o2 (attempted k p) d1 d2 o3 p2"
  shows "order_completed inp d d2 (o3\<lparr>pending := []\<rparr>) (cres_ProviderRef res) \<and>
    pending o3 = pending o1 @ [OrderReserved (ord_id o3), OrderPaid (ord_id o3), OrderFulfilled (ord_id o3)] \<and>
    pending p2 = [PaymentInitiated 0 (ord_id o3), PaymentSucceeded 0 (ord_id o3)]"
proof -
  have o3: "o3 = fulfilled_order o2" and d2: "db_ok d2"
    and orders: "db_orders d2 = db_orders (order_updated o3 d1)"
    and st2: "stock_shift 0 (-1) (moves (ord_items o2)) d1 d2"
    using settled by (auto simp: order_settled_def)
  have i: "ord_id o3 = ord_id o2" by (simp add: o3 fulfilled_order_def)
  have rest: "rest_kept d d2"
    using placed settled by (auto simp: order_placed_def order_settled_def intro: rest_kept_trans)
  from placed_then_updated [OF placed i] obtain r where
    r: "inserts orderSchema (db_orders d) (orderToModel o1) r" and
    o2: "o2 = reserved_order (om_ID r) o1" and
    rows: "db_orders d2 = db_orders d @ [order_columns o3 r]" using orders by metis
  have st1: "stock_shift (-1) 1 (moves (ord_items o1)) d d1"
    and cov: "covers fst (moves (ord_items o1)) d" and pays1: "db_payments d1 = db_payments d"
    using placed by (auto simp: order_placed_def)
  have items2: "ord_items o2 = items" "ord_items o1 = items" "ord_items o3 = items"
    using o1 by (auto simp: o2 o3 reserved_order_def fulfilled_order_def NewOrder_Ok_iff)
  have st: "stock_shift (-1) 0 (moves items) d d2"
    using stock_shift_trans [OF st1 [unfolded items2] st2 [unfolded items2]] by simp
  from pay have p: "p = \<lparr>pending = [PaymentInitiated 0 (ord_id o2)], pay_id = 0, pay_orderID = ord_id o2,
      pay_idempotencyKey = ord_idempotencyKey o2, pay_amount = ord_total o2, pay_status = PayPending,
      pay_provider = '''', pay_providerRef = '''', pay_attempts = 0, pay_failureReason = '''',
      pay_createdAt = now\<rparr>"
    by (simp add: order_payment_def NewPayment_Ok_iff)
  let ?ps = "succeeded_payment (cres_ProviderRef res) (attempted k p)"
  from settled pays1 obtain pr where
    pr: "inserts paymentSchema (db_payments d) (paymentToModel ?ps) pr"
      "p2 = Payment_AssignID (pym_ID pr) ?ps" "db_payments d2 = db_payments d @ [pr]"
    by (auto simp: order_settled_def)
  have "ord_total o3 = items_total items" "ord_userID o3 = poin_UserID inp"
    "ord_idempotencyKey o3 = poin_IdempotencyKey inp" "ord_status o3 = StatusFulfilled"
    "ord_status o1 = StatusPending" "ord_total o2 = items_total items"
    using o1 by (auto simp: o2 o3 reserved_order_def fulfilled_order_def NewOrder_Ok_iff)
  note ord = this
  have row: "om_ID r = ord_id o3" by (simp add: i o2 reserved_order_def)
  have "\<exists>m. db_orders d2 = db_orders d @ [m] \<and> om_ID m = ord_id o3 \<and> om_Status m = StatusFulfilled \<and>
        om_UserID m = poin_UserID inp \<and> om_IdempotencyKey m = poin_IdempotencyKey inp \<and>
        om_TotalAmount m = m_amount (ord_total o3) \<and>
        list_all2 (stored_item (om_ID m)) (map itemToModel items) (om_Items m)"
    using inserted_order [OF r] o1 ord
    by (intro exI [of _ "order_columns o3 r"]) (auto simp: rows row items2 NewOrder_Ok_iff)
  moreover have "\<exists>q. db_payments d2 = db_payments d @ [q] \<and> pym_OrderID q = ord_id o3 \<and>
        pym_Status q = PaySucceeded \<and> pym_Amount q = m_amount (ord_total o3) \<and>
        pym_ProviderRef q = cres_ProviderRef res"
    using inserted_payment [OF pr(1)] ord
    by (intro exI [of _ pr]) (simp add: pr(3) succeeded_payment_def attempted_def p i)
  moreover have "pending p2 = [PaymentInitiated 0 (ord_id o3), PaymentSucceeded 0 (ord_id o3)]"
    by (simp add: pr(2) Payment_AssignID_def succeeded_payment_def attempted_def p i)
  moreover have "pending o3 = pending o1 @ [OrderReserved (ord_id o3), OrderPaid (ord_id o3),
      OrderFulfilled (ord_id o3)]"
    using row by (simp add: o3 o2 fulfilled_order_def reserved_order_def)
  ultimately show ?thesis
    using items st cov d2 rest ord items2 by (simp add: order_completed_def)
qed

section \<open>A refused payment\<close>

text \<open>The tables after a request whose charges were all refused.\<close>

definition order_refused :: "PlaceOrderInput \<Rightarrow> goerror \<Rightarrow> DB \<Rightarrow> DB \<Rightarrow> bool" where
  "order_refused inp e d d' \<longleftrightarrow>
     (\<exists>m. db_orders d' = db_orders d @ [m] \<and> om_Status m = StatusFailed \<and>
        om_UserID m = poin_UserID inp \<and> om_IdempotencyKey m = poin_IdempotencyKey inp \<and>
        om_FailureReason m = ''payment failed'' \<and>
        (\<exists>items. list_all2 (priced d) (poin_Items inp) items \<and>
           list_all2 (stored_item (om_ID m)) (map itemToModel items) (om_Items m)) \<and>
        (\<exists>p. db_payments d' = db_payments d @ [p] \<and> pym_OrderID p = om_ID m \<and>
           pym_Status p = PayFailed \<and> pym_FailureReason p = ErrorText e)) \<and>
     stock d' = stock d \<and> db_ok d' \<and> rest_kept d d'"

lemma stock_shift_zero: "stock_shift 0 0 mv d d' \<Longrightarrow> stock d' = stock d"
  by (rule ext) (auto simp: stock_shift_def map_option_case split: option.splits)

lemma placed_and_declined:
  assumes o1: "NewOrder t (poin_UserID inp) items (poin_IdempotencyKey inp) = Ok o1"
    and items: "list_all2 (priced d) (poin_Items inp) items"
    and placed: "order_placed o1 d d1 o2"
    and pay: "order_payment now o2 = Ok p"
    and declined: "order_declined e o2 (attempted k p) d1 d2 o3 p2"
  shows "order_refused inp e d d2"
proof -
  have o3: "o3 = failed_order o2" and d2: "db_ok d2"
    and orders: "db_orders d2 = db_orders (order_updated o3 d1)"
    and st2: "stock_shift 1 (-1) (moves (ord_items o2)) d1 d2"
    using declined by (auto simp: order_declined_def)
  have i: "ord_id o3 = ord_id o2" by (simp add: o3 failed_order_def)
  have rest: "rest_kept d d2"
    using placed declined by (auto simp: order_placed_def order_declined_def intro: rest_kept_trans)
  from placed_then_updated [OF placed i] obtain r where
    r: "inserts orderSchema (db_orders d) (orderToModel o1) r" and
    o2: "o2 = reserved_order (om_ID r) o1" and
    rows: "db_orders d2 = db_orders d @ [order_columns o3 r]" using orders by metis
  have st1: "stock_shift (-1) 1 (moves (ord_items o1)) d d1" and pays1: "db_payments d1 = db_payments d"
    using placed by (auto simp: order_placed_def)
  have "ord_items o2 = ord_items o1" by (simp add: o2 reserved_order_def)
  then have st: "stock d2 = stock d"
    using stock_shift_trans [OF st1 st2 [unfolded \<open>ord_items o2 = ord_items o1\<close>]] stock_shift_zero by simp
  from pay have p: "pay_orderID p = ord_id o2" by (simp add: order_payment_def NewPayment_Ok_iff)
  from declined pays1 obtain pr where
    pr: "inserts paymentSchema (db_payments d) (paymentToModel (failed_payment (ErrorText e) (attempted k p))) pr"
      "db_payments d2 = db_payments d @ [pr]"
    by (auto simp: order_declined_def)
  show ?thesis
    unfolding order_refused_def
  proof (intro conjI exI)
    show "db_orders d2 = db_orders d @ [order_columns o3 r]" by (rule rows)
    show "db_payments d2 = db_payments d @ [pr]" by (rule pr(2))
    show "om_Status (order_columns o3 r) = StatusFailed"
      "om_FailureReason (order_columns o3 r) = ''payment failed''"
      by (simp_all add: o3 failed_order_def)
    show "om_UserID (order_columns o3 r) = poin_UserID inp"
      "om_IdempotencyKey (order_columns o3 r) = poin_IdempotencyKey inp"
      using inserted_order(2,5) [OF r] o1 by (auto simp: NewOrder_Ok_iff)
    show "list_all2 (priced d) (poin_Items inp) (ord_items o1)"
      using items o1 by (auto simp: NewOrder_Ok_iff)
    show "list_all2 (stored_item (om_ID (order_columns o3 r))) (map itemToModel (ord_items o1))
        (om_Items (order_columns o3 r))"
      using inserted_order(7) [OF r] by simp
    show "pym_OrderID pr = om_ID (order_columns o3 r)" "pym_Status pr = PayFailed"
      "pym_FailureReason pr = ErrorText e"
      using inserted_payment(2,3,8) [OF pr(1)]
      by (simp_all add: failed_payment_def attempted_def p o2 reserved_order_def)
  qed (use st d2 rest in simp_all)
qed

text \<open>
  How a call for a new key that returned an error has left the tables: as they were; with the
  refusal recorded; or with the order reserved and its stock held.
\<close>

definition order_held :: "PlaceOrderInput \<Rightarrow> DB \<Rightarrow> DB \<Rightarrow> Order \<Rightarrow> bool" where
  "order_held inp d d' o1 \<longleftrightarrow> list_all2 (priced d) (poin_Items inp) (ord_items o1) \<and>
     ord_status o1 = StatusReserved \<and>
     (\<exists>m. db_orders d' = db_orders d @ [m] \<and> om_ID m = ord_id o1 \<and> om_Status m = StatusReserved \<and>
        om_UserID m = poin_UserID inp \<and> om_IdempotencyKey m = poin_IdempotencyKey inp \<and>
        list_all2 (stored_item (om_ID m)) (map itemToModel (ord_items o1)) (om_Items m)) \<and>
     db_payments d' = db_payments d \<and>
     stock_shift (-1) 1 (moves (ord_items o1)) d d' \<and> covers fst (moves (ord_items o1)) d \<and> db_ok d' \<and>
     rest_kept d d'"

lemma placed_held:
  assumes o1: "NewOrder t (poin_UserID inp) items (poin_IdempotencyKey inp) = Ok o1"
    and items: "list_all2 (priced d) (poin_Items inp) items"
    and placed: "order_placed o1 d d1 o2"
  shows "order_held inp d d1 o2"
proof -
  from placed obtain r where r: "inserts orderSchema (db_orders d) (orderToModel o1) r"
    "o2 = reserved_order (om_ID r) o1" "db_orders d1 = db_orders d @ [order_columns o2 r]"
    by (auto simp: order_placed_def)
  show ?thesis
    unfolding order_held_def
  proof (intro conjI exI)
    show "db_orders d1 = db_orders d @ [order_columns o2 r]" by (rule r(3))
    show "om_UserID (order_columns o2 r) = poin_UserID inp"
      "om_IdempotencyKey (order_columns o2 r) = poin_IdempotencyKey inp"
      using inserted_order(2,5) [OF r(1)] o1 by (auto simp: NewOrder_Ok_iff)
    show "list_all2 (stored_item (om_ID (order_columns o2 r))) (map itemToModel (ord_items o2))
        (om_Items (order_columns o2 r))"
      using inserted_order(7) [OF r(1)] r(2) by (simp add: reserved_order_def)
    show "list_all2 (priced d) (poin_Items inp) (ord_items o2)"
      using items o1 r(2) by (auto simp: reserved_order_def NewOrder_Ok_iff)
  qed (use placed r(2) in \<open>auto simp: order_placed_def reserved_order_def\<close>)
qed

section \<open>All the ways a call can end\<close>

definition success_events :: "Order \<Rightarrow> Event list" where
  "success_events o1 =
     [EvOrder (OrderPlaced 0 (ord_userID o1) (m_amount (ord_total o1)) (m_currency (ord_total o1))),
      EvOrder (OrderReserved (ord_id o1)), EvOrder (OrderPaid (ord_id o1)),
      EvOrder (OrderFulfilled (ord_id o1)),
      EvPayment (PaymentInitiated 0 (ord_id o1)), EvPayment (PaymentSucceeded 0 (ord_id o1))]"

lemma handle_outcomes:
  assumes "wired G u view h" and "db_ok (view (w_store w))"
    and "PlaceOrder_Handle h t1 t2 inp w = (res, w')"
  obtains (unchanged) "view (w_store w') = view (w_store w)" and "w_charges w' = w_charges w"
      and "is_Ok res \<Longrightarrow> poin_IdempotencyKey inp \<in> om_IdempotencyKey ` set (db_orders (view (w_store w)))"
  | (completed) o1 cr k where "res = Ok o1" and "charges_made h o1 (Ok cr) k w w'"
      and "order_completed inp (view (w_store w)) (view (w_store w')) o1 (cres_ProviderRef cr)"
      and "w_published w' = w_published w @ [success_events o1]"
  | (refused) e o1 k where "res = Err (payment_failed e)" and "charges_made h o1 (Err e) k w w'"
      and "order_refused inp e (view (w_store w)) (view (w_store w'))"
  | (held) o1 where "\<not> is_Ok res"
      and "order_held inp (view (w_store w)) (view (w_store w')) o1"
      and "w_charges w' = w_charges w \<and> m_amount (ord_total o1) = 0 \<or>
           (\<exists>a k. charges_made h o1 a k w w')"
proof -
  note wd = wiredD [OF assms(1)]
  from wd(1,4) assms(3) show ?thesis
  proof (cases rule: placing.Handle_cases)
    case (existing ox)
    then have "poin_IdempotencyKey inp \<in> om_IdempotencyKey ` set (db_orders (view (w_store w)))"
      by force
    with existing(2) show ?thesis by (intro unchanged) (auto simp: untouched_def)
  next
    case rejected
    then show ?thesis by (intro unchanged) (auto simp: untouched_def)
  next
    case (processed items ord w1 r o2 pay w2)
    from processed(2) have ord: "ord_id ord = 0" "ord_idempotencyKey ord \<noteq> ''''"
      "pending ord = [OrderPlaced 0 (poin_UserID inp) (m_amount (items_total items))
         (m_currency (items_total items))]" by (auto simp: NewOrder_Ok_iff)
    have v: "view (w_store w1) = view (w_store w)" and c1: "w_charges w1 = w_charges w"
      "w_published w1 = w_published w"
      using processed(3) by (simp_all add: untouched_def)
    have w': "view (w_store w') = view (w_store w2)" "w_charges w' = w_charges w2"
      using processed(7) by (auto simp: publish_def)
    have made: "charges_made h oo a k w w'" if "charges_made h oo a k w1 w2" for oo a k
      using that c1 w' by (simp add: charges_made_def)
    have d1: "db_ok (view (w_store w1))" using assms(2) v by simp
    from wd(2,3) d1 ord(1) processed(5) show ?thesis
    proof (cases rule: placing.process_cases)
      case not_reserved
      then have "\<not> is_Ok res" using processed(6) by (cases r) auto
      with not_reserved v c1 w' show ?thesis by (intro unchanged) auto
    next
      case (no_payment e)
      have hd: "order_held inp (view (w_store w)) (view (w_store w')) o2"
        using placed_held [OF processed(2) _ no_payment(3)] processed(1) v w' by simp
      obtain i where o2: "o2 = reserved_order i ord" "i \<noteq> 0"
        using no_payment(3) by (auto simp: order_placed_def dest: inserted_order(1))
      from no_payment(4) have "m_amount (ord_total o2) = 0"
        using ord(2) o2
        by (auto simp: order_payment_def NewPayment_def Money_IsZero_def reserved_order_def Let_def
            split: if_splits)
      with hd no_payment(1,5) c1 w' processed(6) show ?thesis by (intro held) auto
    next
      case (settled oo d p cr k p2)
      from processed(6) settled(1) have res: "res = Ok (o2\<lparr>pending := []\<rparr>)" by simp
      let ?o = "o2\<lparr>pending := []\<rparr>"
      note fin = placed_and_settled [OF processed(2,1) settled(3) [unfolded v] settled(4,6)]
      have oo: "ord_idempotencyKey oo = ord_idempotencyKey o2" "ord_total oo = ord_total o2"
        using settled(6) by (auto simp: order_settled_def fulfilled_order_def)
      have made_o: "charges_made h ?o (Ok cr) k w w'"
        using made [OF settled(5)] oo by (simp add: charges_made_def order_charge_def)
      have fine: "order_completed inp (view (w_store w)) (view (w_store w')) ?o (cres_ProviderRef cr)"
        using conjunct1 [OF fin] w' by simp
      have tot: "ord_total o2 = items_total items" "ord_userID o2 = poin_UserID inp"
        using processed(2) settled(6,3)
        by (auto simp: order_settled_def fulfilled_order_def order_placed_def reserved_order_def
            NewOrder_Ok_iff)
      have "w_published w' = w_published w @ [success_events ?o]"
        using conjunct2 [OF fin] processed(7) settled(1,2,7) c1 ord(3) tot
        by (simp add: publish_def pulled_def success_events_def)
      from completed [OF res made_o fine this] show ?thesis .
    next
      case (declined oo d p e k p2)
      have "order_refused inp e (view (w_store w)) (view (w_store w'))"
        using placed_and_declined [OF processed(2) _ declined(3,4,6)] processed(1) v w' by simp
      moreover have "res = Err (payment_failed e)" using processed(6) declined(1) by simp
      ultimately show ?thesis using refused made [OF declined(5)] by blast
    next
      case (unsettled oo p a k)
      have "order_held inp (view (w_store w)) (view (w_store w')) oo"
        using placed_held [OF processed(2) _ unsettled(3)] processed(1) v w' by simp
      moreover have "\<not> is_Ok res" using processed(6) unsettled(1) by (cases r) auto
      ultimately show ?thesis using held made [OF unsettled(5)] by blast
    qed
  qed
qed

text \<open>C1: a request with a new idempotency key that returns an order has fulfilled it: the order
  row, the payment row and the stock are those of \<open>order_completed\<close>, exactly one charge was
  accepted (the last one), and the events published are, in order, the order's four and the
  payment's two, the first of them still without the order's id.\<close>

theorem place_order_success:
  assumes "wired G u view h" and "db_ok (view (w_store w))"
    and "poin_IdempotencyKey inp \<notin> om_IdempotencyKey ` set (db_orders (view (w_store w)))"
    and "PlaceOrder_Handle h t1 t2 inp w = (Ok o1, w')"
  shows "\<exists>res k. order_completed inp (view (w_store w)) (view (w_store w')) o1 (cres_ProviderRef res) \<and>
    charges_made h o1 (Ok res) k w w' \<and>
    w_published w' = w_published w @ [success_events o1]"
  using assms(1,2,4)
proof (cases rule: handle_outcomes)
  case unchanged
  with assms(3) show ?thesis by simp
qed auto

theorem place_order_success_witness:
  "\<exists>(res :: ChargeResult) d'. order_completed demo_input demo_db d' (demo_order StatusFulfilled)
     (cres_ProviderRef res) \<and> stock d' 7 = Some (3, 0)"
proof -
  obtain w' where run: "PlaceOrder_Handle (demo_handler accepting) 100 200 demo_input
      (demo_world demo_db) = (Ok (demo_order StatusFulfilled), w')"
    using run_accepted by (metis prod.collapse)
  have m: "db_ok (id (w_store (demo_world demo_db)))"
    "poin_IdempotencyKey demo_input \<notin> om_IdempotencyKey ` set (db_orders (id (w_store (demo_world demo_db))))"
    using demo_db_ok by (simp_all add: demo_world_def demo_db_def)
  from place_order_success [OF demo_wired m run] obtain res :: ChargeResult where
    c: "order_completed demo_input demo_db (w_store w') (demo_order StatusFulfilled) (cres_ProviderRef res)"
    by (auto simp: demo_world_def)
  moreover have "stock (w_store w') 7 = Some (3, 0)"
    using c by (simp add: order_completed_def stock_shift_def demo_order_def stock_def inv_row_def
        demo_db_def demo_stock_def)
  ultimately show ?thesis by blast
qed

text \<open>C2: a request that returns an error has either changed no table and charged nothing; or
  its charges were all refused, the caller gets a payment error, order and payment are stored as
  failed with the reason and every product's stock is back to what it was; or the order is left
  reserved with its stock held and no payment row - without a charge when its total is zero,
  and otherwise after charges whose settlement was rolled back.\<close>

theorem place_order_failure:
  assumes "wired G u view h" and "db_ok (view (w_store w))"
    and "PlaceOrder_Handle h t1 t2 inp w = (res, w')" and "\<not> is_Ok res"
  shows "view (w_store w') = view (w_store w) \<and> w_charges w' = w_charges w \<or>
    (\<exists>e o1 k. res = Err (payment_failed e) \<and> KindOf (payment_failed e) = KindPayment \<and>
       charges_made h o1 (Err e) k w w' \<and>
       order_refused inp e (view (w_store w)) (view (w_store w'))) \<or>
    (\<exists>o1. order_held inp (view (w_store w)) (view (w_store w')) o1 \<and>
       (w_charges w' = w_charges w \<and> m_amount (ord_total o1) = 0 \<or>
        (\<exists>a k. charges_made h o1 a k w w')))"
  using assms(1,2,3)
proof (cases rule: handle_outcomes)
  case (refused e o1 k)
  then have "KindOf (payment_failed e) = KindPayment" by (simp add: payment_failed_def)
  with refused show ?thesis by blast
qed (use assms(4) in auto)

theorem place_order_failure_witness:
  "\<exists>e d'. order_refused demo_input e demo_db d' \<and> stock d' = stock demo_db"
proof -
  obtain res w' where run: "PlaceOrder_Handle (demo_handler declining) 100 200 demo_input
      (demo_world demo_db) = (res, w')" by force
  note out = run_declined [unfolded run fst_conv snd_conv]
  have m: "db_ok (id (w_store (demo_world demo_db)))" using demo_db_ok by (simp add: demo_world_def)
  have "\<not> is_Ok res" using out(1) by simp
  from place_order_failure [OF demo_wired m run this] out
  have "\<exists>e. order_refused demo_input e demo_db (w_store w')"
    by (auto simp: demo_world_def order_held_def)
  then show ?thesis by (auto simp: order_refused_def)
qed

section \<open>The books\<close>

lemma priced_positive:
  assumes "list_all2 (priced d) lines items"
    and "list_all2 (stored_item oid) (map itemToModel items) rs"
  shows "\<forall>i \<in> set rs. 0 < sint (oim_Quantity i)"
proof -
  have "0 < q" if "(p, q) \<in> set (moves items)" for p q
    using assms(1) that
    by (induction rule: list_all2_induct) (auto simp: priced_def word_sless_alt)
  moreover have "\<forall>i \<in> set rs. (oim_ProductID i, sint (oim_Quantity i)) \<in> set (moves items)"
    unfolding stored_items_moves [OF assms(2), symmetric] by auto
  ultimately show ?thesis by blast
qed

lemma completed_accounted:
  assumes "order_completed inp d d' o1 ref" and "accounted d"
  shows "db_ok d' \<and> accounted d' \<and> warehouse d' = warehouse d"
proof -
  from assms(1) obtain m where m: "db_orders d' = db_orders d @ [m]" "om_Status m = StatusFulfilled"
    "list_all2 (stored_item (om_ID m)) (map itemToModel (ord_items o1)) (om_Items m)"
    by (auto simp: order_completed_def)
  have mv: "row_moves m = moves (ord_items o1)"
    using stored_items_moves [OF m(3)] by (simp add: row_moves_def)
  from accounted_new_row [OF assms(2) m(1), of "-1" 0] show ?thesis
    using assms(1) m(2) priced_positive [OF _ m(3)] mv
    by (auto simp: order_completed_def open_row_def)
qed

lemma held_accounted:
  assumes "order_held inp d d' o1" and "accounted d"
  shows "db_ok d' \<and> accounted d' \<and> warehouse d' = warehouse d"
proof -
  from assms(1) obtain m where m: "db_orders d' = db_orders d @ [m]" "om_Status m = StatusReserved"
    "list_all2 (stored_item (om_ID m)) (map itemToModel (ord_items o1)) (om_Items m)"
    by (auto simp: order_held_def)
  have mv: "row_moves m = moves (ord_items o1)"
    using stored_items_moves [OF m(3)] by (simp add: row_moves_def)
  from accounted_new_row [OF assms(2) m(1), of "-1" 1] show ?thesis
    using assms(1) m(2) priced_positive [OF _ m(3)] mv
    by (auto simp: order_held_def open_row_def)
qed

lemma refused_accounted:
  assumes "order_refused inp e d d'" and "accounted d"
  shows "db_ok d' \<and> accounted d' \<and> warehouse d' = warehouse d"
proof -
  from assms(1) obtain m items where m: "db_orders d' = db_orders d @ [m]" "om_Status m = StatusFailed"
    "stock d' = stock d" "list_all2 (priced d) (poin_Items inp) items"
    "list_all2 (stored_item (om_ID m)) (map itemToModel items) (om_Items m)"
    by (auto simp: order_refused_def)
  have "stock_shift 0 0 (row_moves m) d d'"
    by (auto simp: stock_shift_def m(3) map_option_case split: option.splits)
  from accounted_new_row [OF assms(2) m(1) this] show ?thesis
    using m priced_positive [OF m(4,5)] assms(1) by (auto simp: open_row_def order_refused_def)
qed

text \<open>No call of PlaceOrder, however it ends, puts the books out of order or loses a unit:
  available stock never goes negative, the reserved counter of every product stays what its open
  orders hold, and stock, held and shipped units always add up to the same number.\<close>

theorem place_order_accounting:
  assumes "wired G u view h" and "db_ok (view (w_store w))" and "accounted (view (w_store w))"
    and "PlaceOrder_Handle h t1 t2 inp w = (res, w')"
  shows "db_ok (view (w_store w')) \<and> accounted (view (w_store w')) \<and>
    warehouse (view (w_store w')) = warehouse (view (w_store w))"
  using assms(1,2,4)
proof (cases rule: handle_outcomes)
  case unchanged
  with assms show ?thesis by simp
next
  case (completed o1 cr k)
  from completed_accounted [OF completed(3) assms(3)] show ?thesis .
next
  case (refused e o1 k)
  from refused_accounted [OF refused(3) assms(3)] show ?thesis .
next
  case (held o1)
  from held_accounted [OF held(2) assms(3)] show ?thesis .
qed

lemma demo_accounted: "accounted demo_db"
  by (simp add: accounted_def demo_db_def demo_stock_def stock_def inv_row_def held_def units_of_def)

theorem place_order_accounting_witness:
  "\<exists>d'. accounted d' \<and> warehouse d' = warehouse demo_db \<and>
     map om_Status (db_orders d') = [StatusFailed]"
proof -
  obtain res w' where run: "PlaceOrder_Handle (demo_handler declining) 100 200 demo_input
      (demo_world demo_db) = (res, w')" by force
  note out = run_declined [unfolded run fst_conv snd_conv]
  have m: "db_ok (id (w_store (demo_world demo_db)))" "accounted (id (w_store (demo_world demo_db)))"
    using demo_db_ok demo_accounted by (simp_all add: demo_world_def)
  from place_order_accounting [OF demo_wired m run] out
  show ?thesis by (auto simp: demo_world_def)
qed

end
