(* ===== verification/CancelOrder.thy ===== *)
theory CancelOrder
  imports PlaceOrder_Correct Accounting
begin

text \<open>
  The commands internal/application/command/cancel_order.go and update_order_status.go. Their
  transactions capture one variable, the order.
\<close>

type_synonym 's OrderUow =
  "('s RepositoryProvider \<Rightarrow> ('s \<times> Order, unit) prog) \<Rightarrow> ('s \<times> Order, unit) prog"

record 's CancelOrder =
  co_uow :: "'s OrderUow"
  co_reads :: "'s RepositoryProvider"

record CancelOrderInput =
  coin_OrderID :: uint64
  coin_Reason :: string

definition saveOrder :: "'s RepositoryProvider \<Rightarrow> ('s \<times> Order, unit) prog" where
  "saveOrder rp so = onStore (orep_Update (rp_Orders rp) (snd so)) so"

definition releaseAll :: "'s RepositoryProvider \<Rightarrow> ('s \<times> Order, unit) prog" where
  "releaseAll rp so = onStore (forEach (releaseItem rp) (ord_items (snd so))) so"

definition refundPayment :: "'s RepositoryProvider \<Rightarrow> ('s \<times> Order, unit) prog" where
  "refundPayment rp so = onStore
     (check (prep_FindByOrderID (rp_Payments rp) (ord_id (snd so))) (\<lambda>pay.
      case Payment_Refund pay of (refunded, pay') \<Rightarrow>
      check (lift refunded) (\<lambda>_. prep_Update (rp_Payments rp) pay'))) so"

definition cancelTx :: "bool \<Rightarrow> bool \<Rightarrow> string \<Rightarrow> 's RepositoryProvider \<Rightarrow> ('s \<times> Order, unit) prog" where
  "cancelTx wasReserved wasPaid reason rp =
     check (if wasReserved \<or> wasPaid then releaseAll rp else return ()) (\<lambda>_.
     check (if wasPaid then refundPayment rp else return ()) (\<lambda>_.
     check (onVars (Order_Cancel reason)) (\<lambda>_.
     saveOrder rp)))"

definition CancelOrder_Handle :: "'s CancelOrder \<Rightarrow> CancelOrderInput \<Rightarrow> ('s, 'g) World
    \<Rightarrow> Order outcome \<times> ('s, 'g) World" where
  "CancelOrder_Handle h inp w =
     (case orep_FindByID (rp_Orders (co_reads h)) (coin_OrderID inp) (w_store w) of
        (Ok ord, s1) \<Rightarrow>
          (let wasReserved = (ord_status ord = StatusReserved);
               wasPaid = (ord_status ord = StatusPaid)
           in case co_uow h (cancelTx wasReserved wasPaid (coin_Reason inp)) (s1, ord) of
                (Ok _, (s2, ord')) \<Rightarrow>
                  (Ok (ord'\<lparr>pending := []\<rparr>),
                   publish (map EvOrder (pending ord')) (w\<lparr>w_store := s2\<rparr>))
              | (Err e, (s2, _)) \<Rightarrow> (Err e, w\<lparr>w_store := s2\<rparr>)
              | (Panic p, (s2, _)) \<Rightarrow> (Panic p, w\<lparr>w_store := s2\<rparr>))
      | (Err e, s1) \<Rightarrow> (Err e, w\<lparr>w_store := s1\<rparr>)
      | (Panic p, s1) \<Rightarrow> (Panic p, w\<lparr>w_store := s1\<rparr>))"

section \<open>UpdateOrderStatus\<close>

definition unsupported_target :: goerror where
  "unsupported_target = Validation ''order.unsupported_target_status'' ''unsupported target status''"

definition transition :: "OrderStatus \<Rightarrow> (Order, unit) prog" where
  "transition target =
     (if target = StatusReserved then Order_MarkReserved
      else if target = StatusPaid then Order_MarkPaid
      else if target = StatusFulfilled then Order_MarkFulfilled
      else if target = StatusCancelled then Order_Cancel ''status updated by administrator''
      else if target = StatusFailed then Order_Fail ''status updated by administrator''
      else fail unsupported_target)"

text \<open>
  The transaction finds the order itself, so nothing is captured; \<open>'h\<close> stays as it is.
\<close>

definition statusTx :: "uint64 \<Rightarrow> OrderStatus \<Rightarrow> 's RepositoryProvider \<Rightarrow> ('s \<times> 'h, unit) prog" where
  "statusTx orderID target rp = onStore
     (check (orep_FindByID (rp_Orders rp) orderID) (\<lambda>o1.
      case transition target o1 of (moved, o2) \<Rightarrow>
      check (lift moved) (\<lambda>_. orep_Update (rp_Orders rp) o2)))"

definition UpdateOrderStatus_Handle ::
  "(('s RepositoryProvider \<Rightarrow> ('s \<times> unit, unit) prog) \<Rightarrow> ('s \<times> unit, unit) prog)
    \<Rightarrow> uint64 \<Rightarrow> OrderStatus \<Rightarrow> ('s, unit) prog" where
  "UpdateOrderStatus_Handle uow orderID target s =
     (case uow (statusTx orderID target) (s, ()) of (r, (s', _)) \<Rightarrow> (r, s'))"

section \<open>Reading an order back\<close>

lemma itemToDomain_moves:
  "itemToDomain m = Ok i \<Longrightarrow> item_productID i = oim_ProductID m \<and> item_quantity i = oim_Quantity m"
  by (auto simp: itemToDomain_def checkR_Ok_iff NewItem_def split: if_splits)

lemma itemsToDomain_moves:
  "mapR itemToDomain rs = Ok items \<Longrightarrow>
    moves items = map (\<lambda>i. (oim_ProductID i, sint (oim_Quantity i))) rs"
proof (induction rs arbitrary: items)
  case Nil
  then show ?case by simp
next
  case (Cons r rs)
  then obtain i rest where "itemToDomain r = Ok i" "mapR itemToDomain rs = Ok rest" "items = i # rest"
    by (auto simp: checkR_Ok_iff)
  with Cons.IH itemToDomain_moves show ?case by fastforce
qed

lemma orderToDomain_fields:
  assumes "orderToDomain m = Ok o1"
  shows "moves (ord_items o1) = row_moves m" and "ord_id o1 = om_ID m"
    and "ord_status o1 = om_Status m" and "ord_userID o1 = om_UserID m"
    and "pending o1 = []" and "ord_total o1 = \<lparr>m_amount = om_TotalAmount m, m_currency = om_Currency m\<rparr>"
    and "ord_failureReason o1 = om_FailureReason m" and "ord_idempotencyKey o1 = om_IdempotencyKey m"
  using assms
  by (auto simp: orderToDomain_def checkR_Ok_iff ReconstituteOrder_def row_moves_def MustMoney_Ok_iff
      dest: itemsToDomain_moves)

text \<open>Updating one row of the orders changes the account by that row alone.\<close>

lemma units_of_update:
  assumes "distinct (map om_ID rows)" and "m \<in> set rows"
    and "om_Items (f m) = om_Items m"
  shows "units_of P pid (map (\<lambda>x. if om_ID x = om_ID m then f x else x) rows) =
    units_of P pid rows - (if P m then units pid (row_moves m) else 0)
      + (if P (f m) then units pid (row_moves m) else 0)"
proof -
  from assms(2) obtain xs ys where rows: "rows = xs @ m # ys" by (meson split_list)
  with assms(1) have "\<forall>x \<in> set xs \<union> set ys. om_ID x \<noteq> om_ID m" by (auto simp: image_iff)
  then have "map (\<lambda>x. if om_ID x = om_ID m then f x else x) rows = xs @ f m # ys"
    unfolding rows by (auto intro!: map_idI)
  moreover have "row_moves (f m) = row_moves m" using assms(3) by (simp add: row_moves_def)
  ultimately show ?thesis by (simp add: rows units_of_def)
qed

lemma order_updated_rows:
  assumes "db_ok d" and "m \<in> set (db_orders d)" and "ord_id o2 = om_ID m"
  shows "held (order_updated o2 d) pid = held d pid
      - (if open_row m then units pid (row_moves m) else 0)
      + (if ord_status o2 = StatusReserved \<or> ord_status o2 = StatusPaid
         then units pid (row_moves m) else 0)"
    and "shipped (order_updated o2 d) pid = shipped d pid
      - (if om_Status m = StatusFulfilled then units pid (row_moves m) else 0)
      + (if ord_status o2 = StatusFulfilled then units pid (row_moves m) else 0)"
  using units_of_update [OF db_ok_columns(2) [OF assms(1)] assms(2), of "order_columns o2"]
  by (simp_all add: held_def shipped_def order_updated_def assms(3) open_row_def)

section \<open>What a cancellation does to the tables\<close>

definition cancelled_order :: "string \<Rightarrow> Order \<Rightarrow> Order" where
  "cancelled_order reason o1 = o1\<lparr>ord_status := StatusCancelled,
     pending := pending o1 @ [OrderCancelled (ord_id o1) reason]\<rparr>"

definition refunded_rows :: "uint64 \<Rightarrow> PaymentModel list \<Rightarrow> PaymentModel list" where
  "refunded_rows oid rows = map (\<lambda>p. if pym_OrderID p = oid then p\<lparr>pym_Status := PayRefunded\<rparr> else p) rows"

definition order_cancelled :: "string \<Rightarrow> Order \<Rightarrow> DB \<Rightarrow> DB \<Rightarrow> Order \<Rightarrow> bool" where
  "order_cancelled reason o1 d d' o2 \<longleftrightarrow>
     Order_CanCancel o1 \<and> o2 = cancelled_order reason o1 \<and>
     db_orders d' = db_orders (order_updated o2 d) \<and> db_ok d' \<and> rest_kept d d' \<and>
     (if ord_status o1 = StatusPending then stock d' = stock d
      else stock_shift 1 (-1) (moves (ord_items o1)) d d' \<and> covers snd (moves (ord_items o1)) d) \<and>
     (if ord_status o1 = StatusPaid
      then db_payments d' = refunded_rows (ord_id o1) (db_payments d) \<and>
        (\<exists>p \<in> set (db_payments d). pym_OrderID p = ord_id o1 \<and> pym_Status p = PaySucceeded)
      else db_payments d' = db_payments d)"

lemma saved_refund:
  assumes "db_ok d" and "m \<in> set (db_payments d)" and "paymentToDomain m = Ok p"
    and "Payment_Refund p = (Ok (), p')" and "payment_saved p' d d'"
  shows "d' = d\<lparr>db_payments := refunded_rows (pym_OrderID m) (db_payments d)\<rparr> \<and>
    pym_Status m = PaySucceeded \<and> db_ok d'"
proof -
  have p': "paymentToModel p' = m\<lparr>pym_Status := PayRefunded\<rparr>" and st: "pym_Status m = PaySucceeded"
    using assms(4) paymentToModel_ToDomain [OF assms(3)] paymentToDomain_fields(3) [OF assms(3)]
    by (auto simp: Payment_Refund_def Record_def paymentToModel_def split: if_splits)
  have keys: "keys_ok paymentSchema (db_payments d)" using assms(1) by (simp add: db_ok_def)
  have id0: "pym_ID m \<noteq> 0" using keys_ok_id_nonzero [OF keys assms(2)] by (simp add: paymentSchema_def)
  have ids: "sc_id paymentSchema = pym_ID" by (simp add: paymentSchema_def)
  from assms(5) id0 assms(2) have
    d': "d' = d\<lparr>db_payments := replace_row paymentSchema (m\<lparr>pym_Status := PayRefunded\<rparr>) (db_payments d)\<rparr>"
    unfolding payment_saved_def p' saves_def ids by (auto split: if_splits)
  have same: "x = m" if "x \<in> set (db_payments d)" "pym_ID x = pym_ID m \<or> pym_OrderID x = pym_OrderID m" for x
    using that assms(2) db_ok_columns(4,5) [OF assms(1)] by (metis distinct_key_unique)
  have rows: "replace_row paymentSchema (m\<lparr>pym_Status := PayRefunded\<rparr>) (db_payments d) =
      refunded_rows (pym_OrderID m) (db_payments d)"
    using same by (auto simp: replace_row_def refunded_rows_def paymentSchema_def)
  have "keys_ok paymentSchema (refunded_rows (pym_OrderID m) (db_payments d))"
    using keys keys_ok_map [of paymentSchema "\<lambda>q. if pym_OrderID q = pym_OrderID m
      then q\<lparr>pym_Status := PayRefunded\<rparr> else q" "db_payments d"]
    by (simp add: refunded_rows_def paymentSchema_def)
  with assms(1) d' rows st show ?thesis by (simp add: db_ok_def)
qed

lemma saveOrder_Ok:
  "saveOrder R (s, o1) = (r, (s', o2)) \<longleftrightarrow> orep_Update (rp_Orders R) o1 s = (r, s') \<and> o2 = o1"
  by (auto simp: saveOrder_def split: prod.splits)

locale cancel_ports = shop_ports ok rp uok uow
  for ok :: "'g \<Rightarrow> ('s \<Rightarrow> DB) \<Rightarrow> bool" and rp :: "'g \<Rightarrow> 's RepositoryProvider"
    and uok :: "'c \<Rightarrow> ('s \<Rightarrow> DB) \<Rightarrow> bool" and uow :: "'c \<Rightarrow> 's OrderUow"
begin

lemma refundPayment_Ok:
  assumes "ok g view" and "db_ok (view s)" and "refundPayment (rp g) (s, o1) = (Ok u, (s', o2))"
  shows "o2 = o1 \<and> db_ok (view s') \<and>
    view s' = (view s)\<lparr>db_payments := refunded_rows (ord_id o1) (db_payments (view s))\<rparr> \<and>
    (\<exists>p \<in> set (db_payments (view s)). pym_OrderID p = ord_id o1 \<and> pym_Status p = PaySucceeded)"
proof -
  let ?m = "check (prep_FindByOrderID (rp_Payments (rp g)) (ord_id o1)) (\<lambda>pay.
      case Payment_Refund pay of (refunded, pay') \<Rightarrow>
      check (lift refunded) (\<lambda>_. prep_Update (rp_Payments (rp g)) pay'))"
  from assms(3) have run: "?m s = (Ok (), s')" and o2: "o2 = o1"
    by (auto simp: refundPayment_def split: prod.splits)
  from run obtain p s1 where
    f: "prep_FindByOrderID (rp_Payments (rp g)) (ord_id o1) s = (Ok p, s1)" and
    rest: "(case Payment_Refund p of (refunded, pay') \<Rightarrow>
      check (lift refunded) (\<lambda>_. prep_Update (rp_Payments (rp g)) pay')) s1 = (Ok (), s')"
    by (auto simp: check_Ok_iff)
  obtain rr p' where rr: "Payment_Refund p = (rr, p')" by force
  with rest have r: "Payment_Refund p = (Ok (), p')" and
    upd: "prep_Update (rp_Payments (rp g)) p' s1 = (Ok (), s')"
    by (auto simp: check_Ok_iff)
  from Find_payment_order [OF assms(1) f] obtain m where
    m: "view s1 = view s" "m \<in> set (db_payments (view s))" "pym_OrderID m = ord_id o1"
      "paymentToDomain m = Ok p" by auto
  from saved_refund [OF assms(2) m(2,4) r] Update_payment [OF assms(1) upd] m o2 show ?thesis by auto
qed

lemma cancelTx_Ok:
  assumes "ok g view" and "db_ok (view s)"
    and "cancelTx (ord_status o1 = StatusReserved) (ord_status o1 = StatusPaid) reason (rp g) (s, o1)
      = (Ok u, (s', o2))"
  shows "order_cancelled reason o1 (view s) (view s') o2"
proof -
  let ?open = "ord_status o1 = StatusReserved \<or> ord_status o1 = StatusPaid"
  from assms(3) obtain s1 oa s2 ob where
    rel: "(if ?open then releaseAll (rp g) else return ()) (s, o1) = (Ok (), (s1, oa))" and
    ref: "(if ord_status o1 = StatusPaid then refundPayment (rp g) else return ()) (s1, oa) = (Ok (), (s2, ob))" and
    can: "Order_Cancel reason ob = (Ok (), o2)" and
    upd: "orep_Update (rp_Orders (rp g)) o2 s2 = (Ok (), s')"
    by (auto simp: cancelTx_def check_Ok_iff saveOrder_Ok onVars_iff simp del: onVars_apply)
  have oa: "oa = o1" using rel by (auto simp: releaseAll_def split: if_splits prod.splits)
  have r1: "db_ok (view s1) \<and> (if ?open
      then stock_moved 1 (-1) (moves (ord_items o1)) (view s) (view s1) \<and> covers snd (moves (ord_items o1)) (view s)
      else view s1 = view s)"
  proof (cases ?open)
    case True
    with rel have "forEach (releaseItem (rp g)) (ord_items o1) s = (Ok (), s1)"
      by (auto simp: releaseAll_def split: prod.splits)
    from releaseItems [OF assms(1,2) this] True show ?thesis by auto
  next
    case False
    with rel assms(2) show ?thesis by auto
  qed
  have r2: "ob = o1 \<and> db_ok (view s2) \<and> (if ord_status o1 = StatusPaid
      then view s2 = (view s1)\<lparr>db_payments := refunded_rows (ord_id o1) (db_payments (view s1))\<rparr> \<and>
        (\<exists>p \<in> set (db_payments (view s1)). pym_OrderID p = ord_id o1 \<and> pym_Status p = PaySucceeded)
      else view s2 = view s1)"
  proof (cases "ord_status o1 = StatusPaid")
    case True
    with ref oa have "refundPayment (rp g) (s1, o1) = (Ok (), (s2, ob))" by simp
    from refundPayment_Ok [OF assms(1) conjunct1 [OF r1] this] show ?thesis
      unfolding if_P [OF True] .
  next
    case False
    with ref oa r1 show ?thesis by simp
  qed
  from can r2 have o2: "o2 = cancelled_order reason o1" "Order_CanCancel o1"
    by (auto simp: Order_Cancel_def cancelled_order_def Record_def split: if_splits)
  from Update_order [OF assms(1) upd] have v: "view s' = order_updated o2 (view s2)" .
  have pay1: "db_payments (view s1) = db_payments (view s)" and ord1: "db_orders (view s1) = db_orders (view s)"
    using r1 stock_moved_frame(3,4) [of 1 "-1" "moves (ord_items o1)" "view s" "view s1"]
    by (auto split: if_splits)
  have st: "if ord_status o1 = StatusPending then stock (view s') = stock (view s)
      else stock_shift 1 (-1) (moves (ord_items o1)) (view s) (view s') \<and> covers snd (moves (ord_items o1)) (view s)"
  proof -
    have s2: "stock (view s2) = stock (view s1)" using r2 by (auto simp: stock_def inv_row_def split: if_splits)
    have "stock (view s') = stock (view s1)" using v s2 by simp
    with r1 o2(2) show ?thesis
      by (auto simp: Order_CanCancel_def stock_shift_def dest: stock_moved_shift split: if_splits)
  qed
  have "db_orders (view s2) = db_orders (view s)" using r2 ord1 by (auto split: if_splits)
  then have "db_orders (view s') = db_orders (order_updated o2 (view s))"
    by (simp add: v order_updated_def)
  moreover have "db_ok (view s')" using r2 v db_ok_order_updated by simp
  moreover have "rest_kept (view s) (view s')"
    using r1 r2 v stock_moved_rest [of 1 "-1" "moves (ord_items o1)" "view s" "view s1"]
    by (auto split: if_splits)
  ultimately show ?thesis
    using o2 st r2 pay1 v by (auto simp: order_cancelled_def split: if_splits)
qed

lemma Cancel_cases:
  assumes "ok g0 view" and "co_reads h = rp g0" and "uok c view" and "co_uow h = uow c"
    and "db_ok (view (w_store w))" and "CancelOrder_Handle h inp w = (res, w')"
  obtains (cancelled) m o1 o2 where "m \<in> set (db_orders (view (w_store w)))"
      and "om_ID m = coin_OrderID inp" and "orderToDomain m = Ok o1"
      and "order_cancelled (coin_Reason inp) o1 (view (w_store w)) (view (w_store w')) o2"
      and "res = Ok (o2\<lparr>pending := []\<rparr>)"
      and "w_published w' = w_published w @ [[EvOrder (OrderCancelled (ord_id o1) (coin_Reason inp))]]"
  | (refused) "\<not> is_Ok res" and "view (w_store w') = view (w_store w)"
      and "w_published w' = w_published w"
proof -
  obtain fr s1 where find: "orep_FindByID (rp_Orders (rp g0)) (coin_OrderID inp) (w_store w) = (fr, s1)"
    by force
  note v1 = Find_order_reads [OF assms(1) find]
  show ?thesis
  proof (cases "is_Ok fr")
    case False
    with find assms(2,6) v1 show ?thesis
      by (intro refused) (auto simp: CancelOrder_Handle_def split: outcome.splits)
  next
    case True
    then obtain o1 where o1: "fr = Ok o1" by (auto simp: is_Ok_iff)
    from Find_order [OF assms(1) find [unfolded o1]] obtain m where
      m: "m \<in> set (db_orders (view (w_store w)))" "om_ID m = coin_OrderID inp" "orderToDomain m = Ok o1"
      by auto
    let ?F = "cancelTx (ord_status o1 = StatusReserved) (ord_status o1 = StatusPaid) (coin_Reason inp)"
    obtain r s2 o2 where run: "uow c ?F (s1, o1) = (r, (s2, o2))" by (metis prod_cases3)
    from Do_transaction [OF assms(3)] obtain g txn where
      g: "ok g view" "transactional view txn" "uow c ?F = txn (?F (rp g))" by blast
    from g(2) run [unfolded g(3)] show ?thesis
    proof (cases rule: transactional_cases)
      case (committed s0 sc)
      from cancelTx_Ok [OF g(1) _ committed(2)] committed(1,4) v1 assms(5)
      have c: "order_cancelled (coin_Reason inp) o1 (view (w_store w)) (view s2) o2" by simp
      have out: "res = Ok (o2\<lparr>pending := []\<rparr>)" "w' = publish (map EvOrder (pending o2)) (w\<lparr>w_store := s2\<rparr>)"
        using assms(2,4,6) find o1 run committed(3) by (simp_all add: CancelOrder_Handle_def Let_def)
      have "pending o2 = [OrderCancelled (ord_id o1) (coin_Reason inp)]"
        using c orderToDomain_fields(5) [OF m(3)] by (simp add: order_cancelled_def cancelled_order_def)
      with cancelled [OF m _ out(1)] c out(2) show ?thesis by (simp add: publish_def)
    next
      case (not_begun e)
      with assms(2,4,6) find o1 run v1 show ?thesis
        by (intro refused) (auto simp: CancelOrder_Handle_def Let_def)
    next
      case (rolled_back s0 sc r0)
      with assms(2,4,6) find o1 run v1 show ?thesis
        by (intro refused) (auto simp: CancelOrder_Handle_def Let_def split: outcome.splits)
    qed
  qed
qed

end

interpretation cancelling: cancel_ports gorm_ok NewRepositories uow_ok unitOfWork_Do
  by unfold_locales

section \<open>What a status update does to the tables\<close>

text \<open>The administrator's transitions are edges of the state machine, and nothing else.\<close>

lemma transition_Ok:
  assumes "transition target o1 = (Ok u, o2)"
  shows "order_edge (ord_status o1) target \<and> ord_status o2 = target \<and> ord_id o2 = ord_id o1 \<and>
    ord_total o2 = ord_total o1 \<and> ord_failureReason o2 =
      (if target = StatusFailed then ''status updated by administrator'' else ord_failureReason o1)"
  using assms
  by (auto simp: transition_def order_op_defs order_edge_iff Order_CanCancel_def Order_IsTerminal_def
      Record_def split: if_splits)

lemma transition_realises: "order_edge (ord_status o1) target \<Longrightarrow> is_Ok (fst (transition target o1))"
  by (auto simp: transition_def order_op_defs order_edge_iff Order_CanCancel_def Order_IsTerminal_def)

locale status_ports = shop_ports ok rp uok uow
  for ok :: "'g \<Rightarrow> ('s \<Rightarrow> DB) \<Rightarrow> bool" and rp :: "'g \<Rightarrow> 's RepositoryProvider"
    and uok :: "'c \<Rightarrow> ('s \<Rightarrow> DB) \<Rightarrow> bool"
    and uow :: "'c \<Rightarrow> ('s RepositoryProvider \<Rightarrow> ('s \<times> unit, unit) prog) \<Rightarrow> ('s \<times> unit, unit) prog"
begin

lemma statusTx_Ok:
  assumes "ok g view" and "statusTx i target (rp g) (s, ()) = (Ok u, (s', v))"
  shows "\<exists>m \<in> set (db_orders (view s)). \<exists>o1 o2. om_ID m = i \<and> orderToDomain m = Ok o1 \<and>
    transition target o1 = (Ok (), o2) \<and> view s' = order_updated o2 (view s)"
proof -
  let ?m = "check (orep_FindByID (rp_Orders (rp g)) i) (\<lambda>o1.
      case transition target o1 of (moved, o2) \<Rightarrow>
      check (lift moved) (\<lambda>_. orep_Update (rp_Orders (rp g)) o2))"
  from assms(2) have "?m s = (Ok (), s')" by (auto simp: statusTx_def split: prod.splits)
  then obtain o1 s1 where
    f: "orep_FindByID (rp_Orders (rp g)) i s = (Ok o1, s1)" and
    rest: "(case transition target o1 of (moved, o2) \<Rightarrow>
      check (lift moved) (\<lambda>_. orep_Update (rp_Orders (rp g)) o2)) s1 = (Ok (), s')"
    by (auto simp: check_Ok_iff)
  obtain r o2 where tr: "transition target o1 = (r, o2)" by force
  with rest have r: "r = Ok ()" and upd: "orep_Update (rp_Orders (rp g)) o2 s1 = (Ok (), s')"
    by (auto simp: check_Ok_iff)
  from Find_order [OF assms(1) f] Find_order_reads [OF assms(1) f] Update_order [OF assms(1) upd] tr r
  show ?thesis by auto
qed

lemma Status_cases:
  assumes "uok c view" and "UpdateOrderStatus_Handle (uow c) i target s = (r, s')"
  obtains (updated) m o1 o2 where "r = Ok ()" and "m \<in> set (db_orders (view s))" and "om_ID m = i"
      and "orderToDomain m = Ok o1" and "transition target o1 = (Ok (), o2)"
      and "view s' = order_updated o2 (view s)"
  | (refused) "\<not> is_Ok r" and "view s' = view s"
proof -
  from Do_transaction [OF assms(1)] obtain g txn where
    g: "ok g view" "transactional view txn"
      "uow c (statusTx i target) = txn (statusTx i target (rp g))" by blast
  obtain v where run: "txn (statusTx i target (rp g)) (s, ()) = (r, (s', v))"
    using assms(2) g(3) by (auto simp: UpdateOrderStatus_Handle_def split: prod.splits)
  from g(2) run show ?thesis
  proof (cases rule: transactional_cases)
    case (committed s0 s1)
    from statusTx_Ok [OF g(1) committed(2)] committed(1,3,4) show ?thesis by (metis updated)
  qed (auto intro: refused)
qed

end

interpretation updating: status_ports gorm_ok NewRepositories uow_ok unitOfWork_Do
  by unfold_locales

end
