(* ===== verification/CancelOrder_Props.thy ===== *)
theory CancelOrder_Props
  imports CancelOrder Examples
begin

text \<open>
  The properties of CancelOrder and UpdateOrderStatus over the repositories of package gormrepo,
  with witnesses on the reference database.
\<close>

definition cancel_wired :: "'s Gorm \<Rightarrow> 's Gorm \<times> ('s, Order) Transaction \<Rightarrow> ('s \<Rightarrow> DB) \<Rightarrow> 's CancelOrder
    \<Rightarrow> bool" where
  "cancel_wired G u view h \<longleftrightarrow> gorm_ok G view \<and> uow_ok u view \<and> co_uow h = unitOfWork_Do u \<and>
     co_reads h = NewRepositories G"

lemma cancel_wiredD:
  assumes "cancel_wired G u view h"
  shows "gorm_ok G view" and "co_reads h = NewRepositories G" and "uow_ok u view"
    and "co_uow h = unitOfWork_Do u"
  using assms by (simp_all add: cancel_wired_def)

definition demo_cancel :: "DB CancelOrder" where
  "demo_cancel = \<lparr>co_uow = unitOfWork_Do (memGorm, memTransaction),
     co_reads = NewRepositories memGorm\<rparr>"

lemma demo_cancel_wired: "cancel_wired memGorm (memGorm, memTransaction) id demo_cancel"
  by (simp add: cancel_wired_def demo_cancel_def memGorm_ok uow_ok_def memTransaction_ok)

text \<open>The demo database with the demo order reserved, or paid for with its stock still held.\<close>

definition demo_open_row :: "OrderStatus \<Rightarrow> OrderModel" where
  "demo_open_row st = \<lparr>om_ID = 1, om_UserID = 3, om_Status = st, om_TotalAmount = 500,
     om_Currency = ''USD'', om_IdempotencyKey = ''k1'', om_FailureReason = '''',
     om_Items = [\<lparr>oim_ID = 1, oim_OrderID = 1, oim_ProductID = 7, oim_SKU = ''KB'',
       oim_Name = ''Keyboard'', oim_UnitPriceAmount = 250, oim_Currency = ''USD'', oim_Quantity = 2\<rparr>],
     om_CreatedAt = 100\<rparr>"

definition demo_payment :: PaymentModel where
  "demo_payment = \<lparr>pym_ID = 1, pym_OrderID = 1, pym_IdempotencyKey = ''k1'', pym_Amount = 500,
     pym_Currency = ''USD'', pym_Status = PaySucceeded, pym_Provider = ''mock'',
     pym_ProviderRef = ''ref'', pym_Attempts = 1, pym_FailureReason = '''', pym_CreatedAt = 200\<rparr>"

definition demo_open :: "OrderStatus \<Rightarrow> DB" where
  "demo_open st = demo_db\<lparr>db_inventories := [demo_stock\<lparr>im_Available := 3, im_Reserved := 2\<rparr>],
     db_orders := [demo_open_row st],
     db_payments := (if st = StatusPaid then [demo_payment] else [])\<rparr>"

lemma demo_open_ok: "db_ok (demo_open st)"
  by (simp add: db_ok_def demo_open_def demo_db_def schema_defs demo_stock_def demo_product_def
      demo_open_row_def demo_payment_def)

lemma demo_open_stock: "stock (demo_open st) p = (if p = 7 then Some (3, 2) else None)"
  by (simp add: stock_def inv_row_def demo_open_def demo_stock_def)

lemma demo_open_tables:
  "db_orders (demo_open st) = [demo_open_row st]"
  "db_payments (demo_open st) = (if st = StatusPaid then [demo_payment] else [])"
  by (simp_all add: demo_open_def)

lemma demo_open_accounted: "st = StatusReserved \<or> st = StatusPaid \<Longrightarrow> accounted (demo_open st)"
  unfolding accounted_def demo_open_stock
  by (auto simp: held_def units_of_def open_row_def demo_open_def demo_db_def demo_open_row_def
      row_moves_def)

text \<open>Saving an order changed after it was read rewrites the row it was read from, and no other.\<close>

lemma order_updated_from_row:
  assumes "db_ok d" and "m \<in> set (db_orders d)" and "orderToDomain m = Ok o1"
    and "ord_id o2 = ord_id o1" and "ord_total o2 = ord_total o1"
  shows "order_updated o2 d = d\<lparr>db_orders := map (\<lambda>x. if om_ID x = om_ID m
      then x\<lparr>om_Status := ord_status o2, om_FailureReason := ord_failureReason o2\<rparr> else x) (db_orders d)\<rparr>"
    and "ord_failureReason o2 = ord_failureReason o1 \<Longrightarrow> order_updated o2 d = d\<lparr>db_orders :=
      map (\<lambda>x. if om_ID x = om_ID m then x\<lparr>om_Status := ord_status o2\<rparr> else x) (db_orders d)\<rparr>"
proof -
  note f = orderToDomain_fields [OF assms(3)]
  have same: "x = m" if "x \<in> set (db_orders d)" "om_ID x = om_ID m" for x
    using distinct_key_unique [OF db_ok_columns(2) [OF assms(1)] that(1) assms(2) that(2)] .
  have cols: "order_columns o2 x = x\<lparr>om_Status := ord_status o2, om_FailureReason := ord_failureReason o2\<rparr>"
    if "x \<in> set (db_orders d)" "om_ID x = om_ID m" for x
    using same [OF that] f assms(5) by (simp add: order_columns_def)
  with f(2) assms(4) show "order_updated o2 d = d\<lparr>db_orders := map (\<lambda>x. if om_ID x = om_ID m
      then x\<lparr>om_Status := ord_status o2, om_FailureReason := ord_failureReason o2\<rparr> else x) (db_orders d)\<rparr>"
    by (auto simp: order_updated_def intro!: arg_cong [of _ _ "\<lambda>rs. d\<lparr>db_orders := rs\<rparr>"])
  assume reason: "ord_failureReason o2 = ord_failureReason o1"
  have "order_columns o2 x = x\<lparr>om_Status := ord_status o2\<rparr>"
    if "x \<in> set (db_orders d)" "om_ID x = om_ID m" for x
    using same [OF that] f assms(5) reason by (simp add: order_columns_def)
  with f(2) assms(4) show "order_updated o2 d = d\<lparr>db_orders :=
      map (\<lambda>x. if om_ID x = om_ID m then x\<lparr>om_Status := ord_status o2\<rparr> else x) (db_orders d)\<rparr>"
    by (auto simp: order_updated_def intro!: arg_cong [of _ _ "\<lambda>rs. d\<lparr>db_orders := rs\<rparr>"])
qed

section \<open>CancelOrder\<close>

text \<open>C10: cancelling succeeds only for a pending, reserved or paid order; it stores the order as
  cancelled, gives back exactly the units it holds when it was reserved or paid, refunds the
  succeeded payment of a paid order, and publishes the cancellation with the caller's reason.
  A call that returns an error changes no table and publishes nothing.\<close>

theorem cancel_order_effect:
  assumes "cancel_wired G u view h" and "db_ok (view (w_store w))"
    and "CancelOrder_Handle h inp w = (res, w')"
  shows "case res of
      Ok o2 \<Rightarrow> \<exists>m \<in> set (db_orders (view (w_store w))). om_ID m = coin_OrderID inp \<and>
        ord_id o2 = om_ID m \<and> ord_status o2 = StatusCancelled \<and>
        order_edge (om_Status m) StatusCancelled \<and>
        db_orders (view (w_store w')) = map (\<lambda>x. if om_ID x = om_ID m
          then x\<lparr>om_Status := StatusCancelled\<rparr> else x) (db_orders (view (w_store w))) \<and>
        (if open_row m then stock_shift 1 (-1) (row_moves m) (view (w_store w)) (view (w_store w'))
         else stock (view (w_store w')) = stock (view (w_store w))) \<and>
        (if om_Status m = StatusPaid
         then db_payments (view (w_store w')) = refunded_rows (om_ID m) (db_payments (view (w_store w))) \<and>
           (\<exists>p \<in> set (db_payments (view (w_store w))). pym_OrderID p = om_ID m \<and> pym_Status p = PaySucceeded)
         else db_payments (view (w_store w')) = db_payments (view (w_store w))) \<and>
        w_published w' = w_published w @ [[EvOrder (OrderCancelled (om_ID m) (coin_Reason inp))]]
    | _ \<Rightarrow> view (w_store w') = view (w_store w) \<and> w_published w' = w_published w"
proof -
  note wd = cancel_wiredD [OF assms(1)]
  from wd assms(2,3) show ?thesis
  proof (cases rule: cancelling.Cancel_cases)
    case (cancelled m o1 o2)
    note f = orderToDomain_fields [OF cancelled(3)]
    have can: "Order_CanCancel o1" and o2: "o2 = cancelled_order (coin_Reason inp) o1"
      and rows: "db_orders (view (w_store w')) = db_orders (order_updated o2 (view (w_store w)))"
      using cancelled(4) by (simp_all add: order_cancelled_def)
    have "db_orders (view (w_store w')) = map (\<lambda>x. if om_ID x = om_ID m
        then x\<lparr>om_Status := StatusCancelled\<rparr> else x) (db_orders (view (w_store w)))"
      using order_updated_from_row(2) [OF assms(2) cancelled(1,3), of o2] o2
      by (simp add: rows cancelled_order_def)
    moreover have "order_edge (om_Status m) StatusCancelled"
      using can f(3) by (auto simp: order_edge_iff Order_CanCancel_def)
    moreover have "open_row m \<longleftrightarrow> ord_status o1 \<noteq> StatusPending"
      using can f(3) by (auto simp: open_row_def Order_CanCancel_def)
    moreover have "(ord_status o1 = StatusPaid) = (om_Status m = StatusPaid)" using f(3) by simp
    ultimately show ?thesis
      using cancelled f o2 unfolding order_cancelled_def
      by (auto simp: cancelled_order_def intro!: bexI [of _ m] split: if_splits)
  next
    case refused
    then show ?thesis by (cases res) auto
  qed
qed

text \<open>A cancellation takes its units out of what is held, if it held any.\<close>

lemma cancel_accounts:
  assumes "cancel_wired G u view h" and "db_ok (view (w_store w))" and "accounted (view (w_store w))"
    and "CancelOrder_Handle h inp w = (res, w')"
  shows "db_ok (view (w_store w')) \<and> accounted (view (w_store w')) \<and>
    warehouse (view (w_store w')) = warehouse (view (w_store w)) \<and>
    (\<forall>pid. (stock (view (w_store w')) pid = None \<longleftrightarrow> stock (view (w_store w)) pid = None) \<and>
       held (view (w_store w')) pid \<le> held (view (w_store w)) pid)"
proof -
  let ?d = "view (w_store w)" and ?d' = "view (w_store w')"
  note wd = cancel_wiredD [OF assms(1)]
  from wd assms(2,4) show ?thesis
  proof (cases rule: cancelling.Cancel_cases)
    case (cancelled m o1 o2)
    note f = orderToDomain_fields [OF cancelled(3)]
    have c: "Order_CanCancel o1" "o2 = cancelled_order (coin_Reason inp) o1" "db_ok ?d'"
      "db_orders ?d' = db_orders (order_updated o2 ?d)"
      "if ord_status o1 = StatusPending then stock ?d' = stock ?d
       else stock_shift 1 (-1) (row_moves m) ?d ?d'"
      using cancelled(4) f(1) by (auto simp: order_cancelled_def split: if_splits)
    have id2: "ord_id o2 = om_ID m" and st2: "ord_status o2 = StatusCancelled"
      using c(2) f(2) by (simp_all add: cancelled_order_def)
    have held': "held ?d' pid = held ?d pid - (if open_row m then units pid (row_moves m) else 0)"
      and shipped': "shipped ?d' pid = shipped ?d pid" for pid
      using order_updated_rows [OF assms(2) cancelled(1) id2, of pid] st2 c(1,4) f(3)
      by (auto simp: held_def shipped_def Order_CanCancel_def)
    have op: "open_row m \<longleftrightarrow> ord_status o1 \<noteq> StatusPending"
      using c(1) f(3) by (auto simp: open_row_def Order_CanCancel_def)
    have nonneg: "0 \<le> units pid (row_moves m)" for pid
      by (rule units_nonneg) (use assms(3) cancelled(1) in \<open>auto simp: accounted_def row_moves_def less_imp_le\<close>)
    have stock': "stock ?d' pid = map_option (\<lambda>(a, r). if open_row m
        then (a + units pid (row_moves m), r - units pid (row_moves m)) else (a, r)) (stock ?d pid)" for pid
      using c(5) op by (auto simp: stock_shift_def map_option_case split: if_splits option.splits)
    have "\<forall>x \<in> set (db_orders ?d'). \<forall>i \<in> set (om_Items x). 0 < sint (oim_Quantity i)"
      using assms(3) by (auto simp: c(4) order_updated_def accounted_def)
    moreover have "0 \<le> a \<and> r = held ?d' pid" if "stock ?d' pid = Some (a, r)" for pid a r
      using that stock' [of pid] held' [of pid] nonneg [of pid] assms(3)
      by (auto simp: accounted_def split: if_splits)
    moreover have "warehouse ?d' pid = warehouse ?d pid" for pid
      using stock' [of pid] shipped' [of pid] by (cases "stock ?d pid") (auto simp: warehouse_def)
    moreover have "(stock ?d' pid = None \<longleftrightarrow> stock ?d pid = None) \<and> held ?d' pid \<le> held ?d pid" for pid
      using stock' [of pid] held' [of pid] nonneg [of pid] by simp
    ultimately show ?thesis using c(3) by (auto simp: accounted_def)
  next
    case refused
    with assms(2,3) show ?thesis by simp
  qed
qed

text \<open>Cancelling keeps the books in order and loses no unit, whatever its outcome.\<close>

theorem cancel_order_accounting:
  assumes "cancel_wired G u view h" and "db_ok (view (w_store w))" and "accounted (view (w_store w))"
    and "CancelOrder_Handle h inp w = (res, w')"
  shows "db_ok (view (w_store w')) \<and> accounted (view (w_store w')) \<and>
    warehouse (view (w_store w')) = warehouse (view (w_store w))"
  using cancel_accounts [OF assms] by simp

section \<open>UpdateOrderStatus\<close>

text \<open>C24: an administrator's update succeeds only along an edge of the order state machine, and
  then writes that order's status (and the failure reason) and nothing else: no stock is
  released or committed, no payment refunded. A refused update changes no table.\<close>

theorem update_status_effect:
  assumes "uow_ok u view" and "db_ok (view s)"
    and "UpdateOrderStatus_Handle (unitOfWork_Do u) i target s = (r, s')"
  shows "case r of
      Ok _ \<Rightarrow> \<exists>m \<in> set (db_orders (view s)). om_ID m = i \<and> order_edge (om_Status m) target \<and>
        view s' = (view s)\<lparr>db_orders := map (\<lambda>x. if om_ID x = i
          then x\<lparr>om_Status := target, om_FailureReason := (if target = StatusFailed
             then ''status updated by administrator'' else om_FailureReason x)\<rparr> else x)
          (db_orders (view s))\<rparr>
    | _ \<Rightarrow> view s' = view s"
  using assms(1,3)
proof (cases rule: updating.Status_cases)
  case (updated m o1 o2)
  note f = orderToDomain_fields [OF updated(4)] and t = transition_Ok [OF updated(5)]
  have t2: "ord_status o2 = target" "ord_id o2 = ord_id o1" "ord_total o2 = ord_total o1"
    using t by simp_all
  note rows = order_updated_from_row [OF assms(2) updated(2,4) t2(2,3), unfolded updated(3) t2(1)]
  have "order_updated o2 (view s) = (view s)\<lparr>db_orders := map (\<lambda>x. if om_ID x = i
          then x\<lparr>om_Status := target, om_FailureReason := (if target = StatusFailed
             then ''status updated by administrator'' else om_FailureReason x)\<rparr> else x)
          (db_orders (view s))\<rparr>"
  proof (cases "target = StatusFailed")
    case True
    with t have "ord_failureReason o2 = ''status updated by administrator''" by simp
    with rows(1) True show ?thesis by simp
  next
    case False
    with t have "ord_failureReason o2 = ord_failureReason o1" by simp
    from rows(2) [OF this] False show ?thesis by simp
  qed
  with updated f(3) t show ?thesis by (auto intro!: bexI [of _ m])
next
  case refused
  then show ?thesis by (cases r) auto
qed

text \<open>C25: closing an order that holds stock through the status update leaves the books out of
  order: the reserved units of its products stay counted, held by no open order.\<close>

theorem update_status_leaks_stock:
  assumes "uow_ok u view" and "db_ok (view s)" and "accounted (view s)"
    and "m \<in> set (db_orders (view s))" and "om_ID m = i" and "open_row m"
    and "target \<in> {StatusCancelled, StatusFailed, StatusFulfilled}"
    and "stock (view s) pid = Some ar" and "0 < units pid (row_moves m)"
    and "UpdateOrderStatus_Handle (unitOfWork_Do u) i target s = (Ok (), s')"
  shows "stock (view s') pid = Some ar \<and> held (view s') pid < snd ar \<and> \<not> accounted (view s')"
  using assms(1,10)
proof (cases rule: updating.Status_cases)
  case (updated m' o1 o2)
  have "m' = m"
    using distinct_key_unique [OF db_ok_columns(2) [OF assms(2)] updated(2) assms(4)]
      updated(3) assms(5) by simp
  note t = transition_Ok [OF updated(5)]
  have id2: "ord_id o2 = om_ID m"
    using t orderToDomain_fields(2) [OF updated(4)] \<open>m' = m\<close> by simp
  have "held (view s') pid = held (view s) pid - units pid (row_moves m)"
    using order_updated_rows(1) [OF assms(2,4) id2, of pid] assms(6,7) t updated(6) by auto
  moreover have "snd ar = held (view s) pid"
    using assms(3,8) by (cases ar) (auto simp: accounted_def)
  moreover have st: "stock (view s') pid = Some ar" using assms(8) updated(6) by simp
  moreover have "\<not> accounted (view s')"
    using calculation assms(9) by (cases ar) (auto simp: accounted_def)
  ultimately show ?thesis using assms(9) by simp
next
  case refused
  then show ?thesis by simp
qed

section \<open>Witnesses\<close>

lemmas cancel_eval = mem_eval CancelOrder_Handle_def cancelTx_def releaseAll_def refundPayment_def
  saveOrder_def demo_cancel_def unitOfWork_Do_def orderRepo_FindByID_def orderToDomain_def
  itemToDomain_def MustMoney_def NewMoney_def NewItem_def ReconstituteOrder_def releaseItem_def
  inventoryRepo_Release_def release_columns_def order_op_defs Order_CanCancel_def
  Order_IsTerminal_def Record_def orderRepo_Update_def paymentRepo_FindByOrderID_def
  paymentRepo_first_def paymentToDomain_def ReconstitutePayment_def Payment_Refund_def
  paymentRepo_Update_def paymentToModel_def transition_def statusTx_def UpdateOrderStatus_Handle_def
  publish_def demo_open_def demo_open_row_def demo_payment_def demo_db_def demo_stock_def
  demo_world_def Let_def

lemma run_cancel:
  assumes "st = StatusReserved \<or> st = StatusPaid"
  shows "is_Ok (fst (CancelOrder_Handle demo_cancel \<lparr>coin_OrderID = 1, coin_Reason = ''late''\<rparr>
    (demo_world (demo_open st))))"
  using assms by (elim disjE) (simp_all add: cancel_eval)

lemma run_status:
  "is_Ok (fst (UpdateOrderStatus_Handle (unitOfWork_Do (memGorm, memTransaction)) 1 StatusCancelled
    (demo_open StatusReserved)))"
  by (simp add: cancel_eval)

theorem cancel_order_effect_witness:
  "\<exists>w'. snd (CancelOrder_Handle demo_cancel \<lparr>coin_OrderID = 1, coin_Reason = ''late''\<rparr>
      (demo_world (demo_open StatusPaid))) = (w' :: (DB, nat) World) \<and>
    map om_Status (db_orders (w_store w')) = [StatusCancelled] \<and>
    stock (w_store w') 7 = Some (5, 0) \<and>
    map pym_Status (db_payments (w_store w')) = [PayRefunded]"
proof -
  let ?w = "demo_world (demo_open StatusPaid)"
  let ?inp = "\<lparr>coin_OrderID = 1, coin_Reason = ''late''\<rparr>"
  obtain res w' where run: "CancelOrder_Handle demo_cancel ?inp ?w = (res, w')" by force
  with run_cancel [of StatusPaid] obtain o2 where o2: "res = Ok o2" by (auto simp: is_Ok_iff)
  have ok: "db_ok (id (w_store ?w))" using demo_open_ok by (simp add: demo_world_def)
  from cancel_order_effect [OF demo_cancel_wired ok run] o2 run show ?thesis
    by (auto simp: demo_world_def demo_open_tables demo_open_row_def demo_payment_def refunded_rows_def
        open_row_def stock_shift_def row_moves_def demo_open_stock)
qed

theorem cancel_order_accounting_witness:
  "accounted (w_store (snd (CancelOrder_Handle demo_cancel \<lparr>coin_OrderID = 1, coin_Reason = ''late''\<rparr>
      (demo_world (demo_open StatusReserved)))))"
proof -
  let ?w = "demo_world (demo_open StatusReserved)"
  let ?inp = "\<lparr>coin_OrderID = 1, coin_Reason = ''late''\<rparr>"
  obtain res w' where run: "CancelOrder_Handle demo_cancel ?inp ?w = (res, w')" by force
  have ok: "db_ok (id (w_store ?w))" "accounted (id (w_store ?w))"
    using demo_open_ok demo_open_accounted by (simp_all add: demo_world_def)
  from cancel_order_accounting [OF demo_cancel_wired ok run] run show ?thesis by simp
qed

theorem update_status_effect_witness:
  "map om_Status (db_orders (snd (UpdateOrderStatus_Handle (unitOfWork_Do (memGorm, memTransaction)) 1
     StatusCancelled (demo_open StatusReserved)))) = [StatusCancelled]"
proof -
  obtain r s' where run: "UpdateOrderStatus_Handle (unitOfWork_Do (memGorm, memTransaction)) 1
      StatusCancelled (demo_open StatusReserved) = (r, s')" by force
  with run_status obtain u where r: "r = Ok u" by (auto simp: is_Ok_iff)
  from update_status_effect [OF memUow_ok _ run] demo_open_ok [of StatusReserved] r run show ?thesis
    by (auto simp: demo_open_def demo_open_row_def)
qed

theorem update_status_leaks_stock_witness:
  "\<not> accounted (snd (UpdateOrderStatus_Handle (unitOfWork_Do (memGorm, memTransaction)) 1
     StatusCancelled (demo_open StatusReserved)))"
proof -
  obtain r s' where run: "UpdateOrderStatus_Handle (unitOfWork_Do (memGorm, memTransaction)) 1
      StatusCancelled (demo_open StatusReserved) = (r, s')" by force
  with run_status have r: "r = Ok ()" by (auto simp: is_Ok_iff)
  have m: "demo_open_row StatusReserved \<in> set (db_orders (id (demo_open StatusReserved)))"
    "om_ID (demo_open_row StatusReserved) = 1" "open_row (demo_open_row StatusReserved)"
    "0 < units 7 (row_moves (demo_open_row StatusReserved))"
    by (simp_all add: demo_open_def demo_open_row_def open_row_def row_moves_def)
  have st: "stock (id (demo_open StatusReserved)) 7 = Some (3, 2)" by (simp add: demo_open_stock)
  have ok: "db_ok (id (demo_open StatusReserved))" "accounted (id (demo_open StatusReserved))"
    using demo_open_ok demo_open_accounted by simp_all
  from update_status_leaks_stock [OF memUow_ok ok m(1-3) _ st m(4) run [unfolded r]] run show ?thesis
    by simp
qed

end
