(* ===== verification/Domain_Props.thy ===== *)
theory Domain_Props
  imports Examples
begin

text \<open>
  The properties of the domain aggregates: orders, inventories, payments and money.
\<close>

section \<open>Orders\<close>

text \<open>C14: whatever is called on a new order, in whatever order and whatever fails, its events tell
  its history: they start with the placement, walk along the edges of the state machine and end
  in its status; and an order is fulfilled only after exactly placed, reserved, paid, fulfilled.\<close>

theorem order_history:
  assumes "NewOrder now u items key = Ok o1"
  shows "let o2 = ord_run xs o1; told = map event_status (pending o2) in
    told \<noteq> [] \<and> hd told = StatusPending \<and> last told = ord_status o2 \<and> status_path told \<and>
    (ord_status o2 = StatusFulfilled \<longrightarrow>
      told = [StatusPending, StatusReserved, StatusPaid, StatusFulfilled])"
proof -
  have th: "tells_history (ord_run xs o1)"
    by (rule tells_history_run [OF NewOrder_tells_history [OF assms]])
  let ?told = "map event_status (pending (ord_run xs o1))"
  from th have t: "?told \<noteq> []" "hd ?told = StatusPending" "last ?told = ord_status (ord_run xs o1)"
    "status_path ?told"
    unfolding tells_history_def by (simp_all add: hd_map last_map)
  have "?told = [StatusPending, StatusReserved, StatusPaid, StatusFulfilled]"
    if "ord_status (ord_run xs o1) = StatusFulfilled"
  proof -
    define ys where "ys = butlast ?told"
    have ys: "?told = ys @ [StatusFulfilled]"
      using append_butlast_last_id [OF t(1)] unfolding t(3) that ys_def by (rule sym)
    have ne: "ys \<noteq> []" using t(2) unfolding ys by (cases ys) auto
    then have "hd ys = StatusPending" using t(2) unfolding ys by simp
    moreover have "status_path (ys @ [StatusFulfilled])" using t(4) unfolding ys .
    ultimately show ?thesis using status_path_to_fulfilled [OF _ ne] ys by simp
  qed
  with t show ?thesis unfolding Let_def by blast
qed

definition demo_item :: Item where
  "demo_item = \<lparr>item_productID = 7, item_sku = ''KB'', item_name = ''Keyboard'',
     item_unitPrice = \<lparr>m_amount = 250, m_currency = ''USD''\<rparr>, item_quantity = 2\<rparr>"

definition demo_new_order :: Order where
  "demo_new_order = \<lparr>pending = [OrderPlaced 0 3 500 ''USD''], ord_id = 0, ord_userID = 3,
     ord_status = StatusPending, ord_items = [demo_item],
     ord_total = \<lparr>m_amount = 500, m_currency = ''USD''\<rparr>, ord_idempotencyKey = ''k1'',
     ord_failureReason = '''', ord_createdAt = 100\<rparr>"

lemma demo_new_order: "NewOrder 100 3 [demo_item] ''k1'' = Ok demo_new_order"
  by (simp add: NewOrder_Ok_iff demo_new_order_def demo_item_def same_currency_def items_total_def
      subtotal_amount_def)

theorem order_history_witness:
  "map event_status (pending (ord_run [DoReserve, DoReserve, DoPay, DoCancel ''late'', DoFulfil] demo_new_order))
     = [StatusPending, StatusReserved, StatusPaid, StatusCancelled]"
proof -
  have "ord_status (ord_run [DoReserve, DoReserve, DoPay, DoCancel ''late'', DoFulfil] demo_new_order)
    = StatusCancelled"
    by (simp add: demo_new_order_def order_op_defs Record_def Order_CanCancel_def)
  with order_history [OF demo_new_order, of "[DoReserve, DoReserve, DoPay, DoCancel ''late'', DoFulfil]"]
  show ?thesis
    by (simp add: demo_new_order_def order_op_defs Record_def Order_CanCancel_def event_status_def)
qed

text \<open>C13: the operations implement the state machine exactly: a call that succeeds takes an edge
  and records one event, a call that fails changes nothing, and every edge is taken by some call;
  once an order is fulfilled, cancelled or failed no sequence of calls changes it.\<close>

theorem order_state_machine:
  "(case ord_apply x o1 of
      (Ok _, o2) \<Rightarrow> order_edge (ord_status o1) (ord_status o2) \<and> ord_total o2 = ord_total o1 \<and>
        ord_items o2 = ord_items o1 \<and> length (pending o2) = Suc (length (pending o1))
    | (_, o2) \<Rightarrow> o2 = o1) \<and>
   (order_edge (ord_status o1) t = (\<exists>y o2. ord_apply y o1 = (Ok (), o2) \<and> ord_status o2 = t)) \<and>
   (Order_IsTerminal o1 \<longrightarrow> ord_run xs o1 = o1)"
proof (intro conjI)
  show "case ord_apply x o1 of
      (Ok _, o2) \<Rightarrow> order_edge (ord_status o1) (ord_status o2) \<and> ord_total o2 = ord_total o1 \<and>
        ord_items o2 = ord_items o1 \<and> length (pending o2) = Suc (length (pending o1))
    | (_, o2) \<Rightarrow> o2 = o1"
  proof (cases rule: ord_apply_cases [of x o1])
    case ok
    then obtain o2 where o2: "ord_apply x o1 = (Ok (), o2)" by (metis prod.collapse)
    with ord_apply_Ok [OF o2] show ?thesis by auto
  qed simp
  show "order_edge (ord_status o1) t = (\<exists>y o2. ord_apply y o1 = (Ok (), o2) \<and> ord_status o2 = t)"
    using order_edge_realised ord_apply_Ok(1) by blast
  show "Order_IsTerminal o1 \<longrightarrow> ord_run xs o1 = o1" using ord_run_terminal by blast
qed

theorem order_state_machine_witness:
  "ord_run [DoPay, DoCancel ''again''] (demo_new_order\<lparr>ord_status := StatusFailed\<rparr>) =
     demo_new_order\<lparr>ord_status := StatusFailed\<rparr>"
  using order_state_machine [where x = DoPay and ?o1.0 = "demo_new_order\<lparr>ord_status := StatusFailed\<rparr>"
      and t = StatusPaid and xs = "[DoPay, DoCancel ''again'']"]
  by (simp only: Order_IsTerminal_def) simp

text \<open>C26: an order of items with non-negative prices and positive quantities whose exact value
  fits in an int64 is accepted with exactly that total, in the items' one currency.\<close>

theorem order_total_exact:
  assumes "list_all sellable items" and "items_value items < 2 ^ 63" and "items \<noteq> []"
    and "same_currency items" and "key \<noteq> ''''"
  shows "\<exists>o1. NewOrder now u items key = Ok o1 \<and> sint (m_amount (ord_total o1)) = items_value items \<and>
    m_currency (ord_total o1) = m_currency (item_unitPrice (hd items)) \<and> ord_items o1 = items \<and>
    ord_status o1 = StatusPending"
proof -
  have "\<exists>o1. NewOrder now u items key = Ok o1" using assms(3-5) by (simp add: NewOrder_Ok_iff)
  then obtain o1 where o1: "NewOrder now u items key = Ok o1" by blast
  with subtotals_exact [OF assms(1,2)] show ?thesis
    by (auto simp: NewOrder_Ok_iff items_total_def)
qed

theorem order_total_exact_witness:
  "\<exists>o1. NewOrder 0 3 [demo_item, demo_item] ''k'' = Ok o1 \<and> sint (m_amount (ord_total o1)) = 1000"
  using order_total_exact [of "[demo_item, demo_item]" "''k''" 0 3]
  by (auto simp: demo_item_def sellable_def items_value_def same_currency_def word_sle_eq word_sless_alt)

definition dear_item :: Item where
  "dear_item = demo_item\<lparr>item_unitPrice := \<lparr>m_amount = 2 ^ 62, m_currency = ''USD''\<rparr>\<rparr>"

text \<open>No bound is checked: two items priced within an int64 make an order with a negative
  total, for which \<open>NewPayment\<close> makes a payment (it refuses only a total of zero), and whose row
  panics when it is read back.\<close>

theorem order_total_overflow:
  "\<exists>o1. NewOrder now u [dear_item] ''k'' = Ok o1 \<and> sellable dear_item \<and>
     items_value [dear_item] = 2 ^ 63 \<and> sint (m_amount (ord_total o1)) = - (2 ^ 63) \<and>
     is_Ok (NewPayment now 1 ''k'' (ord_total o1)) \<and>
     (\<exists>p. orderToDomain (orderToModel o1) = Panic p)"
proof -
  have amt: "(2 ^ 62 :: int64) * 2 = 2 ^ 63" by simp
  define o1 where "o1 = \<lparr>pending = [OrderPlaced 0 u (2 ^ 63) ''USD''], ord_id = 0, ord_userID = u,
     ord_status = StatusPending, ord_items = [dear_item],
     ord_total = \<lparr>m_amount = 2 ^ 63, m_currency = ''USD''\<rparr>, ord_idempotencyKey = ''k'',
     ord_failureReason = '''', ord_createdAt = now\<rparr>"
  have "NewOrder now u [dear_item] ''k'' = Ok o1"
    by (simp add: NewOrder_Ok_iff o1_def dear_item_def demo_item_def same_currency_def
        items_total_def subtotal_amount_def)
  moreover have "sellable dear_item" "items_value [dear_item] = 2 ^ 63"
    by (simp_all add: sellable_def items_value_def dear_item_def demo_item_def word_sle_eq word_sless_alt)
  moreover have "sint (m_amount (ord_total o1)) = - (2 ^ 63)" by (simp add: o1_def)
  moreover have "is_Ok (NewPayment now 1 ''k'' (ord_total o1))"
    by (simp add: o1_def NewPayment_def Money_IsZero_def Let_def)
  moreover have "\<exists>p. orderToDomain (orderToModel o1) = Panic p"
    by (simp add: o1_def orderToDomain_def orderToModel_def itemToModel_def itemToDomain_def
        dear_item_def demo_item_def MustMoney_def NewMoney_def NewItem_def word_sle_eq word_sless_alt)
  ultimately show ?thesis by blast
qed

section \<open>Inventories\<close>

text \<open>Units that a list of events says have left the warehouse.\<close>

definition committed_units :: "InventoryEvent list \<Rightarrow> int" where
  "committed_units es = (\<Sum>e\<leftarrow>es. case e of InventoryCommitted _ q \<Rightarrow> sint q | _ \<Rightarrow> 0)"

lemma inv_apply_accounts:
  assumes "fits i" and "\<forall>q. x \<noteq> OpRestock q"
  shows "fits (snd (inv_apply x i)) \<and> (\<exists>es. pending (snd (inv_apply x i)) = pending i @ es \<and>
    on_hand (snd (inv_apply x i)) = on_hand i - committed_units es \<and> 0 \<le> committed_units es)"
proof (cases "inv_apply x i")
  case (Pair r i')
  show ?thesis
  proof (cases "r = Ok ()")
    case False
    with Pair inv_apply_no_panic [of x i] have "i' = i"
      by (cases r) (auto dest: inv_apply_Err)
    with Pair assms(1) show ?thesis by (simp add: committed_units_def)
  next
    case True
    note b = fits_bounds [OF assms(1)]
    show ?thesis
    proof (cases x)
      case (OpReserve q)
      with Pair True have op: "Inventory_Reserve q i = (Ok (), i')" by simp
      then have "pending i' = pending i @ [InventoryReserved (inv_productID i) q]"
        by (auto simp: Inventory_Reserve_def split: if_splits)
      with reserve_exact [OF assms(1) op] b Pair show ?thesis
        by (auto simp: fits_def stock_nonneg_def on_hand_def in_int64_def word_sle_eq committed_units_def)
    next
      case (OpRelease q)
      with Pair True have op: "Inventory_Release q i = (Ok (), i')" by simp
      then have "pending i' = pending i @ [InventoryReleased (inv_productID i) q]"
        by (auto simp: Inventory_Release_def split: if_splits)
      with release_exact [OF assms(1) op] b Pair show ?thesis
        by (auto simp: fits_def stock_nonneg_def on_hand_def in_int64_def word_sle_eq committed_units_def)
    next
      case (OpCommit q)
      with Pair True have op: "Inventory_Commit q i = (Ok (), i')" by simp
      then have "pending i' = pending i @ [InventoryCommitted (inv_productID i) q]"
        by (auto simp: Inventory_Commit_def split: if_splits)
      with commit_exact [OF assms(1) op] b Pair show ?thesis
        by (auto simp: fits_def stock_nonneg_def on_hand_def in_int64_def word_sle_eq committed_units_def)
    next
      case (OpRestock q)
      with assms(2) show ?thesis by blast
    qed
  qed
qed

text \<open>C22: whatever sequence of reservations, releases and commits is tried on a stock record that
  fits in its counters, neither counter ever goes negative or wraps, and the units on hand are
  those it started with less exactly the units the recorded commits took.\<close>

theorem inventory_conservation:
  assumes "fits i" and "list_all (\<lambda>x. \<forall>q. x \<noteq> OpRestock q) xs"
  shows "fits (inv_run xs i) \<and> (\<exists>es. pending (inv_run xs i) = pending i @ es \<and>
    on_hand (inv_run xs i) = on_hand i - committed_units es \<and> 0 \<le> committed_units es)"
  using assms
proof (induction xs arbitrary: i)
  case Nil
  then show ?case by (simp add: committed_units_def)
next
  case (Cons x xs)
  let ?i = "snd (inv_apply x i)"
  from Cons.prems(2) have "\<forall>q. x \<noteq> OpRestock q" by simp
  from inv_apply_accounts [OF Cons.prems(1) this] obtain es where
    step: "fits ?i" "pending ?i = pending i @ es" "on_hand ?i = on_hand i - committed_units es"
      "0 \<le> committed_units es"
    by blast
  from Cons.IH [OF step(1)] Cons.prems(2) obtain es' where
    rest: "fits (inv_run xs ?i)" "pending (inv_run xs ?i) = pending ?i @ es'"
      "on_hand (inv_run xs ?i) = on_hand ?i - committed_units es'" "0 \<le> committed_units es'" by auto
  have "committed_units (es @ es') = committed_units es + committed_units es'"
    by (simp add: committed_units_def)
  with step rest show ?case
    by (intro conjI exI [of _ "es @ es'"]) auto
qed

definition demo_inventory :: Inventory where
  "demo_inventory = ReconstituteInventory 1 7 5 0 1 0"

theorem inventory_conservation_witness:
  "on_hand (inv_run [OpReserve 4, OpReserve 2, OpCommit 3, OpRelease 1] demo_inventory) \<le> 5 \<and>
   fits (inv_run [OpReserve 4, OpReserve 2, OpCommit 3, OpRelease 1] demo_inventory)"
proof -
  have f: "fits demo_inventory" "on_hand demo_inventory = 5"
    by (simp_all add: fits_def stock_nonneg_def on_hand_def demo_inventory_def
        ReconstituteInventory_def in_int64_def word_sle_eq)
  from inventory_conservation [OF f(1), of "[OpReserve 4, OpReserve 2, OpCommit 3, OpRelease 1]"] f(2)
  show ?thesis by auto
qed

section \<open>Payments and money\<close>

text \<open>C23: whatever is called on a new payment, its fields stay coherent with its status: a
  provider reference exactly when it has succeeded, a failure reason exactly when it has failed,
  the events that led there; and its order, key and amount never change.\<close>

theorem payment_coherence:
  assumes "NewPayment now oid key amt = Ok p"
  shows "pay_coherent (pay_run xs p) \<and> pay_orderID (pay_run xs p) = oid \<and>
    pay_idempotencyKey (pay_run xs p) = key \<and> pay_amount (pay_run xs p) = amt"
proof -
  have "pay_orderID (pay_run xs p) = pay_orderID p \<and> pay_idempotencyKey (pay_run xs p) = pay_idempotencyKey p \<and>
      pay_amount (pay_run xs p) = pay_amount p"
    by (induction xs arbitrary: p) (simp_all add: pay_apply_frame)
  with pay_run_coherent [OF NewPayment_coherent [OF assms], of xs] assms show ?thesis
    by (auto simp: NewPayment_Ok_iff)
qed

theorem payment_coherence_witness:
  "\<exists>p. NewPayment 0 1 ''k'' \<lparr>m_amount = 5, m_currency = ''USD''\<rparr> = Ok p \<and>
     pay_coherent (pay_run [DoAttempt ''mock'', DoSucceed ''r'', DoFailPayment ''x'', DoRefund] p)"
  using payment_coherence [of 0 1 "''k''" "\<lparr>m_amount = 5, m_currency = ''USD''\<rparr>" _
      "[DoAttempt ''mock'', DoSucceed ''r'', DoFailPayment ''x'', DoRefund]"]
  by (simp add: NewPayment_Ok_iff)

text \<open>The text of a valid amount determines it: no two amounts print alike.\<close>

theorem money_string_injective:
  assumes "valid_money m" and "valid_money n" and "m \<noteq> n"
  shows "Money_String m \<noteq> Money_String n"
proof
  assume same: "Money_String m = Money_String n"
  let ?a = "nat (sint (m_amount m))" and ?b = "nat (sint (m_amount n))"
  have len: "length (m_currency m) = 3" "length (m_currency n) = 3"
    using assms(1,2) by (simp_all add: valid_money_def)
  have p: "length (pad2 (int (k mod 100))) = 2" for k :: nat by (rule pad2_length) simp
  from same have e: "dec (?a div 100) @ ''.'' @ pad2 (int (?a mod 100)) @ '' '' @ m_currency m =
      dec (?b div 100) @ ''.'' @ pad2 (int (?b mod 100)) @ '' '' @ m_currency n"
    by (simp only: Money_String_valid [OF assms(1)] Money_String_valid [OF assms(2)])
  from arg_cong [OF e, of length] len p have "length (dec (?a div 100)) = length (dec (?b div 100))"
    by simp
  with e have "dec (?a div 100) = dec (?b div 100)"
    "pad2 (int (?a mod 100)) @ '' '' @ m_currency m = pad2 (int (?b mod 100)) @ '' '' @ m_currency n"
    by simp_all
  then have d: "?a div 100 = ?b div 100" and "pad2 (int (?a mod 100)) = pad2 (int (?b mod 100))"
    and c: "m_currency m = m_currency n" using p by (simp_all add: append_eq_append_conv)
  then have "?a mod 100 = ?b mod 100" by (metis undec_pad2)
  with d have "?a = ?b" by (metis div_mult_mod_eq)
  moreover have "0 \<le> sint (m_amount m)" "0 \<le> sint (m_amount n)"
    using assms(1,2) by (simp_all add: valid_money_def word_sle_eq)
  ultimately have "sint (m_amount m) = sint (m_amount n)" by simp
  then have "m_amount m = m_amount n" by (rule signed_word_eqI)
  with c assms(3) show False by simp
qed

theorem money_string_injective_witness:
  "Money_String \<lparr>m_amount = 105, m_currency = ''USD''\<rparr> \<noteq>
   Money_String \<lparr>m_amount = 1050, m_currency = ''USD''\<rparr>"
  by (rule money_string_injective) (simp_all add: valid_money_def word_sle_eq)

end
