(* ===== verification/Repo_Props.thy ===== *)
theory Repo_Props
  imports Examples
begin

text \<open>
  The properties of package gormrepo: the conditional SQL updates against the Inventory
  aggregate, sequences of them against overselling, and the round trip of an order.
\<close>

section \<open>The conditional updates\<close>

text \<open>The repository's operations under the names the aggregate's operations have as data.\<close>

fun sql_apply :: "'s Gorm \<Rightarrow> uint64 \<Rightarrow> inv_op \<Rightarrow> ('s, bool) prog" where
  "sql_apply G pid (OpReserve q) = inventoryRepo_Reserve G pid q"
| "sql_apply G pid (OpRelease q) = check (inventoryRepo_Release G pid q) (\<lambda>_. return True)"
| "sql_apply G pid (OpCommit q) = check (inventoryRepo_Commit G pid q) (\<lambda>_. return True)"
| "sql_apply G pid (OpRestock q) = check (inventoryRepo_Restock G pid q) (\<lambda>_. return True)"

fun op_qty :: "inv_op \<Rightarrow> goint" where
  "op_qty (OpReserve q) = q"
| "op_qty (OpRelease q) = q"
| "op_qty (OpCommit q) = q"
| "op_qty (OpRestock q) = q"

text \<open>The condition and the assignments of each operation's \<open>UPDATE\<close>.\<close>

fun op_guard :: "inv_op \<Rightarrow> InventoryModel \<Rightarrow> bool" where
  "op_guard (OpReserve q) m = (q \<le>s im_Available m)"
| "op_guard (OpRelease q) m = (q \<le>s im_Reserved m)"
| "op_guard (OpCommit q) m = (q \<le>s im_Reserved m)"
| "op_guard (OpRestock q) m = True"

fun op_columns :: "inv_op \<Rightarrow> InventoryModel \<Rightarrow> InventoryModel option" where
  "op_columns (OpReserve q) = reserve_columns q"
| "op_columns (OpRelease q) = release_columns q"
| "op_columns (OpCommit q) = commit_columns q"
| "op_columns (OpRestock q) = restock_columns q"

lemma op_columns_keep [simp]: "keeps_inventory_keys (op_columns x)"
  by (cases x) simp_all

lemma sql_apply_updates:
  assumes "sql_apply G pid x s = (Ok b, s')"
  obtains n where "tbl_Updates (g_inventories G) (\<lambda>m. im_ProductID m = pid \<and> op_guard x m) (op_columns x) s
      = (Ok n, s')"
    and "case x of OpReserve _ \<Rightarrow> b = (n = 1) | OpRestock _ \<Rightarrow> b | _ \<Rightarrow> b \<and> n \<noteq> 0"
  using assms
  by (cases x) (auto simp: inventoryRepo_Reserve_def inventoryRepo_Release_def inventoryRepo_Commit_def
      inventoryRepo_Restock_def check_Ok_iff split: if_splits)

text \<open>A row that meets the condition is what the aggregate accepts, with the same result.\<close>

lemma op_columns_refine:
  assumes "0 <s op_qty x" and "op_guard x m" and "op_columns x m = Some m'"
  shows "\<exists>i'. inv_apply x (inventoryToDomain m) = (Ok (), i') \<and>
    inventoryToDomain m' = i'\<lparr>pending := []\<rparr>"
  using assms
  by (cases x)
    (auto simp: inventory_op_defs inventory_columns_defs inventoryToDomain_def ReconstituteInventory_def
      Record_def not_sless_sle not_sle_sless [symmetric] split: option.splits
      dest!: sql_add_SomeD sql_sub_SomeD)

lemma op_guard_refine:
  assumes "0 <s op_qty x" and "\<not> op_guard x m"
  shows "\<not> is_Ok (fst (inv_apply x (inventoryToDomain m)))"
  using assms
  by (cases x) (auto simp: inventory_op_defs inventoryToDomain_def ReconstituteInventory_def
      not_sle_sless)

text \<open>C15: with a positive quantity, each SQL update that reports success has done to the product's
  row what the aggregate's operation does to the aggregate the row stands for; a reservation that
  reports false is one the aggregate refuses, and leaves every table alone.\<close>

theorem sql_refines_aggregate:
  assumes "gorm_ok G view" and "db_ok (view s)" and "0 <s op_qty x"
    and "inv_row pid (view s) = Some m" and "sql_apply G pid x s = (Ok b, s')"
  shows "if b then \<exists>m' i'. inv_row pid (view s') = Some m' \<and>
             inv_apply x (inventoryToDomain m) = (Ok (), i') \<and>
             inventoryToDomain m' = i'\<lparr>pending := []\<rparr>
         else view s' = view s \<and> \<not> is_Ok (fst (inv_apply x (inventoryToDomain m)))"
proof -
  from assms(5) obtain n where
    n: "tbl_Updates (g_inventories G) (\<lambda>m. im_ProductID m = pid \<and> op_guard x m) (op_columns x) s
      = (Ok n, s')"
    and b: "case x of OpReserve _ \<Rightarrow> b = (n = 1) | OpRestock _ \<Rightarrow> b | _ \<Rightarrow> b \<and> n \<noteq> 0"
    by (rule sql_apply_updates)
  note upd = updates_inventories [OF assms(1) n]
  from assms(2) op_columns_keep conjunct1 [OF upd] conjunct2 [OF upd] show ?thesis
  proof (cases rule: conditional_update)
    case (hit m0 m')
    with assms(4) have "m0 = m" by simp
    with hit op_columns_refine [OF assms(3), of m m'] b show ?thesis by (cases x) auto
  next
    case miss
    with assms(4) op_guard_refine [OF assms(3)] b show ?thesis by (cases x) auto
  qed
qed

lemma demo_row_stock: "inv_row 7 (id demo_db) = Some demo_stock"
  by (simp add: inv_row_def demo_db_def demo_stock_def)

theorem sql_refines_aggregate_witness:
  "\<exists>m' i'. inv_row 7 (snd (sql_apply memGorm 7 (OpReserve 2) demo_db)) = Some m' \<and>
     inv_apply (OpReserve 2) (inventoryToDomain demo_stock) = (Ok (), i') \<and>
     inventoryToDomain m' = i'\<lparr>pending := []\<rparr>"
proof -
  have run: "sql_apply memGorm 7 (OpReserve 2) demo_db =
      (Ok True, snd (sql_apply memGorm 7 (OpReserve 2) demo_db))"
    by (simp add: inventoryRepo_Reserve_def mem_eval reserve_columns_def demo_db_def demo_stock_def)
  from sql_refines_aggregate [OF memGorm_ok _ _ demo_row_stock run] demo_db_ok show ?thesis
    by (simp add: word_sless_alt)
qed

section \<open>Any sequence of updates\<close>

text \<open>
  PostgreSQL runs each conditional \<open>UPDATE\<close> atomically, so the updates of concurrent requests
  happen in some order: a list. Each is recorded with whether it reported success.
\<close>

fun sql_run :: "'s Gorm \<Rightarrow> (uint64 \<times> inv_op) list \<Rightarrow> 's \<Rightarrow> (uint64 \<times> inv_op \<times> bool) list \<times> 's" where
  "sql_run G [] s = ([], s)"
| "sql_run G ((pid, x) # ops) s =
     (let (r, s1) = sql_apply G pid x s; (rs, s2) = sql_run G ops s1
      in ((pid, x, r = Ok True) # rs, s2))"

fun avail_change :: "inv_op \<Rightarrow> int" where
  "avail_change (OpReserve q) = - sint q"
| "avail_change (OpRelease q) = sint q"
| "avail_change (OpCommit q) = 0"
| "avail_change (OpRestock q) = sint q"

fun reserved_change :: "inv_op \<Rightarrow> int" where
  "reserved_change (OpReserve q) = sint q"
| "reserved_change (OpRelease q) = - sint q"
| "reserved_change (OpCommit q) = - sint q"
| "reserved_change (OpRestock q) = 0"

definition total_change :: "(inv_op \<Rightarrow> int) \<Rightarrow> uint64 \<Rightarrow> (uint64 \<times> inv_op \<times> bool) list \<Rightarrow> int" where
  "total_change f pid rs = (\<Sum>(p, x, ok)\<leftarrow>rs. if p = pid \<and> ok then f x else 0)"

definition takes_stock :: "inv_op \<Rightarrow> bool" where
  "takes_stock x \<longleftrightarrow> 0 <s op_qty x \<and> (case x of OpRestock _ \<Rightarrow> False | _ \<Rightarrow> True)"

lemma sql_apply_step:
  assumes "gorm_ok G view" and "db_ok (view s)" and "takes_stock x"
    and "sql_apply G pid x s = (r, s')"
  shows "db_ok (view s') \<and> (if r = Ok True
    then (\<exists>a k. stock (view s) pid = Some (a, k) \<and>
        stock (view s') = (stock (view s))(pid \<mapsto> (a + avail_change x, k + reserved_change x)) \<and>
        (case x of OpReserve q \<Rightarrow> sint q \<le> a | _ \<Rightarrow> sint (op_qty x) \<le> k))
    else view s' = view s)"
proof -
  have shift: "stock d' = (stock d)(pid \<mapsto> (a + ka * q, k + kr * q))"
    if "stock_moved ka kr [(pid, q)] d d'" "stock d pid = Some (a, k)" for ka kr q d d' a k
  proof
    fix p
    show "stock d' p = ((stock d)(pid \<mapsto> (a + ka * q, k + kr * q))) p"
      using that by (cases "p = pid"; cases "stock d p") (auto simp: stock_moved_def)
  qed
  show ?thesis
  proof (cases x)
    case (OpReserve q)
    show ?thesis
    proof (cases "is_Ok r")
      case True
      then obtain b where "r = Ok b" by (auto simp: is_Ok_iff)
      with inventoryRepo_Reserve_Ok [OF assms(1,2), of pid q b s'] assms(2,4) OpReserve
        shift [of "-1" 1 "sint q" "view s" "view s'"] show ?thesis by (auto split: if_splits)
    next
      case False
      with inventoryRepo_Reserve_failed [OF assms(1) False, of pid q s s'] assms(2,4) OpReserve
      show ?thesis by auto
    qed
  next
    case (OpRelease q)
    obtain r0 s0 where r0: "inventoryRepo_Release G pid q s = (r0, s0)" by force
    with assms(4) OpRelease have s0: "s0 = s'" "is_Ok r0 = is_Ok r" "is_Ok r0 \<Longrightarrow> r = Ok True"
      by (cases r0; auto)+
    show ?thesis
    proof (cases "is_Ok r0")
      case True
      then obtain u where "r0 = Ok u" by (auto simp: is_Ok_iff)
      with inventoryRepo_Release_Ok [OF assms(1,2), of pid q u s'] r0 s0 OpRelease True
        shift [of 1 "-1" "sint q" "view s" "view s'"] show ?thesis by auto
    next
      case False
      with refused_update [OF assms(1,2) columns_keep_keys(2) False
          r0 [unfolded inventoryRepo_Release_def]] s0 assms(2)
      show ?thesis by auto
    qed
  next
    case (OpCommit q)
    obtain r0 s0 where r0: "inventoryRepo_Commit G pid q s = (r0, s0)" by force
    with assms(4) OpCommit have s0: "s0 = s'" "is_Ok r0 = is_Ok r" "is_Ok r0 \<Longrightarrow> r = Ok True"
      by (cases r0; auto)+
    show ?thesis
    proof (cases "is_Ok r0")
      case True
      then obtain u where "r0 = Ok u" by (auto simp: is_Ok_iff)
      with inventoryRepo_Commit_Ok [OF assms(1,2), of pid q u s'] r0 s0 OpCommit True
        shift [of 0 "-1" "sint q" "view s" "view s'"] show ?thesis by auto
    next
      case False
      with refused_update [OF assms(1,2) columns_keep_keys(3) False
          r0 [unfolded inventoryRepo_Commit_def]] s0 assms(2)
      show ?thesis by auto
    qed
  next
    case (OpRestock q)
    with assms(3) show ?thesis by (simp add: takes_stock_def)
  qed
qed

text \<open>C6: in whatever order the reservations, releases and commits of concurrent requests run,
  on any products, no product is oversold: its counters are those it had plus exactly the
  moves that reported success, and neither is ever negative; so the reservations granted never
  exceed the units available and given back.\<close>

theorem no_oversell:
  assumes "gorm_ok G view" and "db_ok (view s)" and "list_all (\<lambda>(_, x). takes_stock x) ops"
    and "stock (view s) pid = Some (a, k)" and "0 \<le> a" and "0 \<le> k"
    and "sql_run G ops s = (rs, s')"
  shows "stock (view s') pid =
      Some (a + total_change avail_change pid rs, k + total_change reserved_change pid rs) \<and>
    0 \<le> a + total_change avail_change pid rs \<and> 0 \<le> k + total_change reserved_change pid rs"
  using assms(2-7)
proof (induction ops arbitrary: s a k rs s')
  case Nil
  then show ?case by (simp add: total_change_def)
next
  case (Cons op ops)
  obtain p x where op: "op = (p, x)" by force
  obtain r s1 where r: "sql_apply G p x s = (r, s1)" by force
  obtain rs1 s2 where rest: "sql_run G ops s1 = (rs1, s2)" by force
  have out: "rs = (p, x, r = Ok True) # rs1" "s' = s2"
    using Cons.prems(6) r rest by (simp_all add: op)
  have x: "takes_stock x" "list_all (\<lambda>(_, x). takes_stock x) ops" using Cons.prems(2) op by auto
  note step = sql_apply_step [OF assms(1) Cons.prems(1) x(1) r]
  define a1 where "a1 = a + (if p = pid \<and> r = Ok True then avail_change x else 0)"
  define k1 where "k1 = k + (if p = pid \<and> r = Ok True then reserved_change x else 0)"
  have pos: "0 < sint (op_qty x)" using x(1) by (simp add: takes_stock_def word_sless_alt)
  have "stock (view s1) pid = Some (a1, k1) \<and> 0 \<le> a1 \<and> 0 \<le> k1"
    using step Cons.prems(3-5) pos x(1)
    by (cases x) (auto simp: a1_def k1_def takes_stock_def split: if_splits)
  with Cons.IH [OF _ x(2) _ _ _ rest] step
  have "stock (view s2) pid =
      Some (a1 + total_change avail_change pid rs1, k1 + total_change reserved_change pid rs1) \<and>
    0 \<le> a1 + total_change avail_change pid rs1 \<and> 0 \<le> k1 + total_change reserved_change pid rs1"
    by blast
  then show ?case by (simp add: out total_change_def a1_def k1_def add.assoc)
qed

theorem no_oversell_witness:
  "stock (snd (sql_run memGorm [(7, OpReserve 4), (7, OpReserve 2), (7, OpCommit 4)] demo_db)) 7 = Some (1, 0)"
proof -
  let ?ops = "[(7, OpReserve 4), (7, OpReserve 2), (7, OpCommit 4)]"
  have run: "sql_run memGorm ?ops demo_db = ([(7, OpReserve 4, True), (7, OpReserve 2, False),
      (7, OpCommit 4, True)], snd (sql_run memGorm ?ops demo_db))"
    by (simp add: inventoryRepo_Reserve_def inventoryRepo_Commit_def mem_eval reserve_columns_def
        commit_columns_def demo_db_def demo_stock_def)
  have s: "stock (id demo_db) 7 = Some (5, 0)" using demo_row_stock by (simp add: stock_def demo_stock_def)
  from no_oversell [OF memGorm_ok _ _ s _ _ run] demo_db_ok show ?thesis
    by (simp add: takes_stock_def word_sless_alt total_change_def)
qed

section \<open>The round trip of an order\<close>

text \<open>C17: an order with valid money and positive quantities that was created is read back, by the
  id it was given or by its key, as it was, item by item; only the pending events are gone and
  the creation time is the row's. The read never panics.\<close>

theorem order_round_trip:
  assumes "gorm_ok G view" and "db_ok (view s)" and "readable_order o1" and "ord_id o1 = 0"
    and "orderRepo_Create G (s, o1) = (Ok u, (s1, o2))"
    and "orderRepo_FindByID G (ord_id o2) s1 = (r, s2) \<or>
         orderRepo_FindByIdempotencyKey G (ord_idempotencyKey o1) s1 = (r, s2)"
  shows "(\<forall>o3. r = Ok o3 \<longrightarrow> o3 = o2\<lparr>pending := [], ord_createdAt := ord_createdAt o3\<rparr>) \<and>
    (\<forall>p. r \<noteq> Panic p) \<and> view s2 = view s1"
proof -
  from orderRepo_Create_Ok [OF assms(1,5)] obtain m where
    m: "inserts orderSchema (db_orders (view s)) (orderToModel o1) m"
    and v1: "view s1 = (view s)\<lparr>db_orders := db_orders (view s) @ [m]\<rparr>"
    and o2: "o2 = o1\<lparr>ord_id := om_ID m\<rparr>"
    using assms(4) by (auto simp: order_created_def Order_AssignID_def)
  have read: "orderToDomain m = Ok (o1\<lparr>pending := [], ord_id := om_ID m, ord_createdAt := om_CreatedAt m\<rparr>)"
    using stored_order_read [OF assms(3)] m by (simp add: inserts_def)
  let ?P = "\<lambda>x. om_ID x = ord_id o2" and ?Q = "\<lambda>x. om_IdempotencyKey x = ord_idempotencyKey o1"
  have only: "x = m" if "x \<in> set (db_orders (view s1))" "?P x \<or> ?Q x" for x
  proof (rule ccontr)
    assume "x \<noteq> m"
    with that have "x \<in> set (db_orders (view s))" by (simp add: v1)
    then have "om_ID x \<in> om_ID ` set (db_orders (view s))"
      "om_IdempotencyKey x \<in> om_IdempotencyKey ` set (db_orders (view s))" by simp_all
    with that(2) inserted_order(8,9) [OF m] show False by (auto simp: o2)
  qed
  obtain R where R: "R = ?P \<or> R = ?Q" and
    run: "check (orNotFound order_not_found (tbl_First (g_orders G) R)) (\<lambda>m. lift (orderToDomain m)) s1
      = (r, s2)"
    using assms(6) unfolding orderRepo_FindByID_def orderRepo_FindByIdempotencyKey_def by blast
  have v2: "view s2 = view s1" using first_order [OF assms(1) run] by simp
  have ok: "o3 = o2\<lparr>pending := [], ord_createdAt := ord_createdAt o3\<rparr>" if "r = Ok o3" for o3
  proof -
    from first_order [OF assms(1) run] that R only read have
      "o3 = o1\<lparr>pending := [], ord_id := om_ID m, ord_createdAt := om_CreatedAt m\<rparr>" by auto
    then show ?thesis by (simp add: o2)
  qed
  have "r \<noteq> Panic p" for p
  proof
    assume "r = Panic p"
    note ro = table_okD(3) [OF orders_table [OF assms(1)], of s1 R]
    obtain r0 s0 where f: "tbl_First (g_orders G) R s1 = (r0, s0)" by force
    then have "\<forall>p. r0 \<noteq> Panic p" using reads_only_no_Panic [OF ro] by auto
    with f run \<open>r = Panic p\<close> obtain x where "r0 = Ok x" "orderToDomain x = Panic p"
      by (cases r0) (auto simp: check_def orNotFound_def)
    with reads_only_Ok [OF ro] f R only read show False by auto
  qed
  with ok v2 show ?thesis by blast
qed

definition demo_new :: Order where
  "demo_new = (demo_order StatusPending)\<lparr>ord_id := 0\<rparr>"

theorem order_round_trip_witness:
  "\<exists>s1 s2 o3. orderRepo_FindByID memGorm 1 s1 = (Ok o3, s2) \<and>
     o3 = (demo_order StatusPending)\<lparr>ord_createdAt := ord_createdAt o3\<rparr>"
proof -
  have p: "readable_order demo_new" "ord_id demo_new = 0" "db_ok (id demo_db)"
    using demo_db_ok
    by (simp_all add: readable_order_def readable_item_def demo_new_def demo_order_def valid_money_def
        word_sle_eq word_sless_alt)
  have c: "\<exists>s1. orderRepo_Create memGorm (demo_db, demo_new) = (Ok (), (s1, demo_order StatusPending)) \<and>
      (\<exists>o3. orderRepo_FindByID memGorm (ord_id (demo_order StatusPending)) s1 = (Ok o3, s1))"
    by (simp add: orderRepo_Create_def orderRepo_FindByID_def mem_eval demo_new_def demo_order_def
        orderToModel_def itemToModel_def Order_AssignID_def demo_db_def orderToDomain_def
        itemToDomain_def MustMoney_def NewMoney_def NewItem_def ReconstituteOrder_def)
  then obtain s1 o3 where s1: "orderRepo_Create memGorm (demo_db, demo_new) =
      (Ok (), (s1, demo_order StatusPending))"
    and f: "orderRepo_FindByID memGorm (ord_id (demo_order StatusPending)) s1 = (Ok o3, s1)" by blast
  from order_round_trip [OF memGorm_ok p(3,1,2) s1 disjI1 [OF f]]
  have "o3 = (demo_order StatusPending)\<lparr>ord_createdAt := ord_createdAt o3\<rparr>"
    by (simp add: demo_order_def)
  with f show ?thesis by (auto simp: demo_order_def)
qed

end
