(* ===== verification/WorkerPool.thy ===== *)
theory WorkerPool
  imports Errs "HOL-Library.Multiset"
begin

text \<open>
  Package pkg/concurrency: the bounded pool of workers, with the goroutines that use it. A task
  has the type \<open>'t\<close>. The state holds the fields of the pool and what its goroutines are doing;
  each step is what one goroutine does between two points where it can block: acquiring
  \<open>p.mu\<close>, a channel operation, \<open>wg.Wait\<close>.
\<close>

text \<open>Where the one goroutine that runs the body of \<open>stopOnce\<close> is.\<close>

datatype stop_phase = NotStopping | Locking | Waiting bool | Returned

record 't Pool =
  pool_workers :: nat
  pool_queueSize :: nat
  pool_tasks :: "'t list"
  pool_closed :: bool
  pool_stopped :: bool
  pool_started :: bool
  pool_starting :: nat
  pool_sending :: "'t list"
  pool_spawning :: bool
  pool_idle :: nat
  pool_running :: "'t list"
  pool_stopping :: stop_phase
  pool_finished :: "'t list"
  pool_refused :: "'t list"

text \<open>
  \<open>pool_sending\<close>: the tasks of the calls of \<open>Submit\<close> that hold the read lock and have not sent
  yet; \<open>pool_starting\<close>: the calls of \<open>Start\<close> that wait for the lock; \<open>pool_spawning\<close>: a call of
  \<open>Start\<close> is between the unlock and \<open>wg.Add\<close>; \<open>pool_idle\<close>: workers that wait for a task.
\<close>

definition NewPool :: "goint \<Rightarrow> goint \<Rightarrow> 't Pool" where
  "NewPool workers queueSize = \<lparr>
     pool_workers = nat (sint (if workers <s 1 then 1 else workers)),
     pool_queueSize = nat (sint (if queueSize <s 0 then 0 else queueSize)),
     pool_tasks = [], pool_closed = False, pool_stopped = False, pool_started = False,
     pool_starting = 0, pool_sending = [], pool_spawning = False, pool_idle = 0, pool_running = [],
     pool_stopping = NotStopping, pool_finished = [], pool_refused = []\<rparr>"

text \<open>The counter of the wait group: the workers that have not returned.\<close>

definition pool_wg :: "'t Pool \<Rightarrow> nat" where
  "pool_wg p = pool_idle p + length (pool_running p)"

text \<open>\<open>QueueLen\<close>.\<close>

definition Pool_QueueLen :: "'t Pool \<Rightarrow> nat" where
  "Pool_QueueLen p = length (pool_tasks p)"

section \<open>Steps\<close>

text \<open>While a call of \<open>p.mu.Lock()\<close> waits, no new reader gets the lock.\<close>

definition can_read :: "'t Pool \<Rightarrow> bool" where
  "can_read p \<longleftrightarrow> pool_starting p = 0 \<and> pool_stopping p \<noteq> Locking"

text \<open>The critical section of \<open>Submit\<close> up to the send, for a task that is not nil.\<close>

definition Submit_enter :: "'t \<Rightarrow> 't Pool \<Rightarrow> 't Pool option" where
  "Submit_enter t p = (if \<not> can_read p then None
     else if pool_stopped p then Some (p\<lparr>pool_refused := t # pool_refused p\<rparr>)
     else Some (p\<lparr>pool_sending := pool_sending p @ [t]\<rparr>))"

text \<open>\<open>p.tasks <- task\<close>: into the buffer when it has room, or to a worker that waits for it.\<close>

definition Submit_send :: "'t \<Rightarrow> 't Pool \<Rightarrow> 't Pool option" where
  "Submit_send t p = (if t \<in> set (pool_sending p) \<and> length (pool_tasks p) < pool_queueSize p
     then Some (p\<lparr>pool_sending := remove1 t (pool_sending p), pool_tasks := pool_tasks p @ [t]\<rparr>)
     else None)"

definition Submit_handoff :: "'t \<Rightarrow> 't Pool \<Rightarrow> 't Pool option" where
  "Submit_handoff t p = (if t \<in> set (pool_sending p) \<and> pool_tasks p = [] \<and> 0 < pool_idle p
     then Some (p\<lparr>pool_sending := remove1 t (pool_sending p), pool_idle := pool_idle p - 1,
       pool_running := pool_running p @ [t]\<rparr>)
     else None)"

text \<open>
  \<open>TrySubmit\<close> never blocks on the channel: it sends, to the buffer or to a waiting worker, or
  returns false. A worker that is free may not have reached its receive yet, so with a full
  buffer the answer can be either.
\<close>

definition TrySubmit_send :: "'t \<Rightarrow> 't Pool \<Rightarrow> 't Pool option" where
  "TrySubmit_send t p = (if \<not> can_read p \<or> pool_stopped p then None
     else if length (pool_tasks p) < pool_queueSize p
       then Some (p\<lparr>pool_tasks := pool_tasks p @ [t]\<rparr>)
     else if pool_tasks p = [] \<and> 0 < pool_idle p
       then Some (p\<lparr>pool_idle := pool_idle p - 1, pool_running := pool_running p @ [t]\<rparr>)
     else None)"

definition TrySubmit_false :: "'t \<Rightarrow> 't Pool \<Rightarrow> 't Pool option" where
  "TrySubmit_false t p = (if can_read p \<and>
       (pool_stopped p \<or> \<not> length (pool_tasks p) < pool_queueSize p)
     then Some (p\<lparr>pool_refused := t # pool_refused p\<rparr>)
     else None)"

text \<open>\<open>Start\<close>: the call of \<open>Lock\<close>, the critical section, and the start of the workers.\<close>

definition Start_call :: "'t Pool \<Rightarrow> 't Pool option" where
  "Start_call p = Some (p\<lparr>pool_starting := pool_starting p + 1\<rparr>)"

definition Start_locked :: "'t Pool \<Rightarrow> 't Pool option" where
  "Start_locked p = (if 0 < pool_starting p \<and> pool_sending p = []
     then (let q = p\<lparr>pool_starting := pool_starting p - 1\<rparr> in
       if pool_started p \<or> pool_stopped p then Some q
       else Some (q\<lparr>pool_started := True, pool_spawning := True\<rparr>))
     else None)"

definition Start_spawn :: "'t Pool \<Rightarrow> 't Pool option" where
  "Start_spawn p = (if pool_spawning p
     then Some (p\<lparr>pool_spawning := False, pool_idle := pool_idle p + pool_workers p\<rparr>)
     else None)"

text \<open>\<open>worker\<close>: receive a task, return from it, or leave the loop once the channel is drained.\<close>

definition worker_receive :: "'t Pool \<Rightarrow> 't Pool option" where
  "worker_receive p = (case pool_tasks p of
      t # ts \<Rightarrow> if 0 < pool_idle p
        then Some (p\<lparr>pool_tasks := ts, pool_idle := pool_idle p - 1,
          pool_running := pool_running p @ [t]\<rparr>)
        else None
    | [] \<Rightarrow> None)"

definition worker_finish :: "'t \<Rightarrow> 't Pool \<Rightarrow> 't Pool option" where
  "worker_finish t p = (if t \<in> set (pool_running p)
     then Some (p\<lparr>pool_running := remove1 t (pool_running p), pool_idle := pool_idle p + 1,
       pool_finished := t # pool_finished p\<rparr>)
     else None)"

definition worker_exit :: "'t Pool \<Rightarrow> 't Pool option" where
  "worker_exit p = (if pool_closed p \<and> pool_tasks p = [] \<and> 0 < pool_idle p
     then Some (p\<lparr>pool_idle := pool_idle p - 1\<rparr>)
     else None)"

text \<open>
  \<open>Stop\<close>: only the first call runs the body, the others wait for it; the call of \<open>Lock\<close>, the
  critical section, and \<open>wg.Wait\<close>.
\<close>

definition Stop_call :: "'t Pool \<Rightarrow> 't Pool option" where
  "Stop_call p = (if pool_stopping p = NotStopping
     then Some (p\<lparr>pool_stopping := Locking\<rparr>)
     else None)"

definition Stop_locked :: "'t Pool \<Rightarrow> 't Pool option" where
  "Stop_locked p = (if pool_stopping p = Locking \<and> pool_sending p = []
     then Some (p\<lparr>pool_stopped := True, pool_closed := True, pool_stopping := Waiting (pool_started p)\<rparr>)
     else None)"

definition Stop_return :: "'t Pool \<Rightarrow> 't Pool option" where
  "Stop_return p = (case pool_stopping p of
      Waiting started \<Rightarrow> if started \<longrightarrow> pool_wg p = 0
        then Some (p\<lparr>pool_stopping := Returned\<rparr>) else None
    | _ \<Rightarrow> None)"

section \<open>Runs\<close>

datatype 't pool_act = SubmitEnter 't | SubmitSend 't | SubmitHandoff 't | TrySend 't | TryFalse 't
  | StartCall | StartLocked | StartSpawn | Receive | Finish 't | Exit
  | StopCall | StopLocked | StopReturn

fun pool_do :: "'t pool_act \<Rightarrow> 't Pool \<Rightarrow> 't Pool option" where
  "pool_do (SubmitEnter t) p = Submit_enter t p"
| "pool_do (SubmitSend t) p = Submit_send t p"
| "pool_do (SubmitHandoff t) p = Submit_handoff t p"
| "pool_do (TrySend t) p = TrySubmit_send t p"
| "pool_do (TryFalse t) p = TrySubmit_false t p"
| "pool_do StartCall p = Start_call p"
| "pool_do StartLocked p = Start_locked p"
| "pool_do StartSpawn p = Start_spawn p"
| "pool_do Receive p = worker_receive p"
| "pool_do (Finish t) p = worker_finish t p"
| "pool_do Exit p = worker_exit p"
| "pool_do StopCall p = Stop_call p"
| "pool_do StopLocked p = Stop_locked p"
| "pool_do StopReturn p = Stop_return p"

fun pool_run :: "'t pool_act list \<Rightarrow> 't Pool \<Rightarrow> 't Pool option" where
  "pool_run [] p = Some p"
| "pool_run (a # as) p = (case pool_do a p of None \<Rightarrow> None | Some p' \<Rightarrow> pool_run as p')"

text \<open>The tasks that callers handed in during a run, by either call.\<close>

fun offered :: "'t pool_act list \<Rightarrow> 't list" where
  "offered [] = []"
| "offered (SubmitEnter t # as) = t # offered as"
| "offered (TrySend t # as) = t # offered as"
| "offered (TryFalse t # as) = t # offered as"
| "offered (_ # as) = offered as"

lemmas pool_step_defs = Submit_enter_def Submit_send_def Submit_handoff_def TrySubmit_send_def
  TrySubmit_false_def Start_call_def Start_locked_def Start_spawn_def worker_receive_def
  worker_finish_def worker_exit_def Stop_call_def Stop_locked_def Stop_return_def

lemma pool_run_append: "pool_run (as @ bs) p = Option.bind (pool_run as p) (pool_run bs)"
  by (induction as arbitrary: p) (auto split: option.splits)

lemma pool_run_invariant:
  assumes "\<And>a p p'. P p \<Longrightarrow> pool_do a p = Some p' \<Longrightarrow> P p'"
    and "pool_run as p = Some p'" and "P p"
  shows "P p'"
  using assms(2,3) by (induction as arbitrary: p) (auto split: option.splits intro: assms(1))

section \<open>Every task is somewhere\<close>

definition pool_bag :: "'t Pool \<Rightarrow> 't multiset" where
  "pool_bag p = mset (pool_sending p) + mset (pool_tasks p) + mset (pool_running p) +
     mset (pool_finished p) + mset (pool_refused p)"

lemma pool_bag_step:
  assumes "pool_do a p = Some p'"
  shows "pool_bag p' = pool_bag p + mset (offered [a])"
  using assms
  by (cases a) (auto simp: pool_step_defs pool_bag_def Let_def split: if_splits list.splits stop_phase.splits)

lemma offered_Cons: "offered (a # as) = offered [a] @ offered as"
  by (cases a) auto

lemma pool_bag_run:
  assumes "pool_run as p = Some p'"
  shows "pool_bag p' = pool_bag p + mset (offered as)"
  using assms
proof (induction as arbitrary: p)
  case Nil
  then show ?case by simp
next
  case (Cons a as)
  then obtain q where "pool_do a p = Some q" "pool_run as q = Some p'"
    by (auto split: option.splits)
  with Cons.IH pool_bag_step show ?case
    by (subst offered_Cons) (fastforce simp del: offered.simps)
qed

section \<open>The invariant\<close>

text \<open>
  The channel is closed exactly when the pool is stopped, and then no call is about to send on
  it; the buffer keeps its bound; no more tasks run than there are workers.
\<close>

fun past_lock :: "stop_phase \<Rightarrow> bool" where
  "past_lock (Waiting _) = True"
| "past_lock Returned = True"
| "past_lock _ = False"

definition pool_inv :: "'t Pool \<Rightarrow> bool" where
  "pool_inv p \<longleftrightarrow> pool_closed p = past_lock (pool_stopping p) \<and>
     pool_stopped p = past_lock (pool_stopping p) \<and>
     (past_lock (pool_stopping p) \<longrightarrow> pool_sending p = []) \<and>
     length (pool_tasks p) \<le> pool_queueSize p \<and> 0 < pool_workers p \<and>
     pool_wg p \<le> pool_workers p \<and> (pool_spawning p \<longrightarrow> pool_wg p = 0) \<and>
     (\<not> pool_started p \<longrightarrow> \<not> pool_spawning p \<and> pool_wg p = 0)"

lemma NewPool_inv: "pool_inv (NewPool workers queueSize)"
proof -
  have "0 < nat (sint (if workers <s 1 then 1 else workers))" by (auto simp: word_sless_alt)
  then show ?thesis by (simp add: pool_inv_def NewPool_def pool_wg_def)
qed

lemma Suc_length_remove1: "x \<in> set xs \<Longrightarrow> Suc (length (remove1 x xs)) = length xs"
  by (simp add: length_remove1 Suc_pred' length_pos_if_in_set del: length_greater_0_conv)

text \<open>
  A predicate kept by every step: stated of the option a step gives, so that the simplifier
  computes the next state in the goal.
\<close>

lemma pool_stepI: "pred_option P (pool_do a p) \<Longrightarrow> pool_do a p = Some p' \<Longrightarrow> P p'"
  by simp

lemma pool_inv_step:
  assumes "pool_inv p" and "pool_do a p = Some p'"
  shows "pool_inv p'"
proof (rule pool_stepI [OF _ assms(2)], cases a)
  case (Finish t)
  with assms(1) Suc_length_remove1 [of t "pool_running p"] show "pred_option pool_inv (pool_do a p)"
    by (auto simp: worker_finish_def pool_inv_def pool_wg_def)
qed (use assms(1) in \<open>cases "pool_stopping p"; auto simp: pool_step_defs pool_inv_def pool_wg_def
      Let_def split: list.split\<close>)+

lemma pool_inv_run: "pool_run as p = Some p' \<Longrightarrow> pool_inv p \<Longrightarrow> pool_inv p'"
  by (rule pool_run_invariant [of pool_inv]) (auto intro: pool_inv_step)

text \<open>
  A pool on which \<open>Start\<close> has returned: it has all its workers until the channel is closed and
  drained, and \<open>Stop\<close> returns only once they have all left.
\<close>

definition pool_up :: "'t Pool \<Rightarrow> bool" where
  "pool_up p \<longleftrightarrow> pool_inv p \<and> pool_started p \<and> \<not> pool_spawning p \<and>
     (case pool_stopping p of Waiting b \<Rightarrow> b | Returned \<Rightarrow> pool_wg p = 0 | _ \<Rightarrow> True) \<and>
     (pool_wg p = pool_workers p \<or> pool_closed p \<and> pool_tasks p = [])"

lemma pool_up_step:
  assumes "pool_up p" and "pool_do a p = Some p'"
  shows "pool_up p'"
proof -
  have inv: "pool_inv p" "pool_inv p'" using assms pool_inv_step by (auto simp: pool_up_def)
  have "pred_option (\<lambda>q. pool_inv q \<longrightarrow> pool_up q) (pool_do a p)"
  proof (cases a)
    case (Finish t)
    with assms(1) Suc_length_remove1 [of t "pool_running p"] show ?thesis
      by (auto simp: worker_finish_def pool_up_def pool_wg_def split: stop_phase.splits)
  qed (use assms(1) inv(1) in \<open>cases "pool_stopping p"; auto simp: pool_step_defs pool_up_def
        pool_inv_def pool_wg_def Let_def split: list.split\<close>)+
  with inv(2) pool_stepI [OF _ assms(2)] show ?thesis by auto
qed

lemma pool_up_run: "pool_run as p = Some p' \<Longrightarrow> pool_up p \<Longrightarrow> pool_up p'"
  by (rule pool_run_invariant [of pool_up]) (auto intro: pool_up_step)

text \<open>The pool as \<open>NewPool\<close> and a call of \<open>Start\<close> leave it.\<close>

definition started_pool :: "goint \<Rightarrow> goint \<Rightarrow> 't Pool" where
  "started_pool workers queueSize =
     (let p = NewPool workers queueSize in p\<lparr>pool_started := True, pool_idle := pool_workers p\<rparr>)"

lemma started_pool_run:
  "pool_run [StartCall, StartLocked, StartSpawn] (NewPool workers queueSize) =
     Some (started_pool workers queueSize)"
  by (simp add: pool_step_defs NewPool_def started_pool_def Let_def)

lemma started_pool_up: "pool_up (started_pool workers queueSize)"
  using NewPool_inv [of workers queueSize]
  by (simp add: pool_up_def started_pool_def Let_def pool_inv_def pool_wg_def NewPool_def)

section \<open>Stopping\<close>

text \<open>
  What is left to do once \<open>Stop\<close> was called: every blocked send, queued task, running task and
  worker, the calls that wait for the lock, and the steps of \<open>Stop\<close> itself.
\<close>

definition pool_left :: "'t Pool \<Rightarrow> nat" where
  "pool_left p = 4 * length (pool_sending p) + 3 * length (pool_tasks p) +
     2 * length (pool_running p) + pool_idle p + pool_starting p +
     (case pool_stopping p of NotStopping \<Rightarrow> 3 | Locking \<Rightarrow> 2 | Waiting _ \<Rightarrow> 1 | Returned \<Rightarrow> 0)"

text \<open>The steps that goroutines already under way take; the others are new calls.\<close>

fun pool_internal :: "'t pool_act \<Rightarrow> bool" where
  "pool_internal (SubmitEnter t) = False"
| "pool_internal (TrySend t) = False"
| "pool_internal (TryFalse t) = False"
| "pool_internal StartCall = False"
| "pool_internal StopCall = False"
| "pool_internal _ = True"


lemma pool_left_step:
  assumes "pool_do a p = Some p'" and "pool_internal a" and "\<not> pool_spawning p"
  shows "pool_left p' < pool_left p"
proof (rule pool_stepI [OF _ assms(1)])
  have len: "t \<in> set xs \<Longrightarrow> length xs = Suc (length (remove1 t xs))" for t and xs :: "'a list"
    using Suc_length_remove1 [of t xs] by simp
  note defs = pool_step_defs pool_left_def Let_def
  show "pred_option (\<lambda>q. pool_left q < pool_left p) (pool_do a p)"
  proof (cases a)
    case (SubmitSend t)
    with len [of t "pool_sending p"] show ?thesis by (simp add: defs)
  next
    case (SubmitHandoff t)
    with len [of t "pool_sending p"] show ?thesis by (simp add: defs)
  next
    case (Finish t)
    with len [of t "pool_running p"] show ?thesis by (simp add: defs)
  qed (use assms(2,3) in \<open>cases "pool_stopping p"; auto simp: defs split: list.split\<close>)+
qed

text \<open>Until \<open>Stop\<close> has returned, some goroutine under way can move.\<close>

lemma pool_progress:
  assumes "pool_up p" and "pool_stopping p \<noteq> NotStopping" and "pool_stopping p \<noteq> Returned"
  shows "\<exists>a p'. pool_internal a \<and> pool_do a p = Some p'"
proof -
  note defs = pool_step_defs pool_up_def pool_inv_def pool_wg_def
  have run: ?thesis if "t \<in> set (pool_running p)" for t
    using that by (intro exI [of _ "Finish t"]) (simp add: defs)
  consider t ts where "pool_running p = t # ts" | "pool_running p = []" "pool_idle p = 0"
    | "pool_running p = []" "0 < pool_idle p" by (cases "pool_running p") auto
  then show ?thesis
  proof cases
    case (1 t ts)
    then show ?thesis by (intro run [of t]) simp
  next
    case 2
    with assms show ?thesis by (intro exI [of _ StopReturn]) (auto simp: defs split: stop_phase.splits)
  next
    case 3
    then show ?thesis
    proof (cases "pool_tasks p")
      case (Cons t ts)
      with 3 show ?thesis by (intro exI [of _ Receive]) (simp add: defs)
    next
      case Nil
      show ?thesis
      proof (cases "pool_sending p")
        case (Cons t ts)
        with 3 Nil show ?thesis by (intro exI [of _ "SubmitHandoff t"]) (simp add: defs)
      next
        case Nil': Nil
        show ?thesis
        proof (cases "pool_stopping p = Locking")
          case True
          with Nil' show ?thesis by (intro exI [of _ StopLocked]) (simp add: defs)
        next
          case False
          with assms 3 Nil show ?thesis
            by (intro exI [of _ Exit]) (auto simp: defs split: stop_phase.splits)
        qed
      qed
    qed
  qed
qed

end
