(* ===== verification/Pool_Props.thy ===== *)
theory Pool_Props
  imports WorkerPool
begin

text \<open>
  The properties of the worker pool: no task is lost or run twice, \<open>Stop\<close> drains the queue and
  returns whatever the scheduler does, and what goes wrong when \<open>Start\<close> is not called first.
\<close>

text \<open>The tasks for which \<open>TrySubmit\<close> returned false.\<close>

fun tried :: "'t pool_act list \<Rightarrow> 't list" where
  "tried [] = []"
| "tried (TryFalse t # as) = t # tried as"
| "tried (_ # as) = tried as"

lemma tried_Cons: "tried (a # as) = tried [a] @ tried as"
  by (cases a) auto

lemma refused_step:
  assumes "pool_do a p = Some p'" and "\<not> pool_stopped p'"
  shows "\<not> pool_stopped p \<and> mset (pool_refused p') = mset (pool_refused p) + mset (tried [a])"
proof -
  have "pred_option (\<lambda>q. \<not> pool_stopped q \<longrightarrow>
      \<not> pool_stopped p \<and> mset (pool_refused q) = mset (pool_refused p) + mset (tried [a])) (pool_do a p)"
    by (cases a; cases "pool_stopping p"; auto simp: pool_step_defs Let_def split: list.split)
  with assms show ?thesis by simp
qed

lemma refused_run:
  assumes "pool_run as p = Some p'" and "\<not> pool_stopped p'"
  shows "\<not> pool_stopped p \<and> mset (pool_refused p') = mset (pool_refused p) + mset (tried as)"
  using assms(1)
proof (induction as arbitrary: p)
  case Nil
  with assms(2) show ?case by simp
next
  case (Cons a as)
  then obtain q where q: "pool_do a p = Some q" "pool_run as q = Some p'"
    by (auto split: option.splits)
  with Cons.IH refused_step [OF q(1)] show ?case
    by (subst tried_Cons) (auto simp: union_assoc simp del: tried.simps)
qed

text \<open>C18: whatever the callers and the scheduler do, every task handed to the pool is in exactly
  one place (waiting to be sent, queued, running, finished or refused) as often as it was handed
  in, so none is lost or run twice; the queue keeps its bound, no more tasks run than there are
  workers, nothing is sent on a closed channel, and until the pool is stopped only a
  \<open>TrySubmit\<close> that returned false refuses a task.\<close>

theorem pool_exactly_once:
  assumes "pool_run as (NewPool workers queueSize) = Some p"
  shows "mset (offered as) = mset (pool_sending p) + mset (pool_tasks p) + mset (pool_running p) +
      mset (pool_finished p) + mset (pool_refused p) \<and>
    Pool_QueueLen p \<le> pool_queueSize p \<and> length (pool_running p) \<le> pool_workers p \<and>
    (pool_closed p \<longrightarrow> pool_sending p = []) \<and>
    (\<not> pool_stopped p \<longrightarrow> mset (pool_refused p) = mset (tried as))"
proof (intro conjI)
  show "mset (offered as) = mset (pool_sending p) + mset (pool_tasks p) + mset (pool_running p) +
      mset (pool_finished p) + mset (pool_refused p)"
    using pool_bag_run [OF assms] by (simp add: pool_bag_def NewPool_def)
  show "\<not> pool_stopped p \<longrightarrow> mset (pool_refused p) = mset (tried as)"
    using refused_run [OF assms] by (auto simp: NewPool_def)
qed (use pool_inv_run [OF assms NewPool_inv] in
    \<open>auto simp: pool_inv_def pool_wg_def Pool_QueueLen_def\<close>)

theorem pool_exactly_once_witness:
  "\<exists>p. pool_run [SubmitEnter (7::nat), SubmitSend 7, TryFalse 8, StartCall, StartLocked, StartSpawn,
      Receive, Finish 7] (NewPool 1 1) = Some p \<and> pool_finished p = [7] \<and>
    mset [7, 8] = mset (pool_finished p) + mset (pool_refused p)"
proof -
  obtain p where p: "pool_run [SubmitEnter (7::nat), SubmitSend 7, TryFalse 8, StartCall, StartLocked,
      StartSpawn, Receive, Finish 7] (NewPool 1 1) = Some p" and
    fin: "pool_finished p = [7]" "pool_sending p = []" "pool_tasks p = []" "pool_running p = []"
    by (simp add: pool_step_defs NewPool_def word_sless_alt can_read_def)
  from pool_exactly_once [OF p] fin have "mset [7, 8] = mset (pool_finished p) + mset (pool_refused p)"
    by simp
  with p fin(1) show ?thesis by blast
qed

text \<open>C27: once \<open>Stop\<close> of a started pool has returned, no worker is left, and every task handed in
  was either run to its end or refused: the queue was drained.\<close>

theorem pool_stop_drains:
  assumes "pool_run as (started_pool workers queueSize) = Some p" and "pool_stopping p = Returned"
  shows "mset (offered as) = mset (pool_finished p) + mset (pool_refused p) \<and> pool_wg p = 0"
proof -
  have up: "pool_up p" by (rule pool_up_run [OF assms(1) started_pool_up])
  then have "pool_wg p = 0" "pool_sending p = []" "pool_tasks p = []" "pool_running p = []"
    using assms(2) by (auto simp: pool_up_def pool_inv_def pool_wg_def)
  moreover have "pool_bag (started_pool workers queueSize) = {#}"
    by (simp add: pool_bag_def started_pool_def NewPool_def Let_def)
  ultimately show ?thesis using pool_bag_run [OF assms(1)] by (simp add: pool_bag_def)
qed

theorem pool_stop_drains_witness:
  "\<exists>p. pool_run [SubmitEnter (7::nat), StopCall, SubmitHandoff 7, StopLocked, SubmitEnter 9, Finish 7,
      Exit, StopReturn] (started_pool 1 0) = Some p \<and>
    mset [7, 9] = mset (pool_finished p) + mset (pool_refused p)"
proof -
  obtain p where p: "pool_run [SubmitEnter (7::nat), StopCall, SubmitHandoff 7, StopLocked,
      SubmitEnter 9, Finish 7, Exit, StopReturn] (started_pool 1 0) = Some p" and
    fin: "pool_stopping p = Returned"
    by (simp add: pool_step_defs started_pool_def NewPool_def word_sless_alt can_read_def pool_wg_def Let_def)
  from pool_stop_drains [OF p fin] p show ?thesis by auto
qed

lemma internal_run_bounded:
  assumes "pool_run bs p = Some p'" and "list_all pool_internal bs" and "pool_up p"
  shows "length bs + pool_left p' \<le> pool_left p"
  using assms
proof (induction bs arbitrary: p)
  case Nil
  then show ?case by simp
next
  case (Cons b bs)
  then obtain q where q: "pool_do b p = Some q" "pool_run bs q = Some p'"
    by (auto split: option.splits)
  with Cons.prems have "pool_left q < pool_left p" by (intro pool_left_step) (auto simp: pool_up_def)
  moreover have "pool_up q" using q(1) Cons.prems(3) by (rule pool_up_step [rotated])
  ultimately show ?case using Cons q(2) by fastforce
qed

lemma stopping_stays:
  assumes "pool_do a p = Some p'" and "pool_stopping p \<noteq> NotStopping"
  shows "pool_stopping p' \<noteq> NotStopping"
proof -
  have "pred_option (\<lambda>q. pool_stopping q \<noteq> NotStopping) (pool_do a p)"
    using assms(2)
    by (cases a; cases "pool_stopping p"; auto simp: pool_step_defs Let_def split: list.split)
  with assms(1) show ?thesis by simp
qed

text \<open>C28: once \<open>Stop\<close> of a started pool was called, the goroutines under way get it to return
  whatever the scheduler does (tasks return, and no new call comes in): they can take only so many
  steps, and until it has returned one of them can move.\<close>

theorem pool_stop_returns:
  assumes "pool_run as (started_pool workers queueSize) = Some p" and "pool_stopping p \<noteq> NotStopping"
    and "pool_run bs p = Some p'" and "list_all pool_internal bs"
  shows "length bs \<le> pool_left p \<and>
    (pool_stopping p' = Returned \<or> (\<exists>b q. pool_internal b \<and> pool_do b p' = Some q))"
proof
  have up: "pool_up p" by (rule pool_up_run [OF assms(1) started_pool_up])
  with internal_run_bounded [OF assms(3,4)] show "length bs \<le> pool_left p" by simp
  have "pool_stopping p' \<noteq> NotStopping"
    by (rule pool_run_invariant [of "\<lambda>q. pool_stopping q \<noteq> NotStopping", OF _ assms(3,2)])
      (rule stopping_stays)
  with pool_progress [OF pool_up_run [OF assms(3) up]]
  show "pool_stopping p' = Returned \<or> (\<exists>b q. pool_internal b \<and> pool_do b p' = Some q)" by blast
qed

theorem pool_stop_returns_witness:
  "\<exists>p. pool_run [SubmitEnter (7::nat), StopCall] (started_pool 1 0) = Some p \<and> pool_stopping p = Locking \<and>
    (\<exists>b q. pool_internal b \<and> pool_do b p = Some q)"
proof -
  obtain p where p: "pool_run [SubmitEnter (7::nat), StopCall] (started_pool 1 0) = Some p" and
    st: "pool_stopping p = Locking"
    by (simp add: pool_step_defs started_pool_def NewPool_def word_sless_alt can_read_def pool_wg_def Let_def)
  from pool_stop_returns [OF p, of "[]" p] st have "\<exists>b q. pool_internal b \<and> pool_do b p = Some q"
    by simp
  with p st show ?thesis by blast
qed

section \<open>A pool that is not started first\<close>

definition pool_stuck :: "'t Pool \<Rightarrow> bool" where
  "pool_stuck p \<longleftrightarrow> pool_sending p \<noteq> [] \<and> pool_queueSize p \<le> length (pool_tasks p) \<and>
     pool_wg p = 0 \<and> \<not> pool_spawning p \<and> \<not> pool_started p \<and> pool_stopping p \<in> {NotStopping, Locking}"

lemma pool_stuck_step:
  assumes "pool_stuck p" and "pool_do a p = Some p'"
  shows "pool_stuck p'"
proof (rule pool_stepI [OF _ assms(2)])
  show "pred_option pool_stuck (pool_do a p)"
    using assms(1) by (cases a; cases "pool_stopping p";
        auto simp: pool_step_defs pool_stuck_def pool_wg_def Let_def split: list.split)
qed

text \<open>A \<open>Submit\<close> that blocks on a full queue holds the read lock; on a pool not yet started
  neither \<open>Start\<close> nor \<open>Stop\<close> ever gets the lock then: whatever happens, the pool is never started,
  \<open>Stop\<close> never returns and the task is never sent.\<close>

theorem pool_unstarted_blocks:
  assumes "pool_run as (NewPool workers queueSize) = Some p" and "\<not> pool_started p"
    and "pool_sending p \<noteq> []" and "pool_queueSize p \<le> Pool_QueueLen p" and "pool_run bs p = Some p'"
  shows "\<not> pool_started p' \<and> pool_stopping p' \<noteq> Returned \<and> pool_sending p' \<noteq> [] \<and> pool_wg p' = 0"
proof -
  have inv: "pool_inv p" by (rule pool_inv_run [OF assms(1) NewPool_inv])
  have "pool_stuck p"
    using inv assms(2-4) by (cases "pool_stopping p")
      (auto simp: pool_stuck_def pool_inv_def Pool_QueueLen_def pool_wg_def)
  then have "pool_stuck p'"
    using pool_run_invariant [of pool_stuck, OF _ assms(5)] pool_stuck_step by blast
  then show ?thesis by (auto simp: pool_stuck_def)
qed

theorem pool_unstarted_blocks_witness:
  "\<exists>p. pool_run [SubmitEnter (7::nat), StartCall, StopCall] (NewPool 1 0) = Some p \<and>
     \<not> pool_started p \<and> pool_stopping p \<noteq> Returned"
proof -
  obtain p1 where p1: "pool_run [SubmitEnter (7::nat)] (NewPool 1 0) = Some p1" and
    b: "\<not> pool_started p1" "pool_sending p1 \<noteq> []" "pool_queueSize p1 \<le> Pool_QueueLen p1"
    by (simp add: pool_step_defs NewPool_def word_sless_alt can_read_def Pool_QueueLen_def)
  obtain p where p: "pool_run [StartCall, StopCall] p1 = Some p"
    using p1 by (auto simp: pool_step_defs NewPool_def word_sless_alt can_read_def)
  have "pool_run [SubmitEnter (7::nat), StartCall, StopCall] (NewPool 1 0) = Some p"
    using p1 p by (auto split: option.splits)
  with pool_unstarted_blocks [OF p1 b p] show ?thesis by blast
qed

text \<open>\<open>Start\<close> adds its workers to the wait group only after it released the lock: a \<open>Stop\<close> in
  between finds the counter at zero and returns although an accepted task was never run.\<close>

theorem pool_stop_start_race:
  "\<exists>as p. pool_run as (NewPool 1 1) = Some p \<and> pool_stopping p = Returned \<and> pool_tasks p = [7::nat] \<and>
     pool_started p \<and> pool_finished p = [] \<and> pool_refused p = []"
  by (rule exI [of _ "[SubmitEnter 7, SubmitSend 7, StartCall, StartLocked, StopCall, StopLocked,
      StopReturn]"]) (simp add: pool_step_defs NewPool_def word_sless_alt can_read_def pool_wg_def)

end
