(* ===== verification/Transacting.thy ===== *)
theory Transacting
  imports UnitOfWork
begin

text \<open>
  What every command that runs one transaction relies on: the function given to \<open>Do\<close> either ran
  to a nil return on the tables as they were and was committed, or the tables are as they were.
\<close>

locale transacting =
  fixes ok :: "'g \<Rightarrow> ('s \<Rightarrow> DB) \<Rightarrow> bool" and rp :: "'g \<Rightarrow> 's RepositoryProvider"
    and uok :: "'c \<Rightarrow> ('s \<Rightarrow> DB) \<Rightarrow> bool"
    and uow :: "'c \<Rightarrow> ('s RepositoryProvider \<Rightarrow> ('s \<times> 'h, unit) prog) \<Rightarrow> ('s \<times> 'h, unit) prog"
  assumes Do_runs: "uok c view \<Longrightarrow>
      \<exists>g txn. ok g view \<and> transactional view txn \<and> (\<forall>F. uow c F = txn (F (rp g)))"
begin

lemma tx_cases:
  assumes "uok c view" and "uow c F (s, h) = (r, (s', h'))"
  obtains (committed) g s0 s1 where "ok g view" and "view s0 = view s"
      and "F (rp g) (s0, h) = (Ok (), (s1, h'))" and "r = Ok ()" and "view s' = view s1"
  | (failed) "\<not> is_Ok r" and "view s' = view s"
proof -
  from Do_runs [OF assms(1)] obtain g txn where
    g: "ok g view" "transactional view txn" "uow c F = txn (F (rp g))" by blast
  from g(2) assms(2) [unfolded g(3)] show ?thesis
    by (cases rule: transactional_cases) (auto intro: committed [OF g(1)] failed)
qed

end

sublocale shop_ports \<subseteq> transacting ok rp uok uow
  by unfold_locales (rule Do_transaction)

interpretation transacted: transacting gorm_ok NewRepositories uow_ok unitOfWork_Do
  by unfold_locales (auto simp: uow_ok_def unitOfWork_Do_def split_beta)

text \<open>
  A handler that runs one transaction over its captured variables, and returns something of them
  when it was committed.
\<close>

definition runUow :: "(('s RepositoryProvider \<Rightarrow> ('s \<times> 'h, unit) prog) \<Rightarrow> ('s \<times> 'h, unit) prog)
    \<Rightarrow> ('s RepositoryProvider \<Rightarrow> ('s \<times> 'h, unit) prog) \<Rightarrow> 'h \<Rightarrow> ('s, 'h) prog" where
  "runUow uow tx h s = (case uow tx (s, h) of (r, (s', h')) \<Rightarrow> (map_outcome (\<lambda>_. h') r, s'))"

context transacting
begin

lemma runUow_cases:
  assumes "uok c view" and "runUow (uow c) F h s = (r, s')"
  obtains (committed) g s0 s1 h' where "ok g view" and "view s0 = view s"
      and "F (rp g) (s0, h) = (Ok (), (s1, h'))" and "r = Ok h'" and "view s' = view s1"
  | (failed) "\<not> is_Ok r" and "view s' = view s"
proof -
  obtain r0 s2 h' where run: "uow c F (s, h) = (r0, (s2, h'))" by (metis prod_cases3)
  with assms(2) have r: "r = map_outcome (\<lambda>_. h') r0" "s' = s2" by (simp_all add: runUow_def)
  from assms(1) run show ?thesis
  proof (cases rule: tx_cases)
    case (committed g s0 s1)
    then show ?thesis using that(1) [of g s0 s1 h'] r by simp
  next
    case failed
    then show ?thesis using that(2) r by simp
  qed
qed

end

end
