(* ===== verification/Catalogue.thy ===== *)
theory Catalogue
  imports Transacting
begin

text \<open>
  The commands of the catalogue: internal/application/command/create_product.go and
  update_product.go.
\<close>

record CreateProductInput =
  cpin_SKU :: string
  cpin_Name :: string
  cpin_Description :: string
  cpin_PriceAmount :: int64
  cpin_Currency :: string
  cpin_InitialStock :: goint
  cpin_ReorderLevel :: goint

text \<open>The transaction captures the product, whose id \<open>Create\<close> assigns.\<close>

definition createProductTx :: "CreateProductInput \<Rightarrow> 's RepositoryProvider \<Rightarrow> ('s \<times> Product, unit) prog" where
  "createProductTx inp rp =
     check (drep_Create (rp_Products rp)) (\<lambda>_ sp.
       check (lift (NewInventory (prod_id (snd sp)) (cpin_InitialStock inp) (cpin_ReorderLevel inp)))
         (\<lambda>inv. onStore (irep_Save (rp_Inventory rp) inv)) sp)"

definition CreateProduct_Handle ::
  "(('s RepositoryProvider \<Rightarrow> ('s \<times> Product, unit) prog) \<Rightarrow> ('s \<times> Product, unit) prog)
    \<Rightarrow> time \<Rightarrow> CreateProductInput \<Rightarrow> ('s, Product) prog" where
  "CreateProduct_Handle uow now inp =
     check (lift (NewMoney (cpin_PriceAmount inp) (cpin_Currency inp))) (\<lambda>price.
     check (lift (NewProduct now (cpin_SKU inp) (cpin_Name inp) (cpin_Description inp) price)) (\<lambda>p.
     runUow uow (createProductTx inp) p))"

text \<open>A field of the input that is a nil pointer is \<open>None\<close>.\<close>

record UpdateProductInput =
  upin_Name :: "string option"
  upin_Description :: "string option"
  upin_PriceAmount :: "int64 option"
  upin_Currency :: "string option"
  upin_Active :: "bool option"

definition renameStep :: "UpdateProductInput \<Rightarrow> (Product, unit) prog" where
  "renameStep inp = (case upin_Name inp of Some name \<Rightarrow> Product_Rename name | None \<Rightarrow> return ())"

definition repriceStep :: "UpdateProductInput \<Rightarrow> (Product, unit) prog" where
  "repriceStep inp p = (case upin_PriceAmount inp of
      Some amount \<Rightarrow>
        (let cur = (case upin_Currency inp of Some c \<Rightarrow> c | None \<Rightarrow> m_currency (prod_price p)) in
         case NewMoney amount cur of
           Ok price \<Rightarrow> (Ok (), Product_Reprice price p)
         | Err e \<Rightarrow> (Err e, p)
         | Panic q \<Rightarrow> (Panic q, p))
    | None \<Rightarrow> (Ok (), p))"

definition activeStep :: "UpdateProductInput \<Rightarrow> (Product, unit) prog" where
  "activeStep inp p = (case upin_Active inp of
      Some b \<Rightarrow> (Ok (), if b then Product_Activate p else Product_Deactivate p)
    | None \<Rightarrow> (Ok (), p))"

definition reviseProduct :: "UpdateProductInput \<Rightarrow> (Product, unit) prog" where
  "reviseProduct inp = check (renameStep inp) (\<lambda>_. check (repriceStep inp) (\<lambda>_. activeStep inp))"

text \<open>The transaction captures \<open>result\<close>, nil before it and on every error.\<close>

definition updateProductTx ::
  "uint64 \<Rightarrow> UpdateProductInput \<Rightarrow> 's RepositoryProvider \<Rightarrow> ('s \<times> Product option, unit) prog" where
  "updateProductTx i inp rp =
     check (onStore (drep_FindByID (rp_Products rp) i)) (\<lambda>p.
       case reviseProduct inp p of (revised, p') \<Rightarrow>
       check (lift revised) (\<lambda>_.
       check (onStore (drep_Update (rp_Products rp) p')) (\<lambda>_.
       onVars (\<lambda>_. (Ok (), Some p')))))"

definition UpdateProduct_Handle ::
  "(('s RepositoryProvider \<Rightarrow> ('s \<times> Product option, unit) prog) \<Rightarrow> ('s \<times> Product option, unit) prog)
    \<Rightarrow> uint64 \<Rightarrow> UpdateProductInput \<Rightarrow> ('s, Product option) prog" where
  "UpdateProduct_Handle uow i inp = runUow uow (updateProductTx i inp) None"

section \<open>The contract of the catalogue's repositories\<close>

locale catalogue_port = product_port ok prods
  for ok :: "'g \<Rightarrow> ('s \<Rightarrow> DB) \<Rightarrow> bool" and prods :: "'g \<Rightarrow> 's ProductRepository" +
  fixes invs :: "'g \<Rightarrow> 's InventoryRepository"
  assumes Create_product: "ok g view \<Longrightarrow> drep_Create (prods g) (s, p) = (Ok u, (s', p'))
      \<Longrightarrow> \<exists>r. inserts productSchema (db_products (view s)) (productToModel p) r \<and>
          p' = Product_AssignID (pm_ID r) p \<and> view s' = put_products (db_products (view s) @ [r]) (view s)"
    and Update_product: "ok g view \<Longrightarrow> drep_Update (prods g) p s = (Ok u, s')
      \<Longrightarrow> \<exists>rs. saves productSchema (db_products (view s)) (productToModel p) rs \<and>
          view s' = put_products rs (view s)"
    and Save_inventory: "ok g view \<Longrightarrow> irep_Save (invs g) i s = (Ok u, s')
      \<Longrightarrow> \<exists>rs. saves inventorySchema (db_inventories (view s)) (inventoryToModel i) rs \<and>
          view s' = put_inventories rs (view s)"

lemma products_table:
  "gorm_ok G view \<Longrightarrow> table_ok productSchema view db_products put_products (g_products G)"
  and inventories_table:
  "gorm_ok G view \<Longrightarrow> table_ok inventorySchema view db_inventories put_inventories (g_inventories G)"
  by (simp_all add: gorm_ok_def)

interpretation gorm_catalogue: catalogue_port gorm_ok "\<lambda>G. rp_Products (NewRepositories G)"
  "\<lambda>G. rp_Inventory (NewRepositories G)"
proof (unfold_locales, goal_cases)
  case (1 g view s p u s' p')
  then obtain r where r: "tbl_Create (g_products g) (productToModel p) s = (Ok r, s')"
    "p' = Product_AssignID (pm_ID r) p"
    by (auto simp: productRepo_Create_def split: prod.splits outcome.splits)
  from writes_Ok [OF table_okD(1) [OF products_table [OF 1(1)]] r(1)] r(2) show ?case by auto
next
  case (2 g view p s u s')
  then have "tbl_Save (g_products g) (productToModel p) s = (Ok u, s')"
    by (simp add: productRepo_Update_def)
  from writes_Ok [OF table_okD(2) [OF products_table [OF 2(1)]] this] show ?case by auto
next
  case (3 g view i s u s')
  then have "tbl_Save (g_inventories g) (inventoryToModel i) s = (Ok u, s')"
    by (simp add: inventoryRepo_Save_def)
  from writes_Ok [OF table_okD(2) [OF inventories_table [OF 3(1)]] this] show ?case by auto
qed

section \<open>What the commands do to the tables\<close>

definition product_added :: "CreateProductInput \<Rightarrow> DB \<Rightarrow> DB \<Rightarrow> Product \<Rightarrow> bool" where
  "product_added inp d d' p \<longleftrightarrow> (\<exists>m i.
     d' = d\<lparr>db_products := db_products d @ [m], db_inventories := db_inventories d @ [i]\<rparr> \<and>
     pm_ID m = prod_id p \<and> prod_id p \<notin> pm_ID ` set (db_products d) \<and>
     pm_SKU m = cpin_SKU inp \<and> cpin_SKU inp \<notin> pm_SKU ` set (db_products d) \<and>
     pm_Name m = cpin_Name inp \<and> pm_Description m = cpin_Description inp \<and>
     pm_PriceAmount m = cpin_PriceAmount inp \<and> pm_Currency m = cpin_Currency inp \<and> pm_Active m \<and>
     im_ProductID i = prod_id p \<and> im_Available i = cpin_InitialStock inp \<and> im_Reserved i = 0 \<and>
     im_ReorderLevel i = cpin_ReorderLevel inp \<and> 0 \<le>s cpin_InitialStock inp)"

locale catalogue_ports =
  transacting ok rp uok uow +
  catalogue_port ok "\<lambda>g. rp_Products (rp g)" "\<lambda>g. rp_Inventory (rp g)"
  for ok :: "'g \<Rightarrow> ('s \<Rightarrow> DB) \<Rightarrow> bool" and rp :: "'g \<Rightarrow> 's RepositoryProvider"
    and uok :: "'c \<Rightarrow> ('s \<Rightarrow> DB) \<Rightarrow> bool"
    and uow :: "'c \<Rightarrow> ('s RepositoryProvider \<Rightarrow> ('s \<times> 'h, unit) prog) \<Rightarrow> ('s \<times> 'h, unit) prog"

locale creating_ports = catalogue_ports ok rp uok uow
  for ok :: "'g \<Rightarrow> ('s \<Rightarrow> DB) \<Rightarrow> bool" and rp :: "'g \<Rightarrow> 's RepositoryProvider"
    and uok :: "'c \<Rightarrow> ('s \<Rightarrow> DB) \<Rightarrow> bool"
    and uow :: "'c \<Rightarrow> ('s RepositoryProvider \<Rightarrow> ('s \<times> Product, unit) prog) \<Rightarrow> ('s \<times> Product, unit) prog"
begin

lemma createProductTx_Ok:
  assumes "ok g view" and "createProductTx inp (rp g) (s, p) = (Ok u, (s', p'))"
    and "NewMoney (cpin_PriceAmount inp) (cpin_Currency inp) = Ok price"
    and "NewProduct now (cpin_SKU inp) (cpin_Name inp) (cpin_Description inp) price = Ok p"
    and "db_ok (view s)"
  shows "product_added inp (view s) (view s') p' \<and> db_ok (view s')"
proof -
  from assms(2) obtain s1 inv where
    cr: "drep_Create (rp_Products (rp g)) (s, p) = (Ok (), (s1, p'))" and
    inv: "NewInventory (prod_id p') (cpin_InitialStock inp) (cpin_ReorderLevel inp) = Ok inv" and
    sv: "irep_Save (rp_Inventory (rp g)) inv s1 = (Ok (), s')"
    by (auto simp: createProductTx_def check_Ok_iff onStore_iff simp del: onStore_apply)
  from Create_product [OF assms(1) cr] obtain r where
    r: "inserts productSchema (db_products (view s)) (productToModel p) r" and
    p': "p' = Product_AssignID (pm_ID r) p" and
    v1: "view s1 = put_products (db_products (view s) @ [r]) (view s)" by auto
  from Save_inventory [OF assms(1) sv] obtain rs where
    rs: "saves inventorySchema (db_inventories (view s1)) (inventoryToModel inv) rs" and
    v2: "view s' = put_inventories rs (view s1)" by auto
  have im: "inventoryToModel inv = \<lparr>im_ID = 0, im_ProductID = prod_id p',
      im_Available = cpin_InitialStock inp, im_Reserved = 0, im_ReorderLevel = cpin_ReorderLevel inp,
      im_Version = 0, im_CreatedAt = 0\<rparr>"
    using inv by (auto simp: NewInventory_def inventoryToModel_def split: if_splits)
  then obtain i where i: "inserts inventorySchema (db_inventories (view s)) (inventoryToModel inv) i"
    "rs = db_inventories (view s) @ [i]"
    using rs v1 by (auto simp: saves_def inventorySchema_def)
  have stocked: "0 \<le>s cpin_InitialStock inp"
    using inv by (auto simp: NewInventory_def not_sless_sle split: if_splits)
  have row: "r = (productToModel p)\<lparr>pm_ID := pm_ID r, pm_CreatedAt := pm_CreatedAt r,
      pm_Currency := filled_string ''USD'' (pm_Currency (productToModel p)), pm_Active := True\<rparr>"
    and new: "\<forall>x \<in> set (db_products (view s)). pm_ID r \<noteq> pm_ID x \<and> pm_SKU x \<noteq> pm_SKU r"
    using r by (auto simp: inserts_def productSchema_def)
  have p: "prod_id p = 0" "prod_sku p = cpin_SKU inp" "prod_name p = cpin_Name inp"
    "prod_description p = cpin_Description inp" "prod_price p = price"
    using assms(4) by (auto simp: NewProduct_Ok_iff)
  have price: "m_amount price = cpin_PriceAmount inp" "m_currency price = cpin_Currency inp"
    "valid_money price" using assms(3) by (auto simp: NewMoney_Ok_iff)
  have id': "prod_id p' = pm_ID r" using p' p(1) by (simp add: Product_AssignID_def)
  have r_fields: "pm_SKU r = cpin_SKU inp" "pm_Name r = cpin_Name inp"
    "pm_Description r = cpin_Description inp" "pm_PriceAmount r = cpin_PriceAmount inp"
    "pm_Currency r = cpin_Currency inp" "pm_Active r"
    using price(1,2) p filled_string_currency [OF price(3), of "''USD''"]
    by (subst row, simp add: productToModel_def)+
  have irow: "i = (inventoryToModel inv)\<lparr>im_ID := im_ID i, im_CreatedAt := im_CreatedAt i\<rparr>"
    using i(1) by (auto simp: inserts_def inventorySchema_def)
  have i_fields: "im_ProductID i = prod_id p'" "im_Available i = cpin_InitialStock inp"
    "im_Reserved i = 0" "im_ReorderLevel i = cpin_ReorderLevel inp"
    by (subst irow, simp add: im)+
  have "product_added inp (view s) (view s') p'"
    unfolding product_added_def using new id' r_fields i_fields v1 v2 i(2) stocked
    by (intro exI [of _ r] exI [of _ i]) (auto simp: image_iff)
  moreover have "db_ok (view s')"
    using assms(5) inserts_keys_ok [OF r] inserts_keys_ok [OF i(1)] by (simp add: db_ok_def v1 v2 i(2))
  ultimately show ?thesis ..
qed

lemma Create_cases:
  assumes "uok c view" and "CreateProduct_Handle (uow c) now inp s = (res, s')" and "db_ok (view s)"
  obtains (created) p where "res = Ok p" and "product_added inp (view s) (view s') p" and "db_ok (view s')"
  | (refused) "\<not> is_Ok res" and "view s' = view s"
proof (cases "\<exists>price p. NewMoney (cpin_PriceAmount inp) (cpin_Currency inp) = Ok price \<and>
    NewProduct now (cpin_SKU inp) (cpin_Name inp) (cpin_Description inp) price = Ok p")
  case True
  then obtain price p where ok: "NewMoney (cpin_PriceAmount inp) (cpin_Currency inp) = Ok price"
    "NewProduct now (cpin_SKU inp) (cpin_Name inp) (cpin_Description inp) price = Ok p" by blast
  with assms(2) have run: "runUow (uow c) (createProductTx inp) p s = (res, s')"
    by (simp add: CreateProduct_Handle_def)
  from assms(1) run show ?thesis
  proof (cases rule: runUow_cases)
    case (committed g s0 s1 p')
    from createProductTx_Ok [OF committed(1,3) ok] committed(2,5) assms(3) have
      "product_added inp (view s) (view s') p' \<and> db_ok (view s')" by simp
    with committed(4) created show ?thesis by blast
  qed (rule refused)
next
  case False
  with assms(2) have "\<not> is_Ok res \<and> s' = s"
    by (auto simp: CreateProduct_Handle_def check_def split: outcome.splits) (metis is_Ok.simps(2,3))+
  with refused show ?thesis by simp
qed

end

interpretation creating: creating_ports gorm_ok NewRepositories uow_ok unitOfWork_Do
  by unfold_locales

text \<open>
  The row of a product after an update: the new name, price and activity where the input has
  them. The input's description is not among them.
\<close>

definition revised_row :: "UpdateProductInput \<Rightarrow> ProductModel \<Rightarrow> ProductModel" where
  "revised_row inp m = m\<lparr>
     pm_Name := (case upin_Name inp of Some name \<Rightarrow> name | None \<Rightarrow> pm_Name m),
     pm_PriceAmount := (case upin_PriceAmount inp of Some a \<Rightarrow> a | None \<Rightarrow> pm_PriceAmount m),
     pm_Currency := (case (upin_PriceAmount inp, upin_Currency inp) of
        (Some _, Some c) \<Rightarrow> c | _ \<Rightarrow> pm_Currency m),
     pm_Active := (case upin_Active inp of Some b \<Rightarrow> b | None \<Rightarrow> pm_Active m)\<rparr>"

lemma reviseProduct_Ok:
  assumes "productToDomain m = Ok p" and "reviseProduct inp p = (Ok u, p')"
  shows "productToModel p' = revised_row inp m \<and> upin_Name inp \<noteq> Some '''' \<and>
    (\<forall>a. upin_PriceAmount inp = Some a \<longrightarrow> valid_money (prod_price p') \<and> prod_price p' =
       \<lparr>m_amount = pm_PriceAmount (revised_row inp m), m_currency = pm_Currency (revised_row inp m)\<rparr>)"
proof -
  from assms(1) have p: "p = \<lparr>pending = [], prod_id = pm_ID m, prod_sku = pm_SKU m, prod_name = pm_Name m,
      prod_description = pm_Description m,
      prod_price = \<lparr>m_amount = pm_PriceAmount m, m_currency = pm_Currency m\<rparr>,
      prod_active = pm_Active m, prod_createdAt = pm_CreatedAt m\<rparr>"
    by (auto simp: productToDomain_def checkR_Ok_iff MustMoney_Ok_iff ReconstituteProduct_def)
  from assms(2) obtain p1 p2 where
    "renameStep inp p = (Ok (), p1)" "repriceStep inp p1 = (Ok (), p2)" "activeStep inp p2 = (Ok (), p')"
    by (auto simp: reviseProduct_def check_Ok_iff)
  then show ?thesis
    unfolding p
    by (auto simp: renameStep_def Product_Rename_def repriceStep_def Product_Reprice_def activeStep_def
        Product_Activate_def Product_Deactivate_def Record_def revised_row_def productToModel_def
        NewMoney_Ok_iff Let_def split: option.splits if_splits outcome.splits)
qed

definition product_revised :: "uint64 \<Rightarrow> UpdateProductInput \<Rightarrow> DB \<Rightarrow> DB \<Rightarrow> Product \<Rightarrow> bool" where
  "product_revised i inp d d' p \<longleftrightarrow>
     (\<exists>m \<in> set (db_products d). pm_ID m = i \<and> productToModel p = revised_row inp m) \<and>
     d' = d\<lparr>db_products := map (\<lambda>x. if pm_ID x = i then revised_row inp x else x) (db_products d)\<rparr>"

locale revising_ports = catalogue_ports ok rp uok uow
  for ok :: "'g \<Rightarrow> ('s \<Rightarrow> DB) \<Rightarrow> bool" and rp :: "'g \<Rightarrow> 's RepositoryProvider"
    and uok :: "'c \<Rightarrow> ('s \<Rightarrow> DB) \<Rightarrow> bool"
    and uow :: "'c \<Rightarrow> ('s RepositoryProvider \<Rightarrow> ('s \<times> Product option, unit) prog)
      \<Rightarrow> ('s \<times> Product option, unit) prog"
begin

lemma updateProductTx_Ok:
  assumes "ok g view" and "updateProductTx i inp (rp g) (s, None) = (Ok u, (s', res))"
    and "db_ok (view s)"
  shows "\<exists>p. res = Some p \<and> product_revised i inp (view s) (view s') p"
proof -
  from assms(2) obtain p s1 h where
    f: "drep_FindByID (rp_Products (rp g)) i s = (Ok p, s1)" and h: "h = (None :: Product option)" and
    rest: "(case reviseProduct inp p of (revised, p') \<Rightarrow>
       check (lift revised) (\<lambda>_. check (onStore (drep_Update (rp_Products (rp g)) p')) (\<lambda>_.
       onVars (\<lambda>_. (Ok (), Some p'))))) (s1, h) = (Ok (), (s', res))"
    by (auto simp: updateProductTx_def check_Ok_iff onStore_iff simp del: onStore_apply onVars_apply)
  obtain rr p' where rev: "reviseProduct inp p = (rr, p')" by force
  with rest have rr: "rr = Ok ()" and upd: "drep_Update (rp_Products (rp g)) p' s1 = (Ok (), s')"
    and res: "res = Some p'"
    by (auto simp: check_Ok_iff onStore_iff onVars_iff simp del: onStore_apply onVars_apply)
  from Find_product [OF assms(1) f] obtain m where
    m: "m \<in> set (db_products (view s))" "pm_ID m = i" "productToDomain m = Ok p" by auto
  have v1: "view s1 = view s" by (rule Find_product_reads [OF assms(1) f])
  from reviseProduct_Ok [OF m(3) rev [unfolded rr]] have
    row: "productToModel p' = revised_row inp m" by simp
  have keys: "keys_ok productSchema (db_products (view s))" using assms(3) by (simp add: db_ok_def)
  have ids: "sc_id productSchema = pm_ID" "pm_ID (revised_row inp m) = pm_ID m"
    by (simp_all add: productSchema_def revised_row_def)
  have "sc_id productSchema (revised_row inp m) \<noteq> 0"
    using keys_ok_id_nonzero [OF keys m(1)] by (simp add: ids)
  then have v': "view s' =
      put_products (replace_row productSchema (revised_row inp m) (db_products (view s))) (view s)"
    using Update_product [OF assms(1) upd] saves_existing [OF _ m(1), of productSchema "revised_row inp m"]
    by (auto simp: v1 row ids)
  have "x = m" if "x \<in> set (db_products (view s))" "pm_ID x = i" for x
    using that m(1,2) keys_ok_distinct_id [OF keys] by (auto simp: ids(1) distinct_map inj_on_def)
  then have "replace_row productSchema (revised_row inp m) (db_products (view s)) =
      map (\<lambda>x. if pm_ID x = i then revised_row inp x else x) (db_products (view s))"
    using m(2) ids by (auto simp: replace_row_def)
  with v' row m res show ?thesis by (auto simp: product_revised_def)
qed

lemma Revise_cases:
  assumes "uok c view" and "UpdateProduct_Handle (uow c) i inp s = (r, s')" and "db_ok (view s)"
  obtains (revised) p where "r = Ok (Some p)" and "product_revised i inp (view s) (view s') p"
  | (refused) "\<not> is_Ok r" and "view s' = view s"
proof -
  from assms(1) assms(2) [unfolded UpdateProduct_Handle_def] show ?thesis
  proof (cases rule: runUow_cases)
    case (committed g s0 s1 res)
    from updateProductTx_Ok [OF committed(1,3)] committed(2,5) assms(3) obtain p where
      "res = Some p" "product_revised i inp (view s) (view s') p" by auto
    with committed(4) revised show ?thesis by blast
  qed (rule refused)
qed

end

interpretation revising: revising_ports gorm_ok NewRepositories uow_ok unitOfWork_Do
  by unfold_locales

end
