(* ===== verification/Accounts.thy ===== *)
theory Accounts
  imports Transacting
begin

text \<open>
  The commands of the accounts: internal/application/command/register_user.go, login_user.go
  and update_user.go. The password hasher and the token issuer are parameters: package auth
  wraps libraries that are not part of the repository.
\<close>

record PasswordHasher =
  pwh_Hash :: "string \<Rightarrow> string outcome"
  pwh_Compare :: "string \<Rightarrow> string \<Rightarrow> goerror option"

type_synonym TokenIssuer = "uint64 \<Rightarrow> string \<Rightarrow> string outcome"

section \<open>RegisterUser\<close>

record RegisterUserInput =
  ruin_Email :: string
  ruin_Password :: string
  ruin_FullName :: string
  ruin_Role :: string

text \<open>\<open>strings.ToLower\<close> and \<open>strings.Contains\<close>, on ASCII texts.\<close>

definition lower_char :: "char \<Rightarrow> char" where
  "lower_char c = (if 65 \<le> (of_char c :: nat) \<and> (of_char c :: nat) \<le> 90
     then char_of ((of_char c :: nat) + 32) else c)"

definition ToLower :: "string \<Rightarrow> string" where
  "ToLower s = map lower_char s"

fun contains_text :: "string \<Rightarrow> string \<Rightarrow> bool" where
  "contains_text [] sub = (sub = [])"
| "contains_text (c # s) sub = (take (length sub) (c # s) = sub \<or> contains_text s sub)"

definition isDuplicate :: "goerror \<Rightarrow> bool" where
  "isDuplicate err \<longleftrightarrow> KindOf err = KindConflict \<or>
     (let msg = ToLower (ErrorText err) in
      contains_text msg ''duplicate'' \<or> contains_text msg ''unique'' \<or> contains_text msg ''1062'')"

definition email_taken :: "goerror \<Rightarrow> goerror" where
  "email_taken cerr = WithCause (Conflict ''user.email_taken'' ''email is already registered'') cerr"

definition registerTx :: "'s RepositoryProvider \<Rightarrow> ('s \<times> User, unit) prog" where
  "registerTx rp su = (case urep_Create (rp_Users rp) su of
      (Err cerr, su') \<Rightarrow> (Err (if isDuplicate cerr then email_taken cerr else cerr), su')
    | res \<Rightarrow> res)"

definition RegisterUser_Handle ::
  "(('s RepositoryProvider \<Rightarrow> ('s \<times> User, unit) prog) \<Rightarrow> ('s \<times> User, unit) prog)
    \<Rightarrow> PasswordHasher \<Rightarrow> RegisterUserInput \<Rightarrow> ('s, User) prog" where
  "RegisterUser_Handle uow hasher inp =
     check (lift (pwh_Hash hasher (ruin_Password inp))) (\<lambda>hash.
     check (lift (NewUser (ruin_Email inp) hash (ruin_FullName inp) (ruin_Role inp))) (\<lambda>u.
     runUow uow registerTx u))"

section \<open>LoginUser\<close>

definition invalid_credentials :: goerror where
  "invalid_credentials = Unauthorized ''auth.invalid_credentials'' ''invalid email or password''"

definition LoginUser_Handle ::
  "'s RepositoryProvider \<Rightarrow> PasswordHasher \<Rightarrow> TokenIssuer \<Rightarrow> string \<Rightarrow> string
    \<Rightarrow> ('s, string \<times> User) prog" where
  "LoginUser_Handle reads hasher issue email password s =
     (case urep_FindByEmail (rp_Users reads) email s of
        (Ok u, s') \<Rightarrow>
          (case pwh_Compare hasher (usr_passwordHash u) password of
             Some _ \<Rightarrow> (Err invalid_credentials, s')
           | None \<Rightarrow> (map_outcome (\<lambda>token. (token, u)) (issue (usr_id u) (usr_role u)), s'))
      | (Err err, s') \<Rightarrow>
          (Err (if KindOf err = KindNotFound then invalid_credentials else err), s')
      | (Panic p, s') \<Rightarrow> (Panic p, s'))"

section \<open>UpdateUser\<close>

text \<open>The transaction captures \<open>updated\<close>, nil before it and on every error.\<close>

definition updateUserTx :: "uint64 \<Rightarrow> string \<Rightarrow> 's RepositoryProvider \<Rightarrow> ('s \<times> User option, unit) prog" where
  "updateUserTx i fullName rp =
     check (onStore (urep_FindByID (rp_Users rp) i)) (\<lambda>u.
       let u' = User_UpdateProfile fullName u in
       check (onStore (urep_Update (rp_Users rp) u')) (\<lambda>_.
       onVars (\<lambda>_. (Ok (), Some u'))))"

definition UpdateUser_Handle ::
  "(('s RepositoryProvider \<Rightarrow> ('s \<times> User option, unit) prog) \<Rightarrow> ('s \<times> User option, unit) prog)
    \<Rightarrow> uint64 \<Rightarrow> string \<Rightarrow> ('s, User option) prog" where
  "UpdateUser_Handle uow i fullName = runUow uow (updateUserTx i fullName) None"

section \<open>The contract of the user repository\<close>

locale user_port =
  fixes ok :: "'g \<Rightarrow> ('s \<Rightarrow> DB) \<Rightarrow> bool"
    and usrs :: "'g \<Rightarrow> 's UserRepository"
  assumes Create_user: "ok g view \<Longrightarrow> urep_Create (usrs g) (s, u) = (Ok v, (s', u'))
      \<Longrightarrow> \<exists>r. inserts userSchema (db_users (view s)) (userToModel u) r \<and>
          u' = User_AssignID (um_ID r) u \<and> view s' = put_users (db_users (view s) @ [r]) (view s)"
    and Update_user: "ok g view \<Longrightarrow> urep_Update (usrs g) u s = (Ok v, s')
      \<Longrightarrow> \<exists>rs. saves userSchema (db_users (view s)) (userToModel u) rs \<and> view s' = put_users rs (view s)"
    and Find_user: "ok g view \<Longrightarrow> urep_FindByID (usrs g) i s = (Ok u, s')
      \<Longrightarrow> \<exists>m \<in> set (db_users (view s)). um_ID m = i \<and> userToDomain m = u"
    and Find_user_email: "ok g view \<Longrightarrow> urep_FindByEmail (usrs g) email s = (Ok u, s')
      \<Longrightarrow> \<exists>m \<in> set (db_users (view s)). um_Email m = email \<and> userToDomain m = u"
    and Find_user_reads: "ok g view \<Longrightarrow> urep_FindByID (usrs g) i s = (ru, s') \<Longrightarrow> view s' = view s"
    and Find_user_email_reads: "ok g view \<Longrightarrow> urep_FindByEmail (usrs g) email s = (ru, s')
      \<Longrightarrow> view s' = view s"

lemma users_table: "gorm_ok G view \<Longrightarrow> table_ok userSchema view db_users put_users (g_users G)"
  by (simp add: gorm_ok_def)

lemma first_user:
  assumes "gorm_ok G view"
    and "check (orNotFound user_not_found (tbl_First (g_users G) P)) (\<lambda>m. return (userToDomain m)) s = (r, s')"
  shows "view s' = view s \<and> (\<forall>u. r = Ok u \<longrightarrow>
    (\<exists>m \<in> set (db_users (view s)). P m \<and> userToDomain m = u))"
proof -
  obtain rm s1 where f: "tbl_First (g_users G) P s = (rm, s1)" by force
  from table_okD(3) [OF users_table [OF assms(1)], of s P] f assms(2) show ?thesis
    by (cases rm) (auto simp: reads_only_def check_def orNotFound_def)
qed

interpretation gorm_users: user_port gorm_ok "\<lambda>G. rp_Users (NewRepositories G)"
proof (unfold_locales, goal_cases)
  case (1 g view s u v s' u')
  then obtain r where r: "tbl_Create (g_users g) (userToModel u) s = (Ok r, s')"
    "u' = User_AssignID (um_ID r) u"
    by (auto simp: userRepo_Create_def split: prod.splits outcome.splits)
  from writes_Ok [OF table_okD(1) [OF users_table [OF 1(1)]] r(1)] r(2) show ?case by auto
next
  case (2 g view u s v s')
  then have "tbl_Save (g_users g) (userToModel u) s = (Ok v, s')"
    by (simp add: userRepo_Update_def)
  from writes_Ok [OF table_okD(2) [OF users_table [OF 2(1)]] this] show ?case by auto
next
  case (3 g view i s u s')
  from first_user [OF 3(1), of "\<lambda>m. um_ID m = i" s "Ok u" s'] 3(2) show ?case
    by (simp add: userRepo_FindByID_def)
next
  case (4 g view email s u s')
  from first_user [OF 4(1), of "\<lambda>m. um_Email m = email" s "Ok u" s'] 4(2) show ?case
    by (simp add: userRepo_FindByEmail_def)
next
  case (5 g view i s ru s')
  from first_user [OF 5(1), of "\<lambda>m. um_ID m = i" s ru s'] 5(2) show ?case
    by (simp add: userRepo_FindByID_def)
next
  case (6 g view email s ru s')
  from first_user [OF 6(1), of "\<lambda>m. um_Email m = email" s ru s'] 6(2) show ?case
    by (simp add: userRepo_FindByEmail_def)
qed

section \<open>What the commands do to the tables\<close>

text \<open>A registration: one new row, whose password is what the hasher made of it.\<close>

definition user_added :: "PasswordHasher \<Rightarrow> RegisterUserInput \<Rightarrow> DB \<Rightarrow> DB \<Rightarrow> User \<Rightarrow> bool" where
  "user_added hasher inp d d' u \<longleftrightarrow> ruin_Email inp \<notin> um_Email ` set (db_users d) \<and> db_ok d' \<and>
     usr_id u \<notin> um_ID ` set (db_users d) \<and> usr_id u \<noteq> 0 \<and> usr_email u = ruin_Email inp \<and>
     usr_fullName u = ruin_FullName inp \<and> Role_Valid (usr_role u) \<and>
     usr_role u = (if ruin_Role inp = '''' then RoleCustomer else ruin_Role inp) \<and>
     pwh_Hash hasher (ruin_Password inp) = Ok (usr_passwordHash u) \<and>
     (\<exists>m. d' = d\<lparr>db_users := db_users d @ [m]\<rparr> \<and>
        userToDomain m = u\<lparr>pending := [], usr_createdAt := um_CreatedAt m\<rparr>)"

locale registering_ports =
  transacting ok rp uok uow + user_port ok "\<lambda>g. rp_Users (rp g)"
  for ok :: "'g \<Rightarrow> ('s \<Rightarrow> DB) \<Rightarrow> bool" and rp :: "'g \<Rightarrow> 's RepositoryProvider"
    and uok :: "'c \<Rightarrow> ('s \<Rightarrow> DB) \<Rightarrow> bool"
    and uow :: "'c \<Rightarrow> ('s RepositoryProvider \<Rightarrow> ('s \<times> User, unit) prog) \<Rightarrow> ('s \<times> User, unit) prog"
begin

lemma Register_cases:
  assumes "uok c view" and "RegisterUser_Handle (uow c) hasher inp s = (res, s')" and "db_ok (view s)"
  obtains (registered) u where "res = Ok u" and "user_added hasher inp (view s) (view s') u"
  | (refused) "\<not> is_Ok res" and "view s' = view s"
proof (cases "\<exists>hash u. pwh_Hash hasher (ruin_Password inp) = Ok hash \<and>
    NewUser (ruin_Email inp) hash (ruin_FullName inp) (ruin_Role inp) = Ok u")
  case True
  then obtain hash u where ok: "pwh_Hash hasher (ruin_Password inp) = Ok hash"
    "NewUser (ruin_Email inp) hash (ruin_FullName inp) (ruin_Role inp) = Ok u" by blast
  with assms(2) have run: "runUow (uow c) registerTx u s = (res, s')"
    by (simp add: RegisterUser_Handle_def)
  from assms(1) run show ?thesis
  proof (cases rule: runUow_cases)
    case (committed g s0 s1 u')
    then have cr: "urep_Create (rp_Users (rp g)) (s0, u) = (Ok (), (s1, u'))"
      by (auto simp: registerTx_def split: prod.splits outcome.splits)
    from Create_user [OF committed(1) cr] committed(2,5) obtain r where
      r: "inserts userSchema (db_users (view s)) (userToModel u) r" "u' = User_AssignID (um_ID r) u"
        "view s' = put_users (db_users (view s) @ [r]) (view s)" by auto
    from ok(2) have u: "u = \<lparr>pending = [UserRegistered 0 (ruin_Email inp)], usr_id = 0,
        usr_email = ruin_Email inp, usr_passwordHash = hash, usr_fullName = ruin_FullName inp,
        usr_role = (if ruin_Role inp = '''' then RoleCustomer else ruin_Role inp), usr_createdAt = 0\<rparr>"
      and role: "Role_Valid (usr_role u)"
      by (auto simp: NewUser_def Let_def Record_def Role_Valid_def split: if_splits)
    have role_ne: "usr_role u \<noteq> ''''" using role by (auto simp: Role_Valid_def)
    have row: "r = (userToModel u)\<lparr>um_ID := um_ID r, um_CreatedAt := um_CreatedAt r,
        um_Role := filled_string ''customer'' (um_Role (userToModel u))\<rparr>"
      and new: "\<forall>x \<in> set (db_users (view s)). um_ID r \<noteq> um_ID x \<and> um_Email x \<noteq> um_Email r"
      and id0: "um_ID r \<noteq> 0"
      using r(1) by (auto simp: inserts_def userSchema_def)
    have reread: "userToDomain r = u'\<lparr>pending := [], usr_createdAt := um_CreatedAt r\<rparr>"
      using role_ne by (subst row) (simp add: r(2) u userToDomain_def ReconstituteUser_def
          userToModel_def User_AssignID_def filled_string_def split: if_splits)
    have email: "um_Email r = ruin_Email inp" by (subst row) (simp add: userToModel_def u)
    have "db_ok (view s')"
      using assms(3) inserts_keys_ok [OF r(1)] by (simp add: db_ok_def r(3))
    then have "user_added hasher inp (view s) (view s') u'"
      unfolding user_added_def using new id0 email reread r(2,3) u role ok(1)
      by (auto simp: User_AssignID_def image_iff)
    with committed(4) registered show ?thesis by blast
  qed (rule refused)
next
  case False
  with assms(2) have "\<not> is_Ok res \<and> s' = s"
    by (auto simp: RegisterUser_Handle_def check_def split: outcome.splits) (metis is_Ok.simps(2,3))+
  with refused show ?thesis by simp
qed

end

interpretation registering: registering_ports gorm_ok NewRepositories uow_ok unitOfWork_Do
  by unfold_locales

text \<open>
  A profile update: \<open>Save\<close> writes every column of the row, and the model it is given has no
  creation time.
\<close>

definition renamed_row :: "string \<Rightarrow> UserModel \<Rightarrow> UserModel" where
  "renamed_row fullName m = m\<lparr>um_FullName := fullName, um_CreatedAt := 0\<rparr>"

locale profile_ports =
  transacting ok rp uok uow + user_port ok "\<lambda>g. rp_Users (rp g)"
  for ok :: "'g \<Rightarrow> ('s \<Rightarrow> DB) \<Rightarrow> bool" and rp :: "'g \<Rightarrow> 's RepositoryProvider"
    and uok :: "'c \<Rightarrow> ('s \<Rightarrow> DB) \<Rightarrow> bool"
    and uow :: "'c \<Rightarrow> ('s RepositoryProvider \<Rightarrow> ('s \<times> User option, unit) prog)
      \<Rightarrow> ('s \<times> User option, unit) prog"
begin

lemma Profile_cases:
  assumes "uok c view" and "UpdateUser_Handle (uow c) i fullName s = (res, s')" and "db_ok (view s)"
  obtains (updated) m where "m \<in> set (db_users (view s))" and "um_ID m = i"
      and "res = Ok (Some (User_UpdateProfile fullName (userToDomain m)))"
      and "view s' = (view s)\<lparr>db_users := map (\<lambda>x. if um_ID x = i then renamed_row fullName x else x)
             (db_users (view s))\<rparr>"
  | (refused) "\<not> is_Ok res" and "view s' = view s"
proof -
  from assms(1) assms(2) [unfolded UpdateUser_Handle_def] show ?thesis
  proof (cases rule: runUow_cases)
    case (committed g s0 s1 h')
    then obtain u s2 where
      f: "urep_FindByID (rp_Users (rp g)) i s0 = (Ok u, s2)" and
      upd: "urep_Update (rp_Users (rp g)) (User_UpdateProfile fullName u) s2 = (Ok (), s1)" and
      h': "h' = Some (User_UpdateProfile fullName u)"
      by (auto simp: updateUserTx_def Let_def check_Ok_iff onStore_iff onVars_iff
          simp del: onStore_apply onVars_apply)
    from Find_user [OF committed(1) f] committed(2) obtain m where
      m: "m \<in> set (db_users (view s))" "um_ID m = i" "userToDomain m = u" by auto
    have v2: "view s2 = view s" using Find_user_reads [OF committed(1) f] committed(2) by simp
    have keys: "keys_ok userSchema (db_users (view s))" using assms(3) by (simp add: db_ok_def)
    have row: "userToModel (User_UpdateProfile fullName u) = renamed_row fullName m"
      using m(3) by (auto simp: userToModel_def User_UpdateProfile_def userToDomain_def
          ReconstituteUser_def renamed_row_def)
    have ids: "sc_id userSchema = um_ID" "um_ID (renamed_row fullName m) = um_ID m"
      by (simp_all add: userSchema_def renamed_row_def)
    have "um_ID m \<noteq> 0" using keys_ok_id_nonzero [OF keys m(1)] by (simp add: ids)
    then have v': "view s' =
        put_users (replace_row userSchema (renamed_row fullName m) (db_users (view s))) (view s)"
      using Update_user [OF committed(1) upd] committed(5)
        saves_existing [OF _ m(1), of userSchema "renamed_row fullName m"]
      by (auto simp: v2 row ids)
    have "x = m" if "x \<in> set (db_users (view s))" "um_ID x = i" for x
      using that m(1,2) keys_ok_distinct_id [OF keys] by (auto simp: ids(1) distinct_map inj_on_def)
    then have "replace_row userSchema (renamed_row fullName m) (db_users (view s)) =
        map (\<lambda>x. if um_ID x = i then renamed_row fullName x else x) (db_users (view s))"
      using m(2) ids by (auto simp: replace_row_def)
    with v' committed(4) h' m updated show ?thesis by auto
  qed (rule refused)
qed

end

interpretation profile: profile_ports gorm_ok NewRepositories uow_ok unitOfWork_Do
  by unfold_locales

end
