(* ===== verification/Backoffice_Props.thy ===== *)
theory Backoffice_Props
  imports Catalogue Accounts MemDB "HOL-Library.Sublist"
begin

text \<open>The properties of the catalogue's and the accounts' commands.\<close>

section \<open>The catalogue\<close>

text \<open>C29: creating a product adds its row and its stock record together or neither: with a new id
  and an unused SKU, at the price given, active, with the initial stock available and nothing
  reserved. A call that returns an error changes no table.\<close>

theorem create_product_effect:
  assumes "uow_ok u view" and "db_ok (view s)"
    and "CreateProduct_Handle (unitOfWork_Do u) now inp s = (res, s')"
  shows "case res of
      Ok p \<Rightarrow> product_added inp (view s) (view s') p \<and> db_ok (view s') \<and>
        (\<forall>pid. stock (view s') pid = (if pid = prod_id p then Some (sint (cpin_InitialStock inp), 0)
           else stock (view s) pid))
    | _ \<Rightarrow> view s' = view s"
  using assms(1,3,2)
proof (cases rule: creating.Create_cases)
  case (created p)
  from created(2) obtain m i where d': "view s' = (view s)\<lparr>db_products := db_products (view s) @ [m],
      db_inventories := db_inventories (view s) @ [i]\<rparr>" and
    i: "im_ProductID i = prod_id p" "im_Available i = cpin_InitialStock inp" "im_Reserved i = 0"
    by (auto simp: product_added_def)
  have "keys_ok inventorySchema (db_inventories (view s) @ [i])"
    using created(3) by (simp add: db_ok_def d')
  then have "find (\<lambda>m. im_ProductID m = prod_id p) (db_inventories (view s)) = None"
    using i(1) by (auto simp: keys_ok_append inventorySchema_def find_None_iff)
  then have "stock (view s') pid = (if pid = prod_id p then Some (sint (cpin_InitialStock inp), 0)
      else stock (view s) pid)" for pid
    using i by (auto simp: stock_def inv_row_def d' find_append split: option.splits)
  with created show ?thesis by simp
next
  case refused
  then show ?thesis by (cases res) auto
qed

definition demo_create :: CreateProductInput where
  "demo_create = \<lparr>cpin_SKU = ''MS'', cpin_Name = ''Mouse'', cpin_Description = ''wireless'',
     cpin_PriceAmount = 100, cpin_Currency = ''EUR'', cpin_InitialStock = 9, cpin_ReorderLevel = 2\<rparr>"

definition empty_db :: DB where
  "empty_db = \<lparr>db_users = [], db_products = [], db_inventories = [], db_orders = [],
     db_payments = [], db_notifications = [], db_audit_logs = []\<rparr>"

lemma empty_db_ok: "db_ok empty_db"
  by (simp add: db_ok_def empty_db_def)

lemma mem_uow_ok: "uow_ok (memGorm, memTransaction) id"
  by (simp add: uow_ok_def memGorm_ok memTransaction_ok)

lemmas command_eval = mem_eval unitOfWork_Do_def runUow_def Let_def

theorem create_product_effect_witness:
  "\<exists>p. fst (CreateProduct_Handle (unitOfWork_Do (memGorm, memTransaction)) 50 demo_create empty_db) = Ok p \<and>
     stock (snd (CreateProduct_Handle (unitOfWork_Do (memGorm, memTransaction)) 50 demo_create empty_db))
       (prod_id p) = Some (9, 0)"
proof -
  obtain res d' where run: "CreateProduct_Handle (unitOfWork_Do (memGorm, memTransaction)) 50 demo_create
      empty_db = (res, d')" by force
  have "is_Ok (fst (CreateProduct_Handle (unitOfWork_Do (memGorm, memTransaction)) 50 demo_create empty_db))"
    by (simp add: CreateProduct_Handle_def createProductTx_def NewMoney_def NewProduct_def NewInventory_def
        command_eval demo_create_def empty_db_def productRepo_Create_def inventoryRepo_Save_def
        productToModel_def inventoryToModel_def Product_AssignID_def Record_def word_sless_alt word_sle_eq)
  with create_product_effect [OF mem_uow_ok, of empty_db 50 demo_create res d'] run empty_db_ok
  show ?thesis by (auto simp: demo_create_def is_Ok_iff)
qed

text \<open>Updating a product rewrites that product's row only: its name, price and activity where
  the input has them (an empty name and an invalid price are refused, and then no table changes);
  the currency counts only beside a price, and the description of the input is never stored.\<close>

theorem update_product_effect:
  assumes "uow_ok u view" and "db_ok (view s)"
    and "UpdateProduct_Handle (unitOfWork_Do u) i inp s = (res, s')"
  shows "case res of
      Ok p \<Rightarrow> p \<noteq> None \<and> (\<exists>m \<in> set (db_products (view s)). pm_ID m = i) \<and>
        view s' = (view s)\<lparr>db_products := map (\<lambda>x. if pm_ID x = i then x\<lparr>
          pm_Name := (case upin_Name inp of Some name \<Rightarrow> name | None \<Rightarrow> pm_Name x),
          pm_PriceAmount := (case upin_PriceAmount inp of Some a \<Rightarrow> a | None \<Rightarrow> pm_PriceAmount x),
          pm_Currency := (case (upin_PriceAmount inp, upin_Currency inp) of
             (Some _, Some c) \<Rightarrow> c | _ \<Rightarrow> pm_Currency x),
          pm_Active := (case upin_Active inp of Some b \<Rightarrow> b | None \<Rightarrow> pm_Active x)\<rparr> else x)
          (db_products (view s))\<rparr> \<and>
        prod_description (the p) = pm_Description (the (find (\<lambda>m. pm_ID m = i) (db_products (view s))))
    | _ \<Rightarrow> view s' = view s"
  using assms(1,3,2)
proof (cases rule: revising.Revise_cases)
  case (revised p)
  from revised(2) obtain m where m: "m \<in> set (db_products (view s))" "pm_ID m = i"
    "productToModel p = revised_row inp m" by (auto simp: product_revised_def)
  have "keys_ok productSchema (db_products (view s))" using assms(2) by (simp add: db_ok_def)
  from keys_ok_distinct_id [OF this] have d: "distinct (map pm_ID (db_products (view s)))"
    by (simp add: productSchema_def)
  obtain m' where m': "find (\<lambda>m. pm_ID m = i) (db_products (view s)) = Some m'"
    using m by (cases "find (\<lambda>m. pm_ID m = i) (db_products (view s))") (auto simp: find_None_iff)
  then have "m' = m" using m d find_SomeD [OF m'] by (auto simp: distinct_map inj_on_def)
  moreover have "prod_description p = pm_Description m"
    using arg_cong [OF m(3), of pm_Description] by (simp add: productToModel_def revised_row_def)
  ultimately show ?thesis
    using revised m m' by (auto simp: product_revised_def revised_row_def)
next
  case refused
  then show ?thesis by (cases res) auto
qed

section \<open>Accounts\<close>

text \<open>C30: a registration that succeeds adds one user with an email no user has, a valid role (the
  one asked for, or customer) and the hash of the password; one that fails changes no table.\<close>

theorem register_user_effect:
  assumes "uow_ok u view" and "db_ok (view s)"
    and "RegisterUser_Handle (unitOfWork_Do u) hasher inp s = (res, s')"
  shows "case res of Ok usr \<Rightarrow> user_added hasher inp (view s) (view s') usr | _ \<Rightarrow> view s' = view s"
  using assms(1,3,2)
proof (cases rule: registering.Register_cases)
  case refused
  then show ?thesis by (cases res) auto
qed simp

text \<open>What the login relies on of the hasher: a hash compares with the password it was made of.\<close>

definition hasher_ok :: "PasswordHasher \<Rightarrow> bool" where
  "hasher_ok h \<longleftrightarrow> (\<forall>p hash. pwh_Hash h p = Ok hash \<longrightarrow> pwh_Compare h hash p = None)"

text \<open>C31: a user who registered logs in with that password, on tables nobody changed since, and
  gets a token issued for their id and role; any other password that does not compare is refused
  with invalid credentials. (The lookup must not fail for the database's own reasons.)\<close>

theorem register_then_login:
  assumes "uow_ok u view" and "gorm_ok G view" and "hasher_ok hasher" and "db_ok (view s)"
    and "RegisterUser_Handle (unitOfWork_Do u) hasher inp s = (Ok usr, s1)"
    and "is_Ok (fst (userRepo_FindByEmail G (ruin_Email inp) s1))"
    and "LoginUser_Handle (NewRepositories G) hasher issue (ruin_Email inp) password s1 = (res, s2)"
  shows "(password = ruin_Password inp \<longrightarrow> (case issue (usr_id usr) (usr_role usr) of
        Ok token \<Rightarrow> \<exists>t. res = Ok (token, usr\<lparr>pending := [], usr_createdAt := t\<rparr>)
      | r \<Rightarrow> \<not> is_Ok res)) \<and>
    (pwh_Compare hasher (usr_passwordHash usr) password \<noteq> None \<longrightarrow> res = Err invalid_credentials) \<and>
    view s2 = view s1"
proof -
  from assms(1,5,4) have added: "user_added hasher inp (view s) (view s1) usr"
    by (cases rule: registering.Register_cases) auto
  then obtain m where m: "db_users (view s1) = db_users (view s) @ [m]"
    "userToDomain m = usr\<lparr>pending := [], usr_createdAt := um_CreatedAt m\<rparr>" and
    hash: "pwh_Hash hasher (ruin_Password inp) = Ok (usr_passwordHash usr)" and
    db1: "db_ok (view s1)" and email: "usr_email usr = ruin_Email inp"
    by (auto simp: user_added_def)
  obtain found s2' where f: "userRepo_FindByEmail G (ruin_Email inp) s1 = (Ok found, s2')"
    using assms(6) by (metis is_Ok_iff prod.collapse)
  from gorm_users.Find_user_email [OF assms(2), of "ruin_Email inp" s1 found s2'] f obtain m' where
    m': "m' \<in> set (db_users (view s1))" "um_Email m' = ruin_Email inp" "userToDomain m' = found" by auto
  from gorm_users.Find_user_email_reads [OF assms(2), of "ruin_Email inp" s1 "Ok found" s2'] f
  have v2: "view s2' = view s1" by simp
  have "um_Email m = ruin_Email inp"
    using arg_cong [OF m(2), of usr_email] email by (simp add: userToDomain_def ReconstituteUser_def)
  with m' m(1) db_ok_columns(6) [OF db1] have "m' = m" by (auto simp: image_iff)
  with m' m(2) have found: "found = usr\<lparr>pending := [], usr_createdAt := um_CreatedAt m\<rparr>" by simp
  have "pwh_Compare hasher (usr_passwordHash usr) (ruin_Password inp) = None"
    using assms(3) hash by (auto simp: hasher_ok_def)
  with assms(7) f found v2 show ?thesis
    by (auto simp: LoginUser_Handle_def split: option.splits outcome.splits)
qed

definition demo_hasher :: PasswordHasher where
  "demo_hasher = \<lparr>pwh_Hash = (\<lambda>p. Ok (''h'' @ p)),
     pwh_Compare = (\<lambda>h p. if h = ''h'' @ p then None else Some (Plain ''mismatch''))\<rparr>"

definition demo_register :: RegisterUserInput where
  "demo_register = \<lparr>ruin_Email = ''a@b.c'', ruin_Password = ''pw'', ruin_FullName = ''Ann'', ruin_Role = ''''\<rparr>"

lemma demo_hasher_ok: "hasher_ok demo_hasher"
  by (simp add: hasher_ok_def demo_hasher_def)

definition registered_row :: UserModel where
  "registered_row = \<lparr>um_ID = 1, um_Email = ''a@b.c'', um_PasswordHash = ''hpw'', um_FullName = ''Ann'',
     um_Role = ''customer'', um_CreatedAt = 0\<rparr>"

lemma run_register:
  "RegisterUser_Handle (unitOfWork_Do (memGorm, memTransaction)) demo_hasher demo_register empty_db =
     (Ok ((userToDomain registered_row)\<lparr>pending := [UserRegistered 0 ''a@b.c'']\<rparr>),
      empty_db\<lparr>db_users := [registered_row]\<rparr>)"
  by (simp add: RegisterUser_Handle_def registerTx_def NewUser_def demo_register_def demo_hasher_def
      command_eval empty_db_def userRepo_Create_def userToModel_def User_AssignID_def Record_def
      RoleCustomer_def registered_row_def userToDomain_def ReconstituteUser_def)

theorem register_user_effect_witness:
  "\<exists>u. user_added demo_hasher demo_register empty_db (empty_db\<lparr>db_users := [registered_row]\<rparr>) u \<and>
     usr_role u = RoleCustomer"
  using register_user_effect [OF mem_uow_ok _ run_register] empty_db_ok
  by (auto simp: user_added_def demo_register_def)

theorem register_then_login_witness:
  "fst (LoginUser_Handle (NewRepositories memGorm) demo_hasher (\<lambda>i r. Ok (''token '' @ r)) ''a@b.c'' ''no''
     (empty_db\<lparr>db_users := [registered_row]\<rparr>)) = Err invalid_credentials \<and>
   (\<exists>usr. fst (LoginUser_Handle (NewRepositories memGorm) demo_hasher (\<lambda>i r. Ok (''token '' @ r)) ''a@b.c'' ''pw''
     (empty_db\<lparr>db_users := [registered_row]\<rparr>)) = Ok (''token customer'', usr))"
proof -
  let ?d = "empty_db\<lparr>db_users := [registered_row]\<rparr>"
  let ?issue = "\<lambda>(i :: uint64) r. Ok (''token '' @ r)"
  let ?login = "\<lambda>p. LoginUser_Handle (NewRepositories memGorm) demo_hasher ?issue (ruin_Email demo_register) p ?d"
  have find: "is_Ok (fst (userRepo_FindByEmail memGorm (ruin_Email demo_register) ?d))"
    by (simp add: userRepo_FindByEmail_def command_eval registered_row_def empty_db_def demo_register_def)
  have d: "db_ok (id empty_db)" using empty_db_ok by simp
  note login = register_then_login [OF mem_uow_ok memGorm_ok demo_hasher_ok d run_register find]
  have no: "fst (?login ''no'') = Err invalid_credentials"
    using login [of ?issue "''no''" "fst (?login ''no'')" "snd (?login ''no'')"]
    by (simp add: demo_hasher_def registered_row_def userToDomain_def ReconstituteUser_def)
  have "\<exists>usr. fst (?login ''pw'') = Ok (''token customer'', usr)"
    using login [of ?issue "''pw''" "fst (?login ''pw'')" "snd (?login ''pw'')"]
    by (auto simp: demo_register_def registered_row_def userToDomain_def ReconstituteUser_def)
  with no show ?thesis by (simp add: demo_register_def)
qed

text \<open>A login never tells whether an email is registered: an unknown email and a wrong password
  are answered with the same error, and neither issues a token.\<close>

theorem login_no_enumeration:
  assumes "gorm_ok G view" and "db_ok (view s)"
    and "LoginUser_Handle (NewRepositories G) hasher issue email password s = (res, s')"
    and "is_Ok (fst (userRepo_FindByEmail G email s)) \<or>
         fst (userRepo_FindByEmail G email s) = Err user_not_found"
    and "email \<notin> um_Email ` set (db_users (view s)) \<or>
         (\<forall>m \<in> set (db_users (view s)). um_Email m = email \<longrightarrow>
            pwh_Compare hasher (um_PasswordHash m) password \<noteq> None)"
  shows "res = Err invalid_credentials \<and> KindOf invalid_credentials = KindUnauthorized"
proof -
  obtain fr s1 where f: "userRepo_FindByEmail G email s = (fr, s1)" by force
  from gorm_users.Find_user_email [OF assms(1), of email s _ s1] have
    "\<exists>m \<in> set (db_users (view s)). um_Email m = email \<and> userToDomain m = u" if "fr = Ok u" for u
    using f that by simp
  with assms(3,4,5) f show ?thesis
    by (cases fr) (force simp: LoginUser_Handle_def invalid_credentials_def user_not_found_def
        userToDomain_def ReconstituteUser_def image_iff split: option.splits)+
qed

theorem login_no_enumeration_witness:
  "fst (LoginUser_Handle (NewRepositories memGorm) demo_hasher issue ''x@y'' ''pw'' empty_db)
     = Err invalid_credentials"
proof -
  obtain res d' where run: "LoginUser_Handle (NewRepositories memGorm) demo_hasher issue ''x@y'' ''pw'' empty_db
      = (res, d')" by force
  have d: "db_ok (id empty_db)" using empty_db_ok by simp
  have f: "is_Ok (fst (userRepo_FindByEmail memGorm ''x@y'' empty_db)) \<or>
      fst (userRepo_FindByEmail memGorm ''x@y'' empty_db) = Err user_not_found"
    by (simp add: userRepo_FindByEmail_def command_eval empty_db_def orNotFound_def check_def
        ErrRecordNotFound_def)
  have "''x@y'' \<notin> um_Email ` set (db_users (id empty_db)) \<or>
      (\<forall>m \<in> set (db_users (id empty_db)). um_Email m = ''x@y'' \<longrightarrow>
         pwh_Compare demo_hasher (um_PasswordHash m) ''pw'' \<noteq> None)" by (simp add: empty_db_def)
  from login_no_enumeration [OF memGorm_ok d run f this] run show ?thesis by simp
qed

section \<open>Further witnesses and properties\<close>

definition shelf_db :: DB where
  "shelf_db = empty_db\<lparr>db_products := [\<lparr>pm_ID = 7, pm_SKU = ''KB'', pm_Name = ''Keyboard'',
     pm_Description = ''old'', pm_PriceAmount = 250, pm_Currency = ''USD'', pm_Active = True,
     pm_CreatedAt = 5\<rparr>]\<rparr>"

definition demo_revision :: UpdateProductInput where
  "demo_revision = \<lparr>upin_Name = Some ''Board'', upin_Description = Some ''new'',
     upin_PriceAmount = None, upin_Currency = Some ''EUR'', upin_Active = Some False\<rparr>"

theorem update_product_effect_witness:
  "map pm_Name (db_products (snd (UpdateProduct_Handle (unitOfWork_Do (memGorm, memTransaction)) 7
     demo_revision shelf_db))) = [''Board''] \<and>
   map pm_Description (db_products (snd (UpdateProduct_Handle (unitOfWork_Do (memGorm, memTransaction)) 7
     demo_revision shelf_db))) = [''old'']"
proof -
  obtain res d' where run: "UpdateProduct_Handle (unitOfWork_Do (memGorm, memTransaction)) 7
      demo_revision shelf_db = (res, d')" by force
  have "is_Ok (fst (UpdateProduct_Handle (unitOfWork_Do (memGorm, memTransaction)) 7 demo_revision shelf_db))"
    by (simp add: UpdateProduct_Handle_def updateProductTx_def reviseProduct_def renameStep_def
        repriceStep_def activeStep_def Product_Rename_def Product_Deactivate_def command_eval
        demo_revision_def shelf_db_def empty_db_def productRepo_FindByID_def productRepo_Update_def
        productToDomain_def productToModel_def MustMoney_def NewMoney_def ReconstituteProduct_def
        word_sless_alt)
  moreover have "db_ok (id shelf_db)"
    by (simp add: shelf_db_def empty_db_def db_ok_def productSchema_def)
  ultimately show ?thesis
    using update_product_effect [OF mem_uow_ok, of shelf_db 7 demo_revision res d'] run
    by (auto simp: is_Ok_iff shelf_db_def demo_revision_def)
qed

lemma contains_text_iff: "contains_text s sub \<longleftrightarrow> (\<exists>a b. s = a @ sub @ b)"
proof (induction s)
  case Nil
  then show ?case by auto
next
  case (Cons c s)
  have "take (length sub) (c # s) = sub \<longleftrightarrow> (\<exists>b. c # s = sub @ b)"
    by (metis append_eq_conv_conj append_take_drop_id)
  moreover have "(\<exists>a b. c # s = a @ sub @ b) \<longleftrightarrow> (\<exists>b. c # s = sub @ b) \<or> (\<exists>a b. s = a @ sub @ b)"
    by (metis append_Cons append_Nil list.exhaust list.inject)
  ultimately show ?case using Cons by simp
qed

lemma isDuplicate_iff:
  "isDuplicate err \<longleftrightarrow> KindOf err = KindConflict \<or> (\<exists>x \<in> {''duplicate'', ''unique'', ''1062''}.
     sublist x (map lower_char (ErrorText err)))"
  by (simp only: isDuplicate_def contains_text_iff sublist_def ToLower_def Let_def) blast

text \<open>A registration whose insert the database refuses as a duplicate (a conflict, or a text
  that says duplicate, unique or 1062, in whatever case) answers with a conflict that keeps the
  database's error as its cause; any other error of the insert is passed on as it is.\<close>

theorem register_conflict:
  assumes "urep_Create (rp_Users R) (s, u) = (Err cerr, su')"
    and "registerTx R (s, u) = (res, su2)"
  shows "if KindOf cerr = KindConflict \<or> (\<exists>x \<in> {''duplicate'', ''unique'', ''1062''}.
        sublist x (map lower_char (ErrorText cerr)))
      then (\<exists>e. res = Err e \<and> KindOf e = KindConflict \<and> Unwrap e = Some cerr)
      else res = Err cerr"
  using assms
  unfolding isDuplicate_iff [symmetric]
  by (auto simp: registerTx_def email_taken_def Conflict_def NewError_def)

theorem register_conflict_witness:
  "\<exists>e. fst (registerTx (NewRepositories memGorm) (empty_db\<lparr>db_users := [registered_row]\<rparr>,
      userToDomain (registered_row\<lparr>um_ID := 0\<rparr>))) = Err e \<and> KindOf e = KindConflict"
proof -
  let ?d = "empty_db\<lparr>db_users := [registered_row]\<rparr>"
  let ?u = "userToDomain (registered_row\<lparr>um_ID := 0\<rparr>)"
  have c: "urep_Create (rp_Users (NewRepositories memGorm)) (?d, ?u) = (Err duplicate_key, (?d, ?u))"
    by (simp add: command_eval userRepo_Create_def userToModel_def userToDomain_def ReconstituteUser_def
        registered_row_def empty_db_def)
  obtain res su2 where run: "registerTx (NewRepositories memGorm) (?d, ?u) = (res, su2)" by (meson surj_pair)
  have "sublist ''duplicate'' (map lower_char (ErrorText duplicate_key))"
    unfolding sublist_def
    by (rule exI [of _ "[]"], rule exI [of _ "'' key value violates unique constraint''"])
      (simp add: duplicate_key_def lower_char_def)
  with register_conflict [OF c run] run show ?thesis by auto
qed

text \<open>Updating a profile succeeds only for a user that exists; it rewrites that user's full name
  and nothing else of the account - except the creation time, which the update resets.\<close>

theorem update_user_effect:
  assumes "uow_ok u view" and "db_ok (view s)"
    and "UpdateUser_Handle (unitOfWork_Do u) i fullName s = (res, s')"
  shows "case res of
      Ok ou \<Rightarrow> (\<exists>m \<in> set (db_users (view s)). um_ID m = i \<and>
          ou = Some (User_UpdateProfile fullName (userToDomain m))) \<and>
        view s' = (view s)\<lparr>db_users := map (\<lambda>x. if um_ID x = i
          then x\<lparr>um_FullName := fullName, um_CreatedAt := 0\<rparr> else x) (db_users (view s))\<rparr>
    | _ \<Rightarrow> view s' = view s"
  using assms(1,3,2)
proof (cases rule: profile.Profile_cases)
  case (updated m)
  then show ?thesis by (auto simp: renamed_row_def)
next
  case refused
  then show ?thesis by (cases res) auto
qed

theorem update_user_effect_witness:
  "db_users (snd (UpdateUser_Handle (unitOfWork_Do (memGorm, memTransaction)) 1 ''Bob''
     (empty_db\<lparr>db_users := [registered_row\<lparr>um_CreatedAt := 77\<rparr>]\<rparr>)))
   = [registered_row\<lparr>um_FullName := ''Bob'', um_CreatedAt := 0\<rparr>]"
proof -
  let ?d = "empty_db\<lparr>db_users := [registered_row\<lparr>um_CreatedAt := 77\<rparr>]\<rparr>"
  obtain res d' where run: "UpdateUser_Handle (unitOfWork_Do (memGorm, memTransaction)) 1 ''Bob'' ?d
      = (res, d')" by force
  have "is_Ok (fst (UpdateUser_Handle (unitOfWork_Do (memGorm, memTransaction)) 1 ''Bob'' ?d))"
    by (simp add: UpdateUser_Handle_def updateUserTx_def command_eval userRepo_FindByID_def
        userRepo_Update_def userToModel_def userToDomain_def ReconstituteUser_def User_UpdateProfile_def
        registered_row_def empty_db_def)
  moreover have "db_ok (id ?d)"
    by (simp add: empty_db_def db_ok_def userSchema_def registered_row_def)
  ultimately show ?thesis
    using update_user_effect [OF mem_uow_ok, of ?d 1 "''Bob''" res d'] run
    by (auto simp: is_Ok_iff registered_row_def)
qed

end
