(* ===== verification/Queries.thy ===== *)
theory Queries
  imports UnitOfWork
begin

text \<open>
  Package internal/application/query: the read side. Most queries pass a call on; the daily
  report pages through all orders and adds them up.
\<close>

definition GetOrder_Handle :: "'s RepositoryProvider \<Rightarrow> uint64 \<Rightarrow> ('s, Order) prog" where
  "GetOrder_Handle reads orderID = orep_FindByID (rp_Orders reads) orderID"

definition ListUserOrders_Handle ::
  "'s RepositoryProvider \<Rightarrow> uint64 \<Rightarrow> Page \<Rightarrow> ('s, Order list \<times> int64) prog" where
  "ListUserOrders_Handle reads userID page = orep_ListByUser (rp_Orders reads) userID page"

definition ListAllOrders_Handle :: "'s RepositoryProvider \<Rightarrow> Page \<Rightarrow> ('s, Order list \<times> int64) prog" where
  "ListAllOrders_Handle reads page = orep_ListAll (rp_Orders reads) page"

definition OrderStatus_Handle :: "'s RepositoryProvider \<Rightarrow> uint64 \<Rightarrow> ('s, OrderStatus) prog" where
  "OrderStatus_Handle reads orderID =
     check (orep_FindByID (rp_Orders reads) orderID) (\<lambda>ord. return (ord_status ord))"

definition GetProduct_Handle :: "'s RepositoryProvider \<Rightarrow> uint64 \<Rightarrow> ('s, Product) prog" where
  "GetProduct_Handle reads i = drep_FindByID (rp_Products reads) i"

definition ListProducts_Handle :: "'s RepositoryProvider \<Rightarrow> Page \<Rightarrow> ('s, Product list \<times> int64) prog" where
  "ListProducts_Handle reads page = drep_List (rp_Products reads) page"

definition GetInventory_Handle :: "'s RepositoryProvider \<Rightarrow> uint64 \<Rightarrow> ('s, Inventory) prog" where
  "GetInventory_Handle reads productID = irep_FindByProductID (rp_Inventory reads) productID"

definition LowStock_Handle :: "'s RepositoryProvider \<Rightarrow> ('s, Inventory list) prog" where
  "LowStock_Handle reads = irep_ListLowStock (rp_Inventory reads)"

definition GetUser_Handle :: "'s RepositoryProvider \<Rightarrow> uint64 \<Rightarrow> ('s, User) prog" where
  "GetUser_Handle reads i = urep_FindByID (rp_Users reads) i"

section \<open>The daily report\<close>

record DailyReportResult =
  drr_Date :: string
  drr_TotalOrders :: goint
  drr_TotalRevenue :: int64
  drr_Currency :: string
  drr_ByStatus :: "OrderStatus \<rightharpoonup> goint"

record 's DailyReport =
  dr_reads :: "'s RepositoryProvider"
  dr_pageSize :: goint
  dr_maxOrders :: goint

definition NewDailyReport :: "'s RepositoryProvider \<Rightarrow> 's DailyReport" where
  "NewDailyReport reads = \<lparr>dr_reads = reads, dr_pageSize = 200, dr_maxOrders = 2000\<rparr>"

text \<open>
  The loop of \<open>collect\<close> at a page, with the orders collected so far. \<open>None\<close> would be a loop
  that never ends.
\<close>

partial_function (option) collect_from ::
  "'s DailyReport \<Rightarrow> goint \<Rightarrow> Order list \<Rightarrow> 's \<Rightarrow> (Order list outcome \<times> 's) option"
where
  "collect_from q page collected s =
     (if int (length collected) < sint (dr_maxOrders q) then
        (case orep_ListAll (rp_Orders (dr_reads q)) \<lparr>pg_Number = page, pg_Size = dr_pageSize q\<rparr> s of
          (Ok (batch, tot), s') \<Rightarrow>
            (let collected' = collected @ batch in
             if int (length batch) < sint (dr_pageSize q) \<or> sint tot \<le> int (length collected')
             then Some (Ok collected', s')
             else collect_from q (page + 1) collected' s')
        | (Err e, s') \<Rightarrow> Some (Err e, s')
        | (Panic p, s') \<Rightarrow> Some (Panic p, s'))
      else Some (Ok collected, s))"

definition DailyReport_collect :: "'s DailyReport \<Rightarrow> 's \<Rightarrow> (Order list outcome \<times> 's) option" where
  "DailyReport_collect q = collect_from q 1 []"

text \<open>The three goroutines of the group write to variables of their own.\<close>

fun sum_totals :: "Order list \<Rightarrow> int64 \<Rightarrow> int64" where
  "sum_totals [] acc = acc"
| "sum_totals (o1 # rest) acc = sum_totals rest (acc + m_amount (ord_total o1))"

fun count_statuses :: "Order list \<Rightarrow> (OrderStatus \<rightharpoonup> goint) \<Rightarrow> (OrderStatus \<rightharpoonup> goint)" where
  "count_statuses [] counts = counts"
| "count_statuses (o1 # rest) counts = count_statuses rest (counts(ord_status o1 \<mapsto>
     (case counts (ord_status o1) of Some n \<Rightarrow> n + 1 | None \<Rightarrow> 1)))"

definition report_of :: "string \<Rightarrow> Order list \<Rightarrow> DailyReportResult" where
  "report_of date orders = \<lparr>
     drr_Date = date,
     drr_TotalOrders = of_nat (length orders),
     drr_TotalRevenue = sum_totals orders 0,
     drr_Currency = (case orders of o1 # _ \<Rightarrow> m_currency (ord_total o1) | [] \<Rightarrow> DefaultCurrency),
     drr_ByStatus = count_statuses orders Map.empty\<rparr>"

definition DailyReport_Handle ::
  "'s DailyReport \<Rightarrow> string \<Rightarrow> 's \<Rightarrow> (DailyReportResult outcome \<times> 's) option" where
  "DailyReport_Handle q date s =
     map_option (\<lambda>(r, s'). (map_outcome (report_of date) r, s')) (DailyReport_collect q s)"

section \<open>The loop ends\<close>

text \<open>Every page that does not end the loop has a full page of orders.\<close>

lemma collect_from_ends:
  assumes "0 < sint (dr_pageSize q)"
  shows "collect_from q page collected s \<noteq> None"
proof (induction "nat (sint (dr_maxOrders q) - int (length collected))" arbitrary: page collected s
    rule: less_induct)
  case less
  obtain r s' where call: "orep_ListAll (rp_Orders (dr_reads q))
      \<lparr>pg_Number = page, pg_Size = dr_pageSize q\<rparr> s = (r, s')" by force
  show ?case
  proof (cases "int (length collected) < sint (dr_maxOrders q)")
    case more: True
    show ?thesis
    proof (cases r)
      case (Ok bt)
      obtain batch tot where bt: "bt = (batch, tot)" by force
      show ?thesis
      proof (cases "int (length batch) < sint (dr_pageSize q) \<or> sint tot \<le> int (length (collected @ batch))")
        case True
        then show ?thesis by (subst collect_from.simps) (simp add: call Ok bt more Let_def)
      next
        case False
        then have "collect_from q (page + 1) (collected @ batch) s' \<noteq> None"
          by (intro less) (use assms more in auto)
        with False show ?thesis by (subst collect_from.simps) (simp add: call Ok bt more Let_def)
      qed
    qed (use more call in \<open>subst collect_from.simps; simp\<close>)+
  qed (subst collect_from.simps; simp)
qed

text \<open>How the loop's answer relates to its pages: nothing is dropped, and the bound holds.\<close>

lemma sum_totals_acc: "sum_totals orders acc = acc + sum_list (map (\<lambda>o1. m_amount (ord_total o1)) orders)"
  by (induction orders arbitrary: acc) (auto simp: algebra_simps)

lemma count_statuses_at:
  "count_statuses orders counts st =
     (let n = length (filter (\<lambda>o1. ord_status o1 = st) orders) in
      if n = 0 then counts st else Some ((case counts st of Some k \<Rightarrow> k | None \<Rightarrow> 0) + of_nat n))"
proof (induction orders arbitrary: counts)
  case Nil
  then show ?case by simp
next
  case (Cons o1 orders)
  show ?case
    by (auto simp: Cons.IH Let_def algebra_simps split: option.splits)
qed

end
