(* ===== verification/Query_Props.thy ===== *)
theory Query_Props
  imports Queries Examples
begin

text \<open>The properties of the queries.\<close>

section \<open>Pages of orders\<close>

lemma ordersToDomain_all:
  assumes "ordersToDomain ms = Ok out"
  shows "list_all2 (\<lambda>m o1. orderToDomain m = Ok o1) ms out"
  using assms by (simp add: ordersToDomain_def mapR_Ok_iff)

lemma orderRepo_list_Ok:
  assumes "gorm_ok G view" and "orderRepo_list G P page s = (Ok (out, tot), s')"
  obtains number sz ordered where "normalizeOrderPage page = (number, sz)"
    and "mset ordered = mset (filter P (db_orders (view s)))"
    and "list_all2 (\<lambda>m o1. orderToDomain m = Ok o1)
           (take (nat (sint sz)) (drop (nat (sint ((number - 1) * sz))) ordered)) out"
    and "tot = of_nat (length (filter P (db_orders (view s))))" and "view s' = view s"
proof -
  obtain number sz where n: "normalizeOrderPage page = (number, sz)" by force
  then have pos: "0 <s sz"
    by (auto simp: normalizeOrderPage_def Let_def word_sless_alt word_sle_eq split: if_splits)
  from assms(2) obtain c s1 ms where
    cnt: "tbl_Count (g_orders G) P s = (Ok c, s1)" and
    pg: "tbl_Page (g_orders G) P ((number - 1) * sz) sz s1 = (Ok ms, s')" and
    out: "ordersToDomain ms = Ok out" and tot: "tot = c"
    by (auto simp: orderRepo_list_def n Let_def check_Ok_iff)
  from reads_only_Ok [OF table_okD(6) [OF orders_table [OF assms(1)]] cnt]
  have c: "c = of_nat (length (filter P (db_orders (view s))))" "view s1 = view s" by auto
  from reads_only_Ok [OF table_okD(5) [OF orders_table [OF assms(1)] pos] pg] c(2) obtain ordered where
    "mset ordered = mset (filter P (db_orders (view s)))"
    "ms = take (nat (sint sz)) (drop (nat (sint ((number - 1) * sz))) ordered)" "view s' = view s" by auto
  with that [OF n] c tot ordersToDomain_all [OF out] show ?thesis by auto
qed

text \<open>A page of a user's orders holds only that user's orders, no more of them than the page
  size (20 when none is given), beside the number of all their orders; listing changes no table.\<close>

theorem list_user_orders_own:
  assumes "gorm_ok G view"
    and "ListUserOrders_Handle (NewRepositories G) userID page s = (Ok (out, tot), s')"
  shows "(\<forall>o1 \<in> set out. ord_userID o1 = userID \<and>
      (\<exists>m \<in> set (db_orders (view s)). om_UserID m = userID \<and> orderToDomain m = Ok o1)) \<and>
    int (length out) \<le> (if 0 <s pg_Size page then sint (pg_Size page) else 20) \<and>
    tot = of_nat (length (filter (\<lambda>m. om_UserID m = userID) (db_orders (view s)))) \<and> view s' = view s"
proof -
  from assms(2) have "orderRepo_list G (\<lambda>m. om_UserID m = userID) page s = (Ok (out, tot), s')"
    by (simp add: ListUserOrders_Handle_def orderRepo_ListByUser_def)
  from orderRepo_list_Ok [OF assms(1) this] obtain number sz ordered where
    n: "normalizeOrderPage page = (number, sz)" and
    ord: "mset ordered = mset (filter (\<lambda>m. om_UserID m = userID) (db_orders (view s)))" and
    all: "list_all2 (\<lambda>m o1. orderToDomain m = Ok o1)
      (take (nat (sint sz)) (drop (nat (sint ((number - 1) * sz))) ordered)) out" and
    rest: "tot = of_nat (length (filter (\<lambda>m. om_UserID m = userID) (db_orders (view s))))"
      "view s' = view s" .
  have sz: "sint sz = (if 0 <s pg_Size page then sint (pg_Size page) else 20)"
    using n by (auto simp: normalizeOrderPage_def Let_def word_sless_alt word_sle_eq split: if_splits)
  have own: "ord_userID o1 = userID \<and>
      (\<exists>m \<in> set (db_orders (view s)). om_UserID m = userID \<and> orderToDomain m = Ok o1)"
    if "o1 \<in> set out" for o1
  proof -
    from list_all2_right_mem [OF all that] obtain m where
      m: "m \<in> set (take (nat (sint sz)) (drop (nat (sint ((number - 1) * sz))) ordered))"
        "orderToDomain m = Ok o1" by blast
    then have "m \<in> set ordered" by (meson in_set_dropD in_set_takeD)
    then have "m \<in> set (filter (\<lambda>m. om_UserID m = userID) (db_orders (view s)))"
      using ord by (metis set_mset_mset)
    moreover have "ord_userID o1 = om_UserID m"
      using m(2) by (auto simp: orderToDomain_def checkR_Ok_iff ReconstituteOrder_def)
    ultimately show ?thesis using m(2) by auto
  qed
  have "length out \<le> nat (sint sz)"
    unfolding list_all2_lengthD [OF all, symmetric] by (simp only: length_take min.cobounded2)
  moreover have "0 \<le> sint sz" unfolding sz by (simp add: word_sless_alt)
  ultimately have "int (length out) \<le> sint sz" by linarith
  then have "int (length out) \<le> (if 0 <s pg_Size page then sint (pg_Size page) else 20)"
    by (simp only: sz)
  with own rest show ?thesis by blast
qed

text \<open>The low-stock query returns exactly the stock records that the aggregate's \<open>IsLow\<close> calls
  low, each once, and changes no table.\<close>

theorem low_stock_exact:
  assumes "gorm_ok G view" and "LowStock_Handle (NewRepositories G) s = (Ok out, s')"
  shows "mset out = mset (filter Inventory_IsLow (map inventoryToDomain (db_inventories (view s)))) \<and>
    view s' = view s"
proof -
  from assms(2) obtain ms where
    f: "tbl_Find (g_inventories G) (\<lambda>m. im_Available m \<le>s im_ReorderLevel m) s = (Ok ms, s')" and
    out: "out = map inventoryToDomain ms"
    by (auto simp: LowStock_Handle_def inventoryRepo_ListLowStock_def check_Ok_iff)
  have "table_ok inventorySchema view db_inventories put_inventories (g_inventories G)"
    using assms(1) by (simp add: gorm_ok_def)
  from reads_only_Ok [OF table_okD(4) [OF this] f] have
    ms: "mset ms = mset (filter (\<lambda>m. im_Available m \<le>s im_ReorderLevel m) (db_inventories (view s)))"
    and v: "view s' = view s" by auto
  have "Inventory_IsLow (inventoryToDomain m) \<longleftrightarrow> im_Available m \<le>s im_ReorderLevel m" for m
    by (simp add: Inventory_IsLow_def inventoryToDomain_def ReconstituteInventory_def)
  then have "filter Inventory_IsLow (map inventoryToDomain (db_inventories (view s))) =
      map inventoryToDomain (filter (\<lambda>m. im_Available m \<le>s im_ReorderLevel m) (db_inventories (view s)))"
    by (simp add: filter_map o_def)
  with ms v out show ?thesis by (metis mset_map)
qed

section \<open>The daily report\<close>

text \<open>C32: the daily report always comes to an end: whatever the repository answers, the paging loop
  collects full pages of 200 until it has 2000 orders, and returns a report or the error.\<close>

theorem daily_report_returns:
  "\<exists>r s'. DailyReport_Handle (NewDailyReport reads) date s = Some (r, s')"
proof -
  have "DailyReport_collect (NewDailyReport reads) s \<noteq> None"
    unfolding DailyReport_collect_def by (rule collect_from_ends) (simp add: NewDailyReport_def)
  then show ?thesis by (auto simp: DailyReport_Handle_def)
qed

text \<open>C33: as long as all orders fit in one page, the report is exact: it counts every order in the
  table whatever its date, its revenue is the sum of all their totals whatever their status, and
  its count per status is the number of rows with that status.\<close>

theorem daily_report_exact:
  assumes "gorm_ok G view" and "length (db_orders (view s)) \<le> 200"
    and "DailyReport_Handle (NewDailyReport (NewRepositories G)) date s = Some (Ok rep, s')"
  shows "drr_Date rep = date \<and> drr_TotalOrders rep = of_nat (length (db_orders (view s))) \<and>
    drr_TotalRevenue rep = sum_list (map om_TotalAmount (db_orders (view s))) \<and>
    drr_ByStatus rep st = (let n = length (filter (\<lambda>m. om_Status m = st) (db_orders (view s))) in
      if n = 0 then None else Some (of_nat n)) \<and> view s' = view s"
proof -
  let ?rows = "db_orders (view s)"
  let ?page = "\<lparr>pg_Number = 1, pg_Size = 200 :: goint\<rparr>"
  from assms(3) obtain orders where
    coll: "collect_from (NewDailyReport (NewRepositories G)) 1 [] s = Some (Ok orders, s')" and
    rep: "rep = report_of date orders"
    by (auto simp: DailyReport_Handle_def DailyReport_collect_def map_outcome_Ok_iff split: prod.splits)
  obtain r s1 where call: "orderRepo_list G (\<lambda>m. True) ?page s = (r, s1)" by force
  with coll obtain batch tot where r: "r = Ok (batch, tot)"
    by (subst (asm) collect_from.simps) (auto simp: NewDailyReport_def orderRepo_ListAll_def split: outcome.splits)
  from orderRepo_list_Ok [OF assms(1) call [unfolded r]] obtain ordered where
    ord: "mset ordered = mset ?rows" and
    all: "list_all2 (\<lambda>m o1. orderToDomain m = Ok o1) (take 200 ordered) batch" and
    tot: "tot = of_nat (length ?rows)" and v: "view s1 = view s"
    by (auto simp: normalizeOrderPage_def word_sle_eq)
  have len: "length ordered = length ?rows" using ord by (metis size_mset)
  with assms(2) all have all: "list_all2 (\<lambda>m o1. orderToDomain m = Ok o1) ordered batch" by simp
  have lb: "length batch = length ?rows" using list_all2_lengthD [OF all] len by simp
  have "sint tot = int (length ?rows)"
    using assms(2) by (simp add: tot signed_of_nat signed_take_bit_int_eq_self)
  with call r lb have "collect_from (NewDailyReport (NewRepositories G)) 1 [] s = Some (Ok batch, s1)"
    by (subst collect_from.simps) (simp add: NewDailyReport_def orderRepo_ListAll_def Let_def)
  with coll have fin: "orders = batch" "s' = s1" by simp_all
  have field: "map (\<lambda>o1. (ord_status o1, m_amount (ord_total o1))) batch =
      map (\<lambda>m. (om_Status m, om_TotalAmount m)) ordered"
    using all by (induction rule: list_all2_induct)
      (auto simp: orderToDomain_def checkR_Ok_iff ReconstituteOrder_def MustMoney_Ok_iff)
  have amounts: "map (\<lambda>o1. m_amount (ord_total o1)) batch = map om_TotalAmount ordered"
    using arg_cong [OF field, of "map snd"] by (simp add: o_def)
  have sts: "map ord_status batch = map om_Status ordered"
    using arg_cong [OF field, of "map fst"] by (simp add: o_def)
  have "sum_list (map om_TotalAmount ordered) = sum_list (map om_TotalAmount ?rows)"
    using ord by (metis mset_map sum_mset_sum_list)
  moreover have "length (filter (\<lambda>o1. ord_status o1 = st) batch) = length (filter (\<lambda>m. om_Status m = st) ?rows)"
  proof -
    have "length (filter (\<lambda>x. x = st) (map ord_status batch)) = length (filter (\<lambda>x. x = st) (map om_Status ?rows))"
      unfolding sts using ord by (metis mset_filter mset_map size_mset)
    then show ?thesis by (simp add: filter_map o_def)
  qed
  ultimately show ?thesis
    using rep fin v lb amounts
    by (simp add: report_of_def sum_totals_acc count_statuses_at Let_def)
qed

section \<open>Witnesses\<close>

lemmas query_eval = mem_eval orderRepo_list_def normalizeOrderPage_def ordersToDomain_def
  orderRepo_ListAll_def orderRepo_ListByUser_def

theorem list_user_orders_own_witness:
  "fst (ListUserOrders_Handle (NewRepositories memGorm) 3 \<lparr>pg_Number = 0, pg_Size = 0\<rparr> demo_db2)
     = Ok ([demo_order StatusFulfilled], 1) \<and> ord_userID (demo_order StatusFulfilled) = 3"
proof -
  have run: "ListUserOrders_Handle (NewRepositories memGorm) 3 \<lparr>pg_Number = 0, pg_Size = 0\<rparr> demo_db2
      = (Ok ([demo_order StatusFulfilled], 1), demo_db2)"
    by (simp add: ListUserOrders_Handle_def query_eval demo_db2_def demo_row_order)
      (simp add: demo_row_def)
  from list_user_orders_own [OF memGorm_ok run] run show ?thesis by simp
qed

theorem low_stock_exact_witness:
  "fst (LowStock_Handle (NewRepositories memGorm) demo_db) = Ok [] \<and>
   filter Inventory_IsLow (map inventoryToDomain (db_inventories demo_db)) = []"
proof -
  have run: "LowStock_Handle (NewRepositories memGorm) demo_db = (Ok [], demo_db)"
    by (simp add: LowStock_Handle_def inventoryRepo_ListLowStock_def mem_eval demo_db_def
        demo_stock_def word_sle_eq)
  from low_stock_exact [OF memGorm_ok run] run show ?thesis by simp
qed

theorem daily_report_exact_witness:
  "\<exists>rep s'. DailyReport_Handle (NewDailyReport (NewRepositories memGorm)) ''2026-01-01'' demo_db2
      = Some (Ok rep, s') \<and> drr_TotalOrders rep = 1 \<and> drr_TotalRevenue rep = 500"
proof -
  have list: "orderRepo_list memGorm (\<lambda>m. True) \<lparr>pg_Number = 1, pg_Size = 200\<rparr> demo_db2
      = (Ok ([demo_order StatusFulfilled], 1), demo_db2)"
    by (simp add: query_eval demo_db2_def demo_row_order word_sle_eq)
  have run: "DailyReport_Handle (NewDailyReport (NewRepositories memGorm)) ''2026-01-01'' demo_db2
      = Some (Ok (report_of ''2026-01-01'' [demo_order StatusFulfilled]), demo_db2)"
    by (simp add: DailyReport_Handle_def DailyReport_collect_def)
      (subst collect_from.simps, simp add: NewDailyReport_def orderRepo_ListAll_def list Let_def)
  have "length (db_orders (id demo_db2)) \<le> 200" by (simp add: demo_db2_def)
  from daily_report_exact [OF memGorm_ok this run, of StatusFulfilled] run show ?thesis
    by (auto simp: demo_db2_def demo_row_def)
qed

end
