(* ===== verification/Gateway.thy ===== *)
theory Gateway
  imports PlaceOrder
begin

text \<open>
  The payment provider of the service, internal/infrastructure/payment/mock_gateway.go. A charge
  has two critical sections under \<open>g.mu\<close>, the lookup of an earlier result and its commit, and
  in between a pause, in which other charges run. What the random generator draws and the
  provider's fresh references are arguments of the steps.
\<close>

record MockGateway =
  mg_minLatency :: duration
  mg_maxLatency :: duration
  mg_results :: "string \<rightharpoonup> ChargeResult"

definition NewMockGateway :: "duration \<Rightarrow> duration \<Rightarrow> MockGateway" where
  "NewMockGateway minLatency maxLatency =
     \<lparr>mg_minLatency = minLatency, mg_maxLatency = maxLatency, mg_results = Map.empty\<rparr>"

text \<open>\<open>draw n\<close> is what \<open>rng.Int63n(n)\<close> returns: a number of \<open>[0, n)\<close>, or a panic unless
  \<open>n > 0\<close>.\<close>

definition randLatency :: "(int64 \<Rightarrow> int64) \<Rightarrow> MockGateway \<Rightarrow> duration outcome" where
  "randLatency draw g =
     (if mg_maxLatency g \<le>s mg_minLatency g then Ok (mg_minLatency g)
      else let span = mg_maxLatency g - mg_minLatency g in
        if span \<le>s 0 then Panic ''invalid argument to Int63n''
        else Ok (mg_minLatency g + draw span))"

definition declined_error :: goerror where
  "declined_error = PaymentFailedErr ''payment.declined'' ''payment was declined by the gateway''"

text \<open>The first section: the result of an earlier charge with the same key.\<close>

definition Charge_lookup :: "string \<Rightarrow> MockGateway \<Rightarrow> ChargeResult option" where
  "Charge_lookup key g = mg_results g key"

text \<open>The second section: another charge with the key may have finished meanwhile.\<close>

definition Charge_commit :: "string \<Rightarrow> string \<Rightarrow> MockGateway \<Rightarrow> ChargeResult \<times> MockGateway" where
  "Charge_commit key ref g = (case mg_results g key of
      Some existing \<Rightarrow> (existing, g)
    | None \<Rightarrow> (let result = \<lparr>cres_Provider = ''mock'', cres_ProviderRef = ref\<rparr>
        in (result, g\<lparr>mg_results := (mg_results g)(key \<mapsto> result)\<rparr>)))"

text \<open>
  What happens to one charge in its pause: the context is cancelled, the draw is below the failure
  rate, or the provider gives a reference.
\<close>

datatype charge_fate = Cancelled goerror | Declined | Accepted string

text \<open>A charge that no other runs beside, as a provider of the command PlaceOrder.\<close>

definition MockGateway_Charge :: "(MockGateway \<Rightarrow> charge_fate) \<Rightarrow> MockGateway PaymentGateway" where
  "MockGateway_Charge fate req g = (case Charge_lookup (cr_IdempotencyKey req) g of
      Some existing \<Rightarrow> (Ok existing, g)
    | None \<Rightarrow> (case fate g of
         Cancelled e \<Rightarrow> (Err e, g)
       | Declined \<Rightarrow> (Err declined_error, g)
       | Accepted ref \<Rightarrow> (case Charge_commit (cr_IdempotencyKey req) ref g of (res, g') \<Rightarrow> (Ok res, g'))))"

section \<open>Concurrent charges\<close>

text \<open>
  Charges under way (call number and key, past the lookup) and the answers given so far.
\<close>

record GatewayRun =
  gr_gateway :: MockGateway
  gr_waiting :: "(nat \<times> string) list"
  gr_answers :: "(nat \<times> string \<times> ChargeResult outcome) list"

datatype gateway_act = ChargeCall nat string | ChargeEnds nat string charge_fate

fun gateway_do :: "gateway_act \<Rightarrow> GatewayRun \<Rightarrow> GatewayRun option" where
  "gateway_do (ChargeCall c key) r = Some (case Charge_lookup key (gr_gateway r) of
      Some existing \<Rightarrow> r\<lparr>gr_answers := (c, key, Ok existing) # gr_answers r\<rparr>
    | None \<Rightarrow> r\<lparr>gr_waiting := (c, key) # gr_waiting r\<rparr>)"
| "gateway_do (ChargeEnds c key fate) r =
     (if (c, key) \<in> set (gr_waiting r) then
        (let r' = r\<lparr>gr_waiting := remove1 (c, key) (gr_waiting r)\<rparr> in
         case fate of
           Cancelled e \<Rightarrow> Some (r'\<lparr>gr_answers := (c, key, Err e) # gr_answers r\<rparr>)
         | Declined \<Rightarrow> Some (r'\<lparr>gr_answers := (c, key, Err declined_error) # gr_answers r\<rparr>)
         | Accepted ref \<Rightarrow> (case Charge_commit key ref (gr_gateway r) of (res, g') \<Rightarrow>
             Some (r'\<lparr>gr_gateway := g', gr_answers := (c, key, Ok res) # gr_answers r\<rparr>)))
      else None)"

fun gateway_run :: "gateway_act list \<Rightarrow> GatewayRun \<Rightarrow> GatewayRun option" where
  "gateway_run [] r = Some r"
| "gateway_run (a # as) r = (case gateway_do a r of None \<Rightarrow> None | Some r' \<Rightarrow> gateway_run as r')"

definition gateway_start :: "MockGateway \<Rightarrow> GatewayRun" where
  "gateway_start g = \<lparr>gr_gateway = g, gr_waiting = [], gr_answers = []\<rparr>"

text \<open>Every accepted answer is the one result stored under its key.\<close>

definition answers_stored :: "GatewayRun \<Rightarrow> bool" where
  "answers_stored r \<longleftrightarrow>
     (\<forall>c key res. (c, key, Ok res) \<in> set (gr_answers r) \<longrightarrow> mg_results (gr_gateway r) key = Some res)"

lemma answers_stored_step:
  "answers_stored r \<Longrightarrow> gateway_do a r = Some r' \<Longrightarrow> answers_stored r'"
  by (cases a) (auto simp: answers_stored_def Charge_lookup_def Charge_commit_def Let_def
      split: option.splits charge_fate.splits if_splits)

lemma answers_stored_run:
  "gateway_run as r = Some r' \<Longrightarrow> answers_stored r \<Longrightarrow> answers_stored r'"
  by (induction as arbitrary: r) (auto split: option.splits dest: answers_stored_step)

text \<open>A result, once stored, is never replaced.\<close>

lemma results_kept_step:
  assumes "mg_results (gr_gateway r) key = Some res" and "gateway_do a r = Some r'"
  shows "mg_results (gr_gateway r') key = Some res"
  using assms
  by (cases a) (auto simp: Charge_commit_def Let_def split: option.splits charge_fate.splits if_splits)

text \<open>Calls and answers: every call is waiting or answered, once.\<close>

fun calls :: "gateway_act list \<Rightarrow> (nat \<times> string) list" where
  "calls [] = []"
| "calls (ChargeCall c key # as) = (c, key) # calls as"
| "calls (ChargeEnds c key fate # as) = calls as"

definition call_bag :: "GatewayRun \<Rightarrow> (nat \<times> string) multiset" where
  "call_bag r = mset (gr_waiting r) + mset (map (\<lambda>(c, key, res). (c, key)) (gr_answers r))"

lemma call_bag_step:
  "gateway_do a r = Some r' \<Longrightarrow> call_bag r' = call_bag r + mset (calls [a])"
  by (cases a) (auto simp: call_bag_def Let_def split: option.splits charge_fate.splits if_splits prod.splits)

lemma calls_Cons: "calls (a # as) = calls [a] @ calls as"
  by (cases a) auto

lemma call_bag_run:
  assumes "gateway_run as r = Some r'"
  shows "call_bag r' = call_bag r + mset (calls as)"
  using assms
proof (induction as arbitrary: r)
  case Nil
  then show ?case by simp
next
  case (Cons a as)
  then obtain q where "gateway_do a r = Some q" "gateway_run as q = Some r'"
    by (auto split: option.splits)
  with Cons.IH call_bag_step show ?case
    by (subst calls_Cons) (fastforce simp del: calls.simps)
qed

end
