(* ===== verification/Dispatch.thy ===== *)
theory Dispatch
  imports UnitOfWork
begin

text \<open>
  The notification dispatcher, internal/infrastructure/notification/dispatcher.go: a notification
  is stored, then queued for the workers that send it and store the outcome.
\<close>

text \<open>
  The fields that change: the queue with its bound, and whether it is closed. \<open>dsp_idle\<close> workers
  are on their way to the receive of their loop, \<open>dsp_parked\<close> workers wait in it, and
  \<open>dsp_processing\<close> are the notifications being sent.
\<close>

record Dispatcher =
  dsp_workers :: nat
  dsp_queueSize :: nat
  dsp_queue :: "Notification list"
  dsp_closed :: bool
  dsp_idle :: nat
  dsp_parked :: nat
  dsp_processing :: "Notification list"

definition NewDispatcher :: "goint \<Rightarrow> goint \<Rightarrow> Dispatcher" where
  "NewDispatcher workers queueSize = \<lparr>
     dsp_workers = nat (sint (if workers <s 1 then 1 else workers)),
     dsp_queueSize = nat (sint (if queueSize <s 0 then 0 else queueSize)),
     dsp_queue = [], dsp_closed = False, dsp_idle = 0, dsp_parked = 0, dsp_processing = []\<rparr>"

text \<open>The body of \<open>startOnce\<close>.\<close>

definition Dispatcher_Start :: "Dispatcher \<Rightarrow> Dispatcher" where
  "Dispatcher_Start d = d\<lparr>dsp_idle := dsp_workers d\<rparr>"

text \<open>
  The select of \<open>Enqueue\<close>: a worker that waits in its receive gets the notification, the buffer
  takes it when it has room, and otherwise it stays stored only, also when a worker is idle that
  has not reached its receive.
\<close>

definition offer :: "Notification \<Rightarrow> Dispatcher \<Rightarrow> Dispatcher" where
  "offer n d =
     (if 0 < dsp_parked d
        then d\<lparr>dsp_parked := dsp_parked d - 1, dsp_processing := dsp_processing d @ [n]\<rparr>
      else if length (dsp_queue d) < dsp_queueSize d then d\<lparr>dsp_queue := dsp_queue d @ [n]\<rparr>
      else d)"

definition Dispatcher_Enqueue :: "'s NotificationRepository \<Rightarrow> Notification \<Rightarrow> ('s \<times> Dispatcher, unit) prog" where
  "Dispatcher_Enqueue repo n sd = (case nrep_Create repo (fst sd, n) of
      (Ok _, (s', n')) \<Rightarrow> if dsp_closed (snd sd) then (Panic ''send on closed channel'', (s', snd sd))
        else (Ok (), (s', offer n' (snd sd)))
    | (Err e, (s', _)) \<Rightarrow> (Err e, (s', snd sd))
    | (Panic p, (s', _)) \<Rightarrow> (Panic p, (s', snd sd)))"

text \<open>
  What a worker does with a notification: the state it leaves, and the notification as it is
  then. Errors are logged; a panic is recovered.
\<close>

definition Dispatcher_process ::
  "(Notification \<Rightarrow> ('s, unit) prog) \<Rightarrow> 's NotificationRepository \<Rightarrow> Notification \<Rightarrow> 's \<Rightarrow> Notification \<times> 's"
where
  "Dispatcher_process send repo n s =
     (let n1 = Notification_IncrementAttempt n in
      case send n1 s of
        (Panic _, s1) \<Rightarrow> (n1, s1)
      | (Err e, s1) \<Rightarrow> (case Notification_MarkFailed (ErrorText e) n1 of
           (Ok _, n2) \<Rightarrow> (n2, snd (nrep_Update repo n2 s1))
         | (_, n2) \<Rightarrow> (n2, s1))
      | (Ok _, s1) \<Rightarrow> (case Notification_MarkSent n1 of
           (Ok _, n2) \<Rightarrow> (n2, snd (nrep_Update repo n2 s1))
         | (_, n2) \<Rightarrow> (n2, s1)))"

text \<open>
  A worker finds the queue empty and waits in its receive; takes a notification; returns to its
  loop after it.
\<close>

definition Dispatcher_park :: "Dispatcher \<Rightarrow> Dispatcher option" where
  "Dispatcher_park d = (if \<not> dsp_closed d \<and> dsp_queue d = [] \<and> 0 < dsp_idle d
     then Some (d\<lparr>dsp_idle := dsp_idle d - 1, dsp_parked := dsp_parked d + 1\<rparr>) else None)"

definition Dispatcher_take :: "Dispatcher \<Rightarrow> Dispatcher option" where
  "Dispatcher_take d = (case dsp_queue d of
      n # ns \<Rightarrow> if 0 < dsp_idle d
        then Some (d\<lparr>dsp_queue := ns, dsp_idle := dsp_idle d - 1,
          dsp_processing := dsp_processing d @ [n]\<rparr>)
        else None
    | [] \<Rightarrow> None)"

definition Dispatcher_finish ::
  "(Notification \<Rightarrow> ('s, unit) prog) \<Rightarrow> 's NotificationRepository \<Rightarrow> Notification
    \<Rightarrow> 's \<times> Dispatcher \<Rightarrow> ('s \<times> Dispatcher) option" where
  "Dispatcher_finish send repo n sd = (if n \<in> set (dsp_processing (snd sd))
     then Some (snd (Dispatcher_process send repo n (fst sd)),
       (snd sd)\<lparr>dsp_processing := remove1 n (dsp_processing (snd sd)), dsp_idle := dsp_idle (snd sd) + 1\<rparr>)
     else None)"

text \<open>
  \<open>Stop\<close> closes the queue, once, which wakes the workers that wait; the workers leave when it is
  empty, and \<open>Stop\<close> returns when all have left.
\<close>

definition Dispatcher_Stop :: "Dispatcher \<Rightarrow> Dispatcher" where
  "Dispatcher_Stop d = d\<lparr>dsp_closed := True, dsp_idle := dsp_idle d + dsp_parked d, dsp_parked := 0\<rparr>"

definition Dispatcher_leave :: "Dispatcher \<Rightarrow> Dispatcher option" where
  "Dispatcher_leave d = (if dsp_closed d \<and> dsp_queue d = [] \<and> 0 < dsp_idle d
     then Some (d\<lparr>dsp_idle := dsp_idle d - 1\<rparr>) else None)"

definition Dispatcher_stopped :: "Dispatcher \<Rightarrow> bool" where
  "Dispatcher_stopped d \<longleftrightarrow> dsp_closed d \<and> dsp_idle d = 0 \<and> dsp_parked d = 0 \<and>
     dsp_processing d = []"

section \<open>The contract of the notification repository\<close>

text \<open>The columns an update writes.\<close>

definition notified :: "Notification \<Rightarrow> NotificationModel \<Rightarrow> NotificationModel" where
  "notified n r = r\<lparr>nm_UserID := ntf_userID n, nm_Type := ntf_type n, nm_Channel := ntf_channel n,
     nm_Status := ntf_status n, nm_Subject := ntf_subject n, nm_Payload := ntf_payload n,
     nm_Attempts := ntf_attempts n, nm_FailureReason := ntf_failureReason n\<rparr>"

locale notification_port =
  fixes ok :: "'g \<Rightarrow> ('s \<Rightarrow> DB) \<Rightarrow> bool"
    and ntfs :: "'g \<Rightarrow> 's NotificationRepository"
  assumes Create_notification: "ok g view \<Longrightarrow> nrep_Create (ntfs g) (s, n) = (Ok u, (s', n'))
      \<Longrightarrow> \<exists>r. inserts notificationSchema (db_notifications (view s)) (notificationToModel n) r \<and>
          n' = Notification_AssignID (nm_ID r) n \<and>
          view s' = put_notifications (db_notifications (view s) @ [r]) (view s)"
    and Create_notification_failed: "ok g view \<Longrightarrow> nrep_Create (ntfs g) (s, n) = (r, (s', n'))
      \<Longrightarrow> \<not> is_Ok r \<Longrightarrow> view s' = view s"
    and Update_notification: "ok g view \<Longrightarrow> nrep_Update (ntfs g) n s = (r, s')
      \<Longrightarrow> view s' = view s \<or> view s' = put_notifications
            (map (\<lambda>x. if nm_ID x = ntf_id n then notified n x else x) (db_notifications (view s))) (view s)"

lemma notifications_table: "gorm_ok G view \<Longrightarrow>
    table_ok notificationSchema view db_notifications put_notifications (g_notifications G)"
  by (simp add: gorm_ok_def)

interpretation gorm_notifications: notification_port gorm_ok "\<lambda>G. rp_Notifications (NewRepositories G)"
proof (unfold_locales, goal_cases)
  case (1 g view s n u s' n')
  then obtain r where r: "tbl_Create (g_notifications g) (notificationToModel n) s = (Ok r, s')"
    "n' = Notification_AssignID (nm_ID r) n"
    by (auto simp: notificationRepo_Create_def split: prod.splits outcome.splits)
  from writes_Ok [OF table_okD(1) [OF notifications_table [OF 1(1)]] r(1)] r(2) show ?case by auto
next
  case (2 g view s n r s' n')
  obtain r0 s0 where c: "tbl_Create (g_notifications g) (notificationToModel n) s = (r0, s0)" by force
  with 2 have "\<not> is_Ok r0" "s' = s0" by (cases r0; auto simp: notificationRepo_Create_def)+
  with writes_failed [OF table_okD(1) [OF notifications_table [OF 2(1)]] c] show ?case by simp
next
  case (3 g view n s r s')
  let ?P = "\<lambda>x. nm_ID x = ntf_id n"
  let ?f = "\<lambda>x. Some (notified n x)"
  obtain r0 s0 where c: "tbl_Updates (g_notifications g) ?P ?f s = (r0, s0)" by force
  have s0: "s' = s0"
    using 3(2) c by (auto simp: notificationRepo_Update_def notificationToModel_def notified_def Let_def
        check_def split: outcome.splits if_splits)
  note w = table_okD(7) [OF notifications_table [OF 3(1)], of s ?P ?f]
  show ?case
  proof (cases r0)
    case (Ok k)
    from writes_Ok [OF w c [unfolded Ok]] s0 show ?thesis
      by (auto simp: update_rows_def if_distrib cong: if_cong)
  qed (use writes_failed [OF w c] s0 in auto)
qed

section \<open>The fate of a notification\<close>

locale dispatching = notification_port ok ntfs
  for ok :: "'g \<Rightarrow> ('s \<Rightarrow> DB) \<Rightarrow> bool" and ntfs :: "'g \<Rightarrow> 's NotificationRepository"
begin

text \<open>
  Enqueueing stores the notification first; if that fails nothing is queued and no table changes.
\<close>

lemma enqueued:
  assumes "ok g view" and "NewNotification userID ntype channel subject payload = Ok n"
    and "Dispatcher_Enqueue (ntfs g) n (s, d) = (r, (s', d'))" and "\<not> dsp_closed d"
  shows "case r of
      Ok _ \<Rightarrow> \<exists>n' row. ntf_id n' = nm_ID row \<and> nm_ID row \<noteq> 0 \<and>
        nm_ID row \<notin> nm_ID ` set (db_notifications (view s)) \<and> notified n' row = row \<and>
        nm_Status row = NotifQueued \<and> nm_UserID row = userID \<and> nm_Attempts row = 0 \<and>
        nm_Subject row = subject \<and> nm_Payload row = payload \<and> nm_Type row = ntype \<and>
        view s' = put_notifications (db_notifications (view s) @ [row]) (view s) \<and> d' = offer n' d
    | _ \<Rightarrow> view s' = view s \<and> d' = d"
proof -
  obtain rc s1 n1 where c: "nrep_Create (ntfs g) (s, n) = (rc, (s1, n1))" by (metis prod_cases3)
  show ?thesis
  proof (cases rc)
    case (Ok u)
    from Create_notification [OF assms(1) c [unfolded Ok]] obtain row where
      row: "inserts notificationSchema (db_notifications (view s)) (notificationToModel n) row"
        "n1 = Notification_AssignID (nm_ID row) n"
        "view s1 = put_notifications (db_notifications (view s) @ [row]) (view s)" by auto
    from assms(2) have n: "n = \<lparr>pending = [NotificationQueued 0], ntf_id = 0, ntf_userID = userID,
        ntf_type = ntype, ntf_channel = channel, ntf_status = NotifQueued, ntf_subject = subject,
        ntf_payload = payload, ntf_attempts = 0, ntf_failureReason = '''', ntf_createdAt = 0\<rparr>"
      by (auto simp: NewNotification_def Let_def Record_def split: if_splits)
    have f: "row = (notificationToModel n)\<lparr>nm_ID := nm_ID row, nm_CreatedAt := nm_CreatedAt row\<rparr>"
      "nm_ID row \<noteq> 0" "nm_ID row \<notin> nm_ID ` set (db_notifications (view s))"
      using row(1) by (auto simp: inserts_def notificationSchema_def)
    have fields: "nm_Status row = NotifQueued" "nm_UserID row = userID" "nm_Attempts row = 0"
      "nm_Subject row = subject" "nm_Payload row = payload" "nm_Type row = ntype"
      "nm_Channel row = channel" "nm_FailureReason row = ''''"
      by (subst f(1), simp add: notificationToModel_def n)+
    have "notified n1 row = row"
      using fields by (simp add: notified_def row(2) Notification_AssignID_def n)
    moreover have "ntf_id n1 = nm_ID row" by (simp add: row(2) Notification_AssignID_def n)
    ultimately show ?thesis
      using assms(3,4) c Ok f(2,3) fields row(3)
      by (auto simp: Dispatcher_Enqueue_def intro!: exI [of _ n1] exI [of _ row])
  next
    case (Err e)
    with assms(3) c Create_notification_failed [OF assms(1) c] show ?thesis
      by (auto simp: Dispatcher_Enqueue_def)
  next
    case (Panic p)
    with assms(3) c Create_notification_failed [OF assms(1) c] show ?thesis
      by (auto simp: Dispatcher_Enqueue_def)
  qed
qed

text \<open>Processing a queued notification stores what the sender answered, or nothing.\<close>

lemma processed_queued:
  assumes "ok g view" and "ntf_status n = NotifQueued"
    and "\<And>m s r s'. send m s = (r, s') \<Longrightarrow> view s' = view s"
    and "send (Notification_IncrementAttempt n) s = (r, sx)"
    and "Dispatcher_process send (ntfs g) n s = (n', s')"
  shows "view s' = view s \<or>
    (view s' = put_notifications (map (\<lambda>x. if nm_ID x = ntf_id n then notified n' x else x)
        (db_notifications (view s))) (view s) \<and> ntf_attempts n' = ntf_attempts n + 1 \<and>
     (case r of Ok _ \<Rightarrow> ntf_status n' = NotifSent \<and> ntf_failureReason n' = ''''
      | Err e \<Rightarrow> ntf_status n' = NotifFailed \<and> ntf_failureReason n' = ErrorText e \<and> ErrorText e \<noteq> ''''
      | Panic p \<Rightarrow> False))"
proof -
  have vx: "view sx = view s" by (rule assms(3) [OF assms(4)])
  show ?thesis
  proof (cases r)
    case (Ok u)
    let ?n2 = "snd (Notification_MarkSent (Notification_IncrementAttempt n))"
    have n2: "fst (Notification_MarkSent (Notification_IncrementAttempt n)) = Ok ()"
      using assms(2) by (simp add: notification_op_defs)
    obtain ru su where up: "nrep_Update (ntfs g) ?n2 sx = (ru, su)" by force
    have "n' = ?n2" "s' = su"
      using assms(4,5) Ok n2 up by (auto simp: Dispatcher_process_def Let_def split: prod.splits)
    with Update_notification [OF assms(1) up] vx Ok assms(2) show ?thesis
      by (auto simp: notification_op_defs Record_def)
  next
    case (Err e)
    show ?thesis
    proof (cases "ErrorText e = ''''")
      case True
      with assms(4,5) Err vx show ?thesis
        by (auto simp: Dispatcher_process_def Let_def notification_op_defs)
    next
      case False
      let ?n2 = "snd (Notification_MarkFailed (ErrorText e) (Notification_IncrementAttempt n))"
      have st: "NotifQueued \<noteq> NotifSent" by (simp add: NotifQueued_def NotifSent_def)
      have n2: "fst (Notification_MarkFailed (ErrorText e) (Notification_IncrementAttempt n)) = Ok ()"
        using assms(2) False st by (simp add: notification_op_defs)
      obtain ru su where up: "nrep_Update (ntfs g) ?n2 sx = (ru, su)" by force
      have "n' = ?n2" "s' = su"
        using assms(4,5) Err n2 up by (auto simp: Dispatcher_process_def Let_def split: prod.splits)
      with Update_notification [OF assms(1) up] vx Err assms(2) False st show ?thesis
        by (auto simp: notification_op_defs Record_def)
    qed
  next
    case (Panic p)
    with assms(4,5) vx show ?thesis by (auto simp: Dispatcher_process_def Let_def)
  qed
qed

end

interpretation dispatcher: dispatching gorm_ok "\<lambda>G. rp_Notifications (NewRepositories G)"
  by unfold_locales

end
