(* ===== verification/EventBus.thy ===== *)
theory EventBus
  imports DomainEvents Errs "HOL-Library.Multiset"
begin

text \<open>
  The bus inside the process, internal/infrastructure/messaging/eventbus.go. A handler is a value
  of a type \<open>'h\<close>; what \<open>handler.EventName()\<close> returns is the argument \<open>name\<close> of the operations
  that call it, and what \<open>handler.Handle\<close> answers is part of the step that ends a delivery.
\<close>

type_synonym 'h job = "'h \<times> Event"

record 'h InProcessBus =
  bus_workers :: nat
  bus_queueSize :: nat
  bus_handlers :: "string \<Rightarrow> 'h list"
  bus_jobs :: "'h job list"
  bus_closed :: bool

definition NewInProcessBus :: "goint \<Rightarrow> goint \<Rightarrow> 'h InProcessBus" where
  "NewInProcessBus workers queueSize = \<lparr>
     bus_workers = nat (sint (if workers <s 1 then 1 else workers)),
     bus_queueSize = nat (sint (if queueSize <s 0 then 0 else queueSize)),
     bus_handlers = (\<lambda>_. []), bus_jobs = [], bus_closed = False\<rparr>"

definition Bus_Subscribe :: "('h \<Rightarrow> string) \<Rightarrow> 'h \<Rightarrow> 'h InProcessBus \<Rightarrow> 'h InProcessBus" where
  "Bus_Subscribe name h b =
     b\<lparr>bus_handlers := (bus_handlers b)(name h := bus_handlers b (name h) @ [h])\<rparr>"

text \<open>
  What \<open>dispatch\<close> logs once the handler has answered: an error is logged, a panic recovered and
  logged; either way \<open>dispatch\<close> returns.
\<close>

datatype bus_log = EventHandlerPanicked string Event | EventHandlerFailed goerror Event

definition bus_dispatch :: "'h job \<Rightarrow> unit outcome \<Rightarrow> bus_log list" where
  "bus_dispatch j answer = (case answer of
      Panic p \<Rightarrow> [EventHandlerPanicked p (snd j)]
    | Err e \<Rightarrow> [EventHandlerFailed e (snd j)]
    | Ok _ \<Rightarrow> [])"

text \<open>The handlers of an event: those of its name, then those of every event.\<close>

definition dispatched :: "'h InProcessBus \<Rightarrow> Event \<Rightarrow> 'h list" where
  "dispatched b e = bus_handlers b (EventName e) @ bus_handlers b ''*''"

section \<open>The goroutines\<close>

text \<open>
  A handler is not one step: between the step that starts a delivery and the one that ends it
  the other goroutines move, so that handlers run concurrently. \<open>br_publishing\<close>: the calls of
  \<open>Publish\<close>, each with the jobs of its current event it has still to place and the events after
  it; \<open>br_inline\<close>: those that dispatch a job themselves, with that job; \<open>br_idle\<close>: workers on
  their way to the receive of their loop; \<open>br_parked\<close>: workers that wait in it; \<open>br_running\<close>:
  the jobs workers dispatch; \<open>br_delivered\<close>: the jobs dispatched so far with the answer of the
  handler, last first; \<open>br_panicked\<close>: publishers that sent on the closed channel, \<open>br_lost\<close>: the
  jobs of their current events that they had not placed; \<open>br_log\<close>: the log lines, last first.
\<close>

datatype bus_phase = Open | Draining | Stopped

type_synonym 'h publisher = "nat \<times> 'h job list \<times> Event list"

record 'h BusRun =
  br_bus :: "'h InProcessBus"
  br_publishing :: "'h publisher list"
  br_inline :: "(nat \<times> 'h job \<times> 'h job list \<times> Event list) list"
  br_started :: bool
  br_idle :: nat
  br_parked :: nat
  br_running :: "'h job list"
  br_delivered :: "('h job \<times> unit outcome) list"
  br_panicked :: "nat list"
  br_lost :: "'h job list"
  br_log :: "bus_log list"
  br_phase :: bus_phase

datatype 'h bus_act = Subscribe 'h | PublishCall nat "Event list" | NextEvent nat | PlaceJob nat
  | FinishInline nat "unit outcome" | StartBus | ParkWorker | TakeJob | FinishJob "'h job" "unit outcome"
  | LeaveLoop | CloseBus | StopBus

text \<open>One publisher of a list of publishers, and the others.\<close>

fun take_publisher :: "nat \<Rightarrow> (nat \<times> 'a) list \<Rightarrow> ('a \<times> (nat \<times> 'a) list) option" where
  "take_publisher n [] = None"
| "take_publisher n ((k, a) # ps) = (if k = n then Some (a, ps)
     else map_option (\<lambda>(b, qs). (b, (k, a) # qs)) (take_publisher n ps))"

text \<open>
  The select of \<open>Publish\<close> for job \<open>j\<close> of publisher \<open>n\<close>, which has \<open>js\<close> and the events \<open>es\<close> after
  it: on the closed channel it panics; a worker that waits in its receive gets the job, the
  buffer takes it when it has room, and otherwise the publisher dispatches it, also when a worker
  is idle that has not reached its receive.
\<close>

definition place_job :: "nat \<Rightarrow> 'h job \<Rightarrow> 'h job list \<Rightarrow> Event list \<Rightarrow> 'h BusRun \<Rightarrow> 'h BusRun" where
  "place_job n j js es r =
     (if bus_closed (br_bus r)
        then r\<lparr>br_panicked := n # br_panicked r, br_lost := (j # js) @ br_lost r\<rparr>
      else if 0 < br_parked r
        then r\<lparr>br_publishing := (n, js, es) # br_publishing r, br_parked := br_parked r - 1,
          br_running := br_running r @ [j]\<rparr>
      else if length (bus_jobs (br_bus r)) < bus_queueSize (br_bus r)
        then r\<lparr>br_publishing := (n, js, es) # br_publishing r,
          br_bus := (br_bus r)\<lparr>bus_jobs := bus_jobs (br_bus r) @ [j]\<rparr>\<rparr>
      else r\<lparr>br_inline := (n, j, js, es) # br_inline r\<rparr>)"

text \<open>The end of \<open>dispatch\<close>.\<close>

definition delivered :: "'h job \<Rightarrow> unit outcome \<Rightarrow> 'h BusRun \<Rightarrow> 'h BusRun" where
  "delivered j answer r = r\<lparr>br_delivered := (j, answer) # br_delivered r,
     br_log := bus_dispatch j answer @ br_log r\<rparr>"

fun bus_do :: "('h \<Rightarrow> string) \<Rightarrow> 'h bus_act \<Rightarrow> 'h BusRun \<Rightarrow> 'h BusRun option" where
  "bus_do name (Subscribe h) r = Some (r\<lparr>br_bus := Bus_Subscribe name h (br_bus r)\<rparr>)"
| "bus_do name (PublishCall n es) r = Some (r\<lparr>br_publishing := (n, [], es) # br_publishing r\<rparr>)"
| "bus_do name (NextEvent n) r = (case take_publisher n (br_publishing r) of
      Some (([], e # es), ps) \<Rightarrow> Some (r\<lparr>br_publishing :=
        (n, map (\<lambda>h. (h, e)) (dispatched (br_bus r) e), es) # ps\<rparr>)
    | Some (([], []), ps) \<Rightarrow> Some (r\<lparr>br_publishing := ps\<rparr>)
    | _ \<Rightarrow> None)"
| "bus_do name (PlaceJob n) r = (case take_publisher n (br_publishing r) of
      Some ((j # js, es), ps) \<Rightarrow> Some (place_job n j js es (r\<lparr>br_publishing := ps\<rparr>))
    | _ \<Rightarrow> None)"
| "bus_do name (FinishInline n answer) r = (case take_publisher n (br_inline r) of
      Some ((j, js, es), ps) \<Rightarrow> Some (delivered j answer
        (r\<lparr>br_inline := ps, br_publishing := (n, js, es) # br_publishing r\<rparr>))
    | None \<Rightarrow> None)"
| "bus_do name StartBus r = (if br_started r then None
     else Some (r\<lparr>br_started := True, br_idle := bus_workers (br_bus r)\<rparr>))"
| "bus_do name ParkWorker r =
     (if \<not> bus_closed (br_bus r) \<and> bus_jobs (br_bus r) = [] \<and> 0 < br_idle r
      then Some (r\<lparr>br_idle := br_idle r - 1, br_parked := br_parked r + 1\<rparr>) else None)"
| "bus_do name TakeJob r = (case bus_jobs (br_bus r) of
      j # js \<Rightarrow> if 0 < br_idle r
        then Some (r\<lparr>br_bus := (br_bus r)\<lparr>bus_jobs := js\<rparr>, br_idle := br_idle r - 1,
          br_running := br_running r @ [j]\<rparr>)
        else None
    | [] \<Rightarrow> None)"
| "bus_do name (FinishJob j answer) r = (if j \<in> set (br_running r)
     then Some (delivered j answer
       (r\<lparr>br_running := remove1 j (br_running r), br_idle := br_idle r + 1\<rparr>))
     else None)"
| "bus_do name LeaveLoop r =
     (if bus_closed (br_bus r) \<and> bus_jobs (br_bus r) = [] \<and> 0 < br_idle r
      then Some (r\<lparr>br_idle := br_idle r - 1\<rparr>) else None)"
| "bus_do name CloseBus r = (if br_phase r = Open
     then Some (r\<lparr>br_phase := Draining, br_bus := (br_bus r)\<lparr>bus_closed := True\<rparr>,
       br_idle := br_idle r + br_parked r, br_parked := 0\<rparr>)
     else None)"
| "bus_do name StopBus r = (if br_phase r = Draining \<and> br_idle r = 0 \<and> br_running r = []
     then Some (r\<lparr>br_phase := Stopped\<rparr>) else None)"

fun bus_run :: "('h \<Rightarrow> string) \<Rightarrow> 'h bus_act list \<Rightarrow> 'h BusRun \<Rightarrow> 'h BusRun option" where
  "bus_run name [] r = Some r"
| "bus_run name (a # as) r =
     (case bus_do name a r of None \<Rightarrow> None | Some r' \<Rightarrow> bus_run name as r')"

definition bus_start :: "'h InProcessBus \<Rightarrow> 'h BusRun" where
  "bus_start b = \<lparr>br_bus = b, br_publishing = [], br_inline = [], br_started = False, br_idle = 0,
     br_parked = 0, br_running = [], br_delivered = [], br_panicked = [], br_lost = [], br_log = [],
     br_phase = Open\<rparr>"

definition bus_started :: "'h InProcessBus \<Rightarrow> 'h BusRun" where
  "bus_started b = (bus_start b)\<lparr>br_started := True, br_idle := bus_workers b\<rparr>"

lemmas bus_step_defs = place_job_def delivered_def Bus_Subscribe_def

section \<open>Every delivery is somewhere\<close>

text \<open>The deliveries a run owes: each event's handlers at the time it is published.\<close>

fun due_now :: "'h bus_act \<Rightarrow> 'h BusRun \<Rightarrow> 'h job list" where
  "due_now (NextEvent n) r = (case take_publisher n (br_publishing r) of
      Some (([], e # es), ps) \<Rightarrow> map (\<lambda>h. (h, e)) (dispatched (br_bus r) e)
    | _ \<Rightarrow> [])"
| "due_now a r = []"

fun due :: "('h \<Rightarrow> string) \<Rightarrow> 'h bus_act list \<Rightarrow> 'h BusRun \<Rightarrow> 'h job list" where
  "due name [] r = []"
| "due name (a # as) r = due_now a r @
     (case bus_do name a r of Some r' \<Rightarrow> due name as r' | None \<Rightarrow> [])"

text \<open>The jobs publishers have still to place, and those they dispatch themselves.\<close>

definition placing :: "'h BusRun \<Rightarrow> 'h job list" where
  "placing r = concat (map (\<lambda>(n, js, es). js) (br_publishing r)) @
     concat (map (\<lambda>(n, j, js, es). js) (br_inline r))"

definition inlined :: "'h BusRun \<Rightarrow> 'h job list" where
  "inlined r = map (\<lambda>(n, j, js, es). j) (br_inline r)"

lemma take_publisher_mset:
  "take_publisher n ps = Some (a, qs) \<Longrightarrow> mset ps = add_mset (n, a) (mset qs)"
  by (induction n ps arbitrary: a qs rule: take_publisher.induct) (auto split: if_splits)

lemma take_publisher_jobs:
  assumes "take_publisher n ps = Some (a, qs)"
  shows "mset (concat (map f ps)) = mset (f (n, a)) + mset (concat (map f qs))"
proof -
  have "mset (concat (map f ps)) = \<Sum>\<^sub># (image_mset (mset \<circ> f) (mset ps))" for ps
    by (induction ps) simp_all
  then show ?thesis by (simp add: take_publisher_mset [OF assms])
qed

definition bus_bag :: "'h BusRun \<Rightarrow> 'h job multiset" where
  "bus_bag r = mset (map fst (br_delivered r)) + mset (br_running r) + mset (inlined r) +
     mset (bus_jobs (br_bus r)) + mset (placing r) + mset (br_lost r)"

lemmas bus_bag_defs = bus_bag_def placing_def inlined_def

lemma bus_bag_step:
  assumes "bus_do name a r = Some r'"
  shows "bus_bag r' = bus_bag r + mset (due_now a r)"
proof (cases a)
  case (NextEvent n)
  with assms show ?thesis
    by (auto simp: bus_bag_defs take_publisher_jobs split: option.splits list.splits)
next
  case (PlaceJob n)
  with assms obtain j js es ps where t: "take_publisher n (br_publishing r) = Some ((j # js, es), ps)"
    and r': "r' = place_job n j js es (r\<lparr>br_publishing := ps\<rparr>)"
    by (auto split: option.splits list.splits)
  from PlaceJob show ?thesis
    by (simp add: r' place_job_def bus_bag_defs take_publisher_jobs [OF t])
next
  case (FinishInline n answer)
  with assms show ?thesis
    by (auto simp: bus_bag_defs delivered_def take_publisher_jobs take_publisher_mset split: option.splits)
qed (use assms in \<open>auto simp: bus_bag_defs bus_step_defs split: if_splits list.splits\<close>)

lemma bus_bag_run:
  assumes "bus_run name as r = Some r'"
  shows "bus_bag r' = bus_bag r + mset (due name as r)"
  using assms
proof (induction as arbitrary: r)
  case Nil
  then show ?case by simp
next
  case (Cons a as)
  then obtain q where q: "bus_do name a r = Some q" "bus_run name as q = Some r'"
    by (auto split: option.splits)
  with Cons.IH bus_bag_step [OF q(1)] show ?case by simp
qed

section \<open>The invariant\<close>

text \<open>
  The workers are accounted for until the closed queue is empty, none waits while there is a job,
  a publisher loses a job only on the closed channel, and the log is that of the deliveries.
\<close>

definition bus_inv :: "'h BusRun \<Rightarrow> bool" where
  "bus_inv r \<longleftrightarrow> br_started r \<and> 0 < bus_workers (br_bus r) \<and>
     length (bus_jobs (br_bus r)) \<le> bus_queueSize (br_bus r) \<and>
     (br_phase r = Open \<longleftrightarrow> \<not> bus_closed (br_bus r)) \<and>
     (0 < br_parked r \<longrightarrow> \<not> bus_closed (br_bus r) \<and> bus_jobs (br_bus r) = []) \<and>
     (br_phase r = Stopped \<longrightarrow> br_idle r = 0 \<and> br_running r = []) \<and>
     br_idle r + br_parked r + length (br_running r) \<le> bus_workers (br_bus r) \<and>
     (br_idle r + br_parked r + length (br_running r) = bus_workers (br_bus r) \<or>
      bus_closed (br_bus r) \<and> bus_jobs (br_bus r) = [])"

definition bus_ghosts :: "'h BusRun \<Rightarrow> bool" where
  "bus_ghosts r \<longleftrightarrow> (br_panicked r \<noteq> [] \<longrightarrow> bus_closed (br_bus r)) \<and>
     (br_lost r = [] \<longleftrightarrow> br_panicked r = []) \<and>
     br_log r = concat (map (\<lambda>(j, answer). bus_dispatch j answer) (br_delivered r))"

lemma length_remove1_Suc: "x \<in> set xs \<Longrightarrow> length xs = Suc (length (remove1 x xs))"
  by (simp add: length_remove1 Suc_pred' length_pos_if_in_set del: length_greater_0_conv)

lemma bus_inv_step:
  assumes "bus_inv r" and "bus_do name a r = Some r'"
  shows "bus_inv r'"
proof -
  have "pred_option bus_inv (bus_do name a r)"
  proof (cases a)
    case (FinishJob j answer)
    with assms(1) length_remove1_Suc [of j "br_running r"] show ?thesis
      by (auto simp: bus_inv_def delivered_def)
  qed (use assms(1) in \<open>cases "br_phase r"; auto simp: bus_inv_def bus_step_defs
        split: option.split list.split\<close>)+
  with assms(2) show ?thesis by simp
qed

lemma bus_ghosts_step:
  assumes "bus_ghosts r" and "bus_do name a r = Some r'"
  shows "bus_ghosts r'"
proof -
  have "pred_option bus_ghosts (bus_do name a r)"
    using assms(1) by (cases a) (auto simp: bus_ghosts_def bus_step_defs split: option.split list.split)
  with assms(2) show ?thesis by simp
qed

lemma bus_run_invariant:
  assumes "\<And>a r r'. P r \<Longrightarrow> bus_do name a r = Some r' \<Longrightarrow> P r'"
    and "bus_run name as r = Some r'" and "P r"
  shows "P r'"
  using assms(2,3) by (induction as arbitrary: r) (auto split: option.splits intro: assms(1))

lemma bus_started_inv: "0 < bus_workers b \<Longrightarrow> bus_jobs b = [] \<Longrightarrow> \<not> bus_closed b \<Longrightarrow> bus_inv (bus_started b)"
  by (simp add: bus_inv_def bus_started_def bus_start_def)

end
