(* ===== verification/EventHandlers.thy ===== *)
theory EventHandlers
  imports Dispatch EventBus
begin

text \<open>
  Package internal/application/eventhandler: the handlers bootstrap subscribes to the bus - the
  two notifications, the audit log and the broadcast to the websocket clients.
\<close>

text \<open>
  What the handlers act on: the store of their repositories, the dispatcher, and the messages
  handed to \<open>Broadcast\<close>, in order.
\<close>

record 's HandlerWorld =
  hw_store :: 's
  hw_dispatcher :: Dispatcher
  hw_broadcast :: "string list"

text \<open>handler.go: a handler is a name and a function.\<close>

record 's funcHandler =
  fh_name :: string
  fh_fn :: "Event \<Rightarrow> ('s HandlerWorld, unit) prog"

definition NewHandler :: "string \<Rightarrow> (Event \<Rightarrow> ('s HandlerWorld, unit) prog) \<Rightarrow> 's funcHandler" where
  "NewHandler name fn = \<lparr>fh_name = name, fh_fn = fn\<rparr>"

definition funcHandler_EventName :: "'s funcHandler \<Rightarrow> string" where
  "funcHandler_EventName h = fh_name h"

definition funcHandler_Handle :: "'s funcHandler \<Rightarrow> Event \<Rightarrow> ('s HandlerWorld, unit) prog" where
  "funcHandler_Handle h e = fh_fn h e"

text \<open>A call on the store, or on the store and the dispatcher.\<close>

definition inStore :: "('s, 'a) prog \<Rightarrow> ('s HandlerWorld, 'a) prog" where
  "inStore m w = (case m (hw_store w) of (r, s') \<Rightarrow> (r, w\<lparr>hw_store := s'\<rparr>))"

definition inDispatcher :: "('s \<times> Dispatcher, 'a) prog \<Rightarrow> ('s HandlerWorld, 'a) prog" where
  "inDispatcher m w = (case m (hw_store w, hw_dispatcher w) of
     (r, (s', d')) \<Rightarrow> (r, w\<lparr>hw_store := s', hw_dispatcher := d'\<rparr>))"

section \<open>The handlers\<close>

text \<open>The event's name up to its first dot, if the dot is not its first character.\<close>

definition entityOf :: "string \<Rightarrow> string" where
  "entityOf eventName = (let i = length (takeWhile (\<lambda>c. c \<noteq> CHR ''.'') eventName) in
     if CHR ''.'' \<in> set eventName \<and> 0 < i then take i eventName else eventName)"

definition AuditHandler :: "time \<Rightarrow> 's AuditRepository \<Rightarrow> 's funcHandler" where
  "AuditHandler now audits = NewHandler ''*'' (\<lambda>e.
     check (lift (NewEntry now None (EventName e) (entityOf (EventName e)) (AggregateID e) '''' '''' ''''))
       (\<lambda>entry. inStore (arep_Append audits entry)))"

text \<open>\<open>fmt.Sprintf\<close> with \<open>%d\<close> on an unsigned number.\<close>

definition order_subject :: "uint64 \<Rightarrow> string \<Rightarrow> string" where
  "order_subject i what = ''Order #'' @ dec (unat i) @ '' '' @ what"

definition NotificationOnOrderPaid ::
  "'s OrderRepository \<Rightarrow> 's NotificationRepository \<Rightarrow> 's funcHandler" where
  "NotificationOnOrderPaid orders repo =
     NewHandler (OrderEvent_EventName (OrderPaid 0)) (\<lambda>e.
       check (inStore (orep_FindByID orders (AggregateID e))) (\<lambda>o1.
       check (lift (NewNotification (Some (ord_userID o1)) TypeOrderConfirmed ChannelEmail
         (order_subject (ord_id o1) ''confirmed'') '''')) (\<lambda>n.
       inDispatcher (Dispatcher_Enqueue repo n))))"

definition NotificationOnOrderFailed ::
  "'s OrderRepository \<Rightarrow> 's NotificationRepository \<Rightarrow> 's funcHandler" where
  "NotificationOnOrderFailed orders repo =
     NewHandler (OrderEvent_EventName (OrderFailed 0 '''')) (\<lambda>e.
       check (inStore (orep_FindByID orders (AggregateID e))) (\<lambda>o1.
       check (lift (NewNotification (Some (ord_userID o1)) TypeOrderFailed ChannelEmail
         (order_subject (ord_id o1) ''failed'') (ord_failureReason o1))) (\<lambda>n.
       inDispatcher (Dispatcher_Enqueue repo n))))"

text \<open>\<open>json.Marshal\<close> of the payload; the event names have no character that JSON escapes.\<close>

definition ws_payload :: "Event \<Rightarrow> string" where
  "ws_payload e = ''{'' @ [CHR 0x22] @ ''event'' @ [CHR 0x22] @ '':'' @ [CHR 0x22] @ EventName e @ [CHR 0x22]
     @ '','' @ [CHR 0x22] @ ''aggregate_id'' @ [CHR 0x22] @ '':'' @ dec (unat (AggregateID e)) @ ''}''"

definition NewWSBroadcast :: "'s funcHandler" where
  "NewWSBroadcast = NewHandler ''*'' (\<lambda>e w. (Ok (), w\<lparr>hw_broadcast := hw_broadcast w @ [ws_payload e]\<rparr>))"

section \<open>The subscriptions\<close>

text \<open>The four calls of \<open>inproc.Subscribe\<close> in bootstrap.go.\<close>

definition subscribeAll ::
  "time \<Rightarrow> 's RepositoryProvider \<Rightarrow> 's funcHandler InProcessBus \<Rightarrow> 's funcHandler InProcessBus" where
  "subscribeAll now reads b =
     Bus_Subscribe funcHandler_EventName NewWSBroadcast
       (Bus_Subscribe funcHandler_EventName (AuditHandler now (rp_Audit reads))
       (Bus_Subscribe funcHandler_EventName (NotificationOnOrderFailed (rp_Orders reads) (rp_Notifications reads))
       (Bus_Subscribe funcHandler_EventName (NotificationOnOrderPaid (rp_Orders reads) (rp_Notifications reads))
       b)))"

lemmas handler_defs = NewHandler_def funcHandler_EventName_def funcHandler_Handle_def AuditHandler_def
  NotificationOnOrderPaid_def NotificationOnOrderFailed_def NewWSBroadcast_def

text \<open>The names of the events: the entity, a dot, and what happened.\<close>

lemma event_names:
  "EventName e \<noteq> ''*''" "entityOf (EventName e) \<noteq> ''''" "EventName e \<noteq> ''''"
  "entityOf (EventName e) \<in> {''inventory'', ''order'', ''payment'', ''product'', ''user'', ''notification''}"
  by (cases e; simp add: EventName_def entityOf_def InventoryEvent_EventName_def OrderEvent_EventName_def
      PaymentEvent_EventName_def ProductEvent_EventName_def UserEvent_EventName_def
      NotificationEvent_EventName_def split: InventoryEvent.splits OrderEvent.splits PaymentEvent.splits
      ProductEvent.splits UserEvent.splits NotificationEvent.splits)+

lemma paid_event_name: "EventName e = OrderEvent_EventName (OrderPaid 0) \<longleftrightarrow> (\<exists>i. e = EvOrder (OrderPaid i))"
  by (cases e; simp add: EventName_def InventoryEvent_EventName_def OrderEvent_EventName_def
      PaymentEvent_EventName_def ProductEvent_EventName_def UserEvent_EventName_def
      NotificationEvent_EventName_def split: InventoryEvent.splits OrderEvent.splits PaymentEvent.splits
      ProductEvent.splits UserEvent.splits NotificationEvent.splits)

lemma failed_event_name:
  "EventName e = OrderEvent_EventName (OrderFailed 0 '''') \<longleftrightarrow> (\<exists>i r. e = EvOrder (OrderFailed i r))"
  by (cases e; simp add: EventName_def InventoryEvent_EventName_def OrderEvent_EventName_def
      PaymentEvent_EventName_def ProductEvent_EventName_def UserEvent_EventName_def
      NotificationEvent_EventName_def split: InventoryEvent.splits OrderEvent.splits PaymentEvent.splits
      ProductEvent.splits UserEvent.splits NotificationEvent.splits)

text \<open>Who hears of an event.\<close>

lemma subscribed:
  assumes "bus_handlers b = (\<lambda>_. [])"
  shows "dispatched (subscribeAll now reads b) e =
    (if \<exists>i. e = EvOrder (OrderPaid i)
       then [NotificationOnOrderPaid (rp_Orders reads) (rp_Notifications reads)]
     else if \<exists>i r. e = EvOrder (OrderFailed i r)
       then [NotificationOnOrderFailed (rp_Orders reads) (rp_Notifications reads)]
     else []) @ [AuditHandler now (rp_Audit reads), NewWSBroadcast]"
proof -
  have ne: "OrderEvent_EventName (OrderPaid 0) \<noteq> OrderEvent_EventName (OrderFailed 0 '''')"
    "OrderEvent_EventName (OrderPaid 0) \<noteq> ''*''" "OrderEvent_EventName (OrderFailed 0 '''') \<noteq> ''*''"
    by (simp_all add: OrderEvent_EventName_def)
  show ?thesis
    unfolding paid_event_name [symmetric] failed_event_name [symmetric]
    using event_names(1) [of e] ne
    by (simp add: dispatched_def subscribeAll_def Bus_Subscribe_def handler_defs assms)
qed

section \<open>What the handlers do\<close>

lemma audit_entry:
  assumes "gorm_ok G view"
    and "funcHandler_Handle (AuditHandler now (rp_Audit (NewRepositories G))) e w = (r, w')"
  shows "hw_dispatcher w' = hw_dispatcher w \<and> hw_broadcast w' = hw_broadcast w \<and> (case r of
      Ok _ \<Rightarrow> \<exists>m. view (hw_store w') = (view (hw_store w))\<lparr>db_audit_logs := db_audit_logs (view (hw_store w)) @ [m]\<rparr> \<and>
        am_Action m = EventName e \<and> am_EntityID m = AggregateID e \<and> am_ActorID m = None \<and>
        am_Entity m = entityOf (EventName e)
    | _ \<Rightarrow> view (hw_store w') = view (hw_store w))"
proof -
  let ?entry = "\<lparr>ent_id = 0, ent_actorID = None, ent_action = EventName e,
      ent_entity = entityOf (EventName e), ent_entityID = AggregateID e, ent_before = '''',
      ent_after = '''', ent_metadata = '''', ent_createdAt = now\<rparr>"
  obtain r0 s0 where c: "tbl_Create (g_audit_logs G) (auditToModel ?entry) (hw_store w) = (r0, s0)" by force
  have "table_ok auditSchema view db_audit_logs put_audit_logs (g_audit_logs G)"
    using assms(1) by (simp add: gorm_ok_def)
  note tab = table_okD(1) [OF this, of "hw_store w" "auditToModel ?entry"]
  have run: "r = map_outcome (\<lambda>_. ()) r0" "w' = w\<lparr>hw_store := s0\<rparr>"
    using assms(2) c event_names(2,3) [of e]
    by (cases r0; simp add: handler_defs NewEntry_def inStore_def auditRepo_Append_def)+
  show ?thesis
  proof (cases r0)
    case (Ok m)
    from writes_Ok [OF tab c [unfolded Ok]] have
      m: "sc_stored auditSchema (auditToModel ?entry) m" and
      v: "view s0 = put_audit_logs (db_audit_logs (view (hw_store w)) @ [m]) (view (hw_store w))"
      by (auto simp: inserts_def)
    from m have row: "m = (auditToModel ?entry)\<lparr>am_ID := am_ID m, am_CreatedAt := am_CreatedAt m\<rparr>"
      by (simp add: auditSchema_def)
    have "am_Action m = EventName e" "am_EntityID m = AggregateID e" "am_ActorID m = None"
      "am_Entity m = entityOf (EventName e)" by (subst row, simp add: auditToModel_def)+
    with v run Ok show ?thesis by auto
  qed (use writes_failed [OF tab c] run in auto)
qed

lemma paid_or_failed:
  assumes "gorm_ok G view" and "db_ok (view (hw_store w))"
    and "funcHandler_Handle h e w = (r, w')"
    and "h = NotificationOnOrderPaid (rp_Orders (NewRepositories G)) (rp_Notifications (NewRepositories G)) \<or>
         h = NotificationOnOrderFailed (rp_Orders (NewRepositories G)) (rp_Notifications (NewRepositories G))"
    and "\<not> dsp_closed (hw_dispatcher w)"
  shows "hw_broadcast w' = hw_broadcast w \<and> (case r of
      Ok _ \<Rightarrow> \<exists>m n' row. m \<in> set (db_orders (view (hw_store w))) \<and> om_ID m = AggregateID e \<and>
        ntf_id n' = nm_ID row \<and> notified n' row = row \<and> nm_Status row = NotifQueued \<and>
        nm_UserID row = Some (om_UserID m) \<and> nm_Type row = (if fh_name h = OrderEvent_EventName (OrderPaid 0)
          then TypeOrderConfirmed else TypeOrderFailed) \<and>
        view (hw_store w') = put_notifications (db_notifications (view (hw_store w)) @ [row]) (view (hw_store w)) \<and>
        hw_dispatcher w' = offer n' (hw_dispatcher w)
    | _ \<Rightarrow> view (hw_store w') = view (hw_store w) \<and> hw_dispatcher w' = hw_dispatcher w)"
proof -
  obtain fr s1 where f: "orderRepo_FindByID G (AggregateID e) (hw_store w) = (fr, s1)" by force
  note f1 = first_order [OF assms(1) f [unfolded orderRepo_FindByID_def]]
  have ne: "OrderEvent_EventName (OrderFailed 0 '''') \<noteq> OrderEvent_EventName (OrderPaid 0)"
    by (simp add: OrderEvent_EventName_def)
  show ?thesis
  proof (cases fr)
    case (Ok o1)
    with f1 obtain m where m: "m \<in> set (db_orders (view (hw_store w)))" "om_ID m = AggregateID e"
      "orderToDomain m = Ok o1" by auto
    have own: "ord_userID o1 = om_UserID m"
      using m(3) by (auto simp: orderToDomain_def checkR_Ok_iff ReconstituteOrder_def)
    obtain ty what pl where h: "h = NewHandler (fh_name h) (\<lambda>e.
       check (inStore (orep_FindByID (rp_Orders (NewRepositories G)) (AggregateID e))) (\<lambda>o1.
       check (lift (NewNotification (Some (ord_userID o1)) ty ChannelEmail
         (order_subject (ord_id o1) what) (pl o1))) (\<lambda>n.
       inDispatcher (Dispatcher_Enqueue (rp_Notifications (NewRepositories G)) n))))" and
      ty: "ty = (if fh_name h = OrderEvent_EventName (OrderPaid 0) then TypeOrderConfirmed else TypeOrderFailed)"
      using assms(4) ne unfolding handler_defs by auto
    obtain n where n: "NewNotification (Some (ord_userID o1)) ty ChannelEmail
         (order_subject (ord_id o1) what) (pl o1) = Ok n"
      by (cases "fh_name h = OrderEvent_EventName (OrderPaid 0)")
        (simp_all add: NewNotification_def Type_valid_def Channel_valid_def order_subject_def ty Let_def)
    obtain re s2 d2 where en: "Dispatcher_Enqueue (rp_Notifications (NewRepositories G)) n (s1, hw_dispatcher w)
        = (re, (s2, d2))" by (metis prod_cases3)
    have run: "r = re" "w' = w\<lparr>hw_store := s2, hw_dispatcher := d2\<rparr>"
      using assms(3) f Ok n en
      by (subst (asm) h, simp add: handler_defs inStore_def inDispatcher_def)+
    from dispatcher.enqueued [OF assms(1) n en assms(5)] run f1 m own ty show ?thesis
      by (cases re) (auto; blast)+
  next
    case (Err err)
    with assms(3,4) f f1 show ?thesis by (auto simp: handler_defs inStore_def)
  next
    case (Panic p)
    with assms(3,4) f f1 show ?thesis by (auto simp: handler_defs inStore_def)
  qed
qed

end
