(* ===== verification/Messaging_Props.thy ===== *)
theory Messaging_Props
  imports Gateway EventHandlers Examples
begin

text \<open>The properties of the payment provider, the bus, the event handlers and the dispatcher.\<close>

section \<open>The payment provider\<close>

text \<open>C16: however many charges run at once, two that are accepted under one idempotency key get
  the same result, the one the provider keeps under that key; and every call is either still
  waiting or answered, once.\<close>

theorem gateway_idempotent:
  assumes "gateway_run as (gateway_start (NewMockGateway lo hi)) = Some r"
  shows "(\<forall>c c' key res res'. (c, key, Ok res) \<in> set (gr_answers r) \<longrightarrow>
      (c', key, Ok res') \<in> set (gr_answers r) \<longrightarrow> res = res') \<and>
    (\<forall>c key res. (c, key, Ok res) \<in> set (gr_answers r) \<longrightarrow> mg_results (gr_gateway r) key = Some res) \<and>
    mset (calls as) = mset (gr_waiting r) + mset (map (\<lambda>(c, key, res). (c, key)) (gr_answers r))"
proof -
  have "answers_stored r"
    by (rule answers_stored_run [OF assms]) (simp add: answers_stored_def gateway_start_def)
  moreover have "mset (calls as) = mset (gr_waiting r) + mset (map (\<lambda>(c, key, res). (c, key)) (gr_answers r))"
    using call_bag_run [OF assms] by (simp add: call_bag_def gateway_start_def)
  ultimately show ?thesis unfolding answers_stored_def by (metis option.inject)
qed

text \<open>Two charges with one key pass the lookup before either commits; the second gets the first's reference.\<close>

definition race_acts :: "gateway_act list" where
  "race_acts = [ChargeCall 0 ''k'', ChargeCall 1 ''k'', ChargeCall 2 ''j'',
     ChargeEnds 1 ''k'' (Accepted ''r1''), ChargeEnds 0 ''k'' (Accepted ''r0''), ChargeCall 3 ''k'',
     ChargeEnds 2 ''j'' Declined]"

definition race_end :: GatewayRun where
  "race_end = \<lparr>gr_gateway = \<lparr>mg_minLatency = 0, mg_maxLatency = 5,
       mg_results = [''k'' \<mapsto> \<lparr>cres_Provider = ''mock'', cres_ProviderRef = ''r1''\<rparr>]\<rparr>,
     gr_waiting = [],
     gr_answers = [(2, ''j'', Err declined_error),
       (3, ''k'', Ok \<lparr>cres_Provider = ''mock'', cres_ProviderRef = ''r1''\<rparr>),
       (0, ''k'', Ok \<lparr>cres_Provider = ''mock'', cres_ProviderRef = ''r1''\<rparr>),
       (1, ''k'', Ok \<lparr>cres_Provider = ''mock'', cres_ProviderRef = ''r1''\<rparr>)]\<rparr>"

lemma race_run: "gateway_run race_acts (gateway_start (NewMockGateway 0 5)) = Some race_end"
  by (simp add: race_acts_def race_end_def gateway_start_def NewMockGateway_def Charge_lookup_def
      Charge_commit_def Let_def)

theorem gateway_idempotent_witness:
  "gateway_run race_acts (gateway_start (NewMockGateway 0 5)) = Some race_end \<and>
   mset (calls race_acts) =
     mset (gr_waiting race_end) + mset (map (\<lambda>(c, key, res). (c, key)) (gr_answers race_end))"
  using gateway_idempotent [OF race_run] race_run by blast

section \<open>The bus\<close>

text \<open>C19: whatever publishers, workers, subscriptions and \<open>Stop\<close> do in whatever order, with
  handlers that run concurrently, each event reaches each handler subscribed when it is published
  exactly once, except where a publisher sends after \<open>Stop\<close> has closed the channel: every
  delivery owed is done, being handled by a worker or by its publisher, queued, about to be placed,
  or lost by a publisher that panicked, and none is lost while the bus is open. The queue keeps
  its bound, a handler that fails or panics costs a log line and no worker, and after \<open>Stop\<close>
  no worker handles a delivery and none is queued.\<close>

theorem bus_exactly_once:
  assumes "bus_run name as (bus_started (NewInProcessBus workers queueSize)) = Some r"
  shows "mset (due name as (bus_started (NewInProcessBus workers queueSize))) =
      mset (map fst (br_delivered r)) + mset (br_running r) + mset (inlined r) +
      mset (bus_jobs (br_bus r)) + mset (placing r) + mset (br_lost r) \<and>
    (br_phase r = Open \<longrightarrow> br_lost r = []) \<and> (br_lost r = [] \<longleftrightarrow> br_panicked r = []) \<and>
    length (bus_jobs (br_bus r)) \<le> bus_queueSize (br_bus r) \<and>
    br_log r = concat (map (\<lambda>(j, answer). bus_dispatch j answer) (br_delivered r)) \<and>
    (br_idle r + br_parked r + length (br_running r) = bus_workers (br_bus r) \<or>
      br_phase r \<noteq> Open \<and> bus_jobs (br_bus r) = []) \<and>
    (br_phase r = Stopped \<longrightarrow> br_running r = [] \<and> bus_jobs (br_bus r) = [])"
proof -
  let ?b = "NewInProcessBus workers queueSize :: 'a InProcessBus"
  have new: "0 < bus_workers ?b" "bus_jobs ?b = []" "\<not> bus_closed ?b"
    by (auto simp: NewInProcessBus_def word_sless_alt)
  note inv = bus_run_invariant [OF _ assms]
  have "bus_inv r"
    by (rule inv) (erule (1) bus_inv_step, rule bus_started_inv [OF new])
  moreover have "bus_ghosts r"
    by (rule inv) (erule (1) bus_ghosts_step, simp add: bus_ghosts_def bus_started_def bus_start_def)
  moreover have "bus_bag r = mset (due name as (bus_started ?b))"
    using bus_bag_run [OF assms] new
    by (simp add: bus_bag_defs bus_started_def bus_start_def)
  ultimately show ?thesis
    by (auto simp: bus_inv_def bus_ghosts_def bus_bag_def)
qed

text \<open>
  One worker, a queue of one, two handlers of every event. The first publisher hands one delivery
  to the waiting worker and queues the other; the second finds the queue full and dispatches by
  itself, where the handler panics; after \<open>Stop\<close> the third loses both its deliveries and the
  second the one it has left.
\<close>

definition paid_event :: Event where
  "paid_event = EvOrder (OrderPaid 4)"

definition bus_acts :: "nat bus_act list" where
  "bus_acts = [Subscribe 1, Subscribe 2, ParkWorker,
     PublishCall 0 [paid_event], NextEvent 0, PlaceJob 0, PlaceJob 0, NextEvent 0,
     PublishCall 1 [paid_event], NextEvent 1, PlaceJob 1, FinishJob (1, paid_event) (Ok ()),
     FinishInline 1 (Panic ''nil map''), PublishCall 2 [paid_event], NextEvent 2, CloseBus, PlaceJob 2,
     TakeJob, FinishJob (2, paid_event) (Ok ()), LeaveLoop, StopBus, PlaceJob 1]"

definition bus_end :: "nat BusRun" where
  "bus_end = the (bus_run (\<lambda>_. ''*'') bus_acts (bus_started (NewInProcessBus 1 1)))"

lemma bus_end_fields:
  "map_option (\<lambda>r. (br_phase r, br_panicked r, br_log r, inlined r, placing r))
     (bus_run (\<lambda>_. ''*'') bus_acts (bus_started (NewInProcessBus 1 1))) =
   Some (Stopped, [1, 2], [EventHandlerPanicked ''nil map'' paid_event], [], [])"
  by code_simp

lemma bus_demo: "bus_run (\<lambda>_. ''*'') bus_acts (bus_started (NewInProcessBus 1 1)) = Some bus_end"
  "br_phase bus_end = Stopped" "br_panicked bus_end = [1, 2]" "inlined bus_end = []" "placing bus_end = []"
  using bus_end_fields by (auto simp: bus_end_def)

theorem bus_exactly_once_witness:
  "br_phase bus_end = Stopped \<and> br_running bus_end = [] \<and> bus_jobs (br_bus bus_end) = [] \<and>
   br_panicked bus_end = [1, 2] \<and> br_lost bus_end \<noteq> [] \<and>
   mset (due (\<lambda>_. ''*'') bus_acts (bus_started (NewInProcessBus 1 1))) =
     mset (map fst (br_delivered bus_end)) + mset (br_lost bus_end)"
  using bus_exactly_once [OF bus_demo(1)] bus_demo(2-5) by simp

section \<open>The handlers and the dispatcher\<close>

text \<open>On the bus as the service wires it, every event is audited and broadcast; the
  notification of a paid or a failed order comes before. The audit handler stores one entry that
  names the event, its entity and its aggregate, or changes no table.\<close>

theorem event_audited:
  assumes "gorm_ok G view" and "bus_handlers b = (\<lambda>_. [])"
  shows "\<exists>notify. dispatched (subscribeAll now (NewRepositories G) b) e =
      notify @ [AuditHandler now (rp_Audit (NewRepositories G)), NewWSBroadcast] \<and>
    (notify = [] \<longleftrightarrow> \<not> ((\<exists>i. e = EvOrder (OrderPaid i)) \<or> (\<exists>i reason. e = EvOrder (OrderFailed i reason)))) \<and>
    (\<forall>w. case funcHandler_Handle (AuditHandler now (rp_Audit (NewRepositories G))) e w of (r, w') \<Rightarrow>
       (case r of
          Ok _ \<Rightarrow> \<exists>m. view (hw_store w') =
              (view (hw_store w))\<lparr>db_audit_logs := db_audit_logs (view (hw_store w)) @ [m]\<rparr> \<and>
            am_Action m = EventName e \<and> am_EntityID m = AggregateID e \<and> am_ActorID m = None \<and>
            am_Entity m = entityOf (EventName e)
        | _ \<Rightarrow> view (hw_store w') = view (hw_store w)))"
proof -
  have "\<exists>notify. dispatched (subscribeAll now (NewRepositories G) b) e =
      notify @ [AuditHandler now (rp_Audit (NewRepositories G)), NewWSBroadcast] \<and>
    (notify = [] \<longleftrightarrow> \<not> ((\<exists>i. e = EvOrder (OrderPaid i)) \<or> (\<exists>i reason. e = EvOrder (OrderFailed i reason))))"
    unfolding subscribed [OF assms(2)] by auto
  moreover have "case funcHandler_Handle (AuditHandler now (rp_Audit (NewRepositories G))) e w of (r, w') \<Rightarrow>
       (case r of
          Ok _ \<Rightarrow> \<exists>m. view (hw_store w') =
              (view (hw_store w))\<lparr>db_audit_logs := db_audit_logs (view (hw_store w)) @ [m]\<rparr> \<and>
            am_Action m = EventName e \<and> am_EntityID m = AggregateID e \<and> am_ActorID m = None \<and>
            am_Entity m = entityOf (EventName e)
        | _ \<Rightarrow> view (hw_store w') = view (hw_store w))" for w
    using audit_entry [OF assms(1)] by (auto split: prod.split)
  ultimately show ?thesis by blast
qed

theorem event_audited_witness:
  "\<exists>notify. dispatched (subscribeAll 100 (NewRepositories memGorm) (NewInProcessBus 2 8)) (EvOrder (OrderPaid 1)) =
     notify @ [AuditHandler 100 (rp_Audit (NewRepositories memGorm)), NewWSBroadcast] \<and> notify \<noteq> []"
proof -
  have "bus_handlers (NewInProcessBus 2 8 :: DB funcHandler InProcessBus) = (\<lambda>_. [])"
    by (simp add: NewInProcessBus_def)
  from event_audited [OF memGorm_ok this, of 100 "EvOrder (OrderPaid 1)"] show ?thesis by blast
qed

text \<open>C21: when an order is paid or failed and the
  dispatcher not stopped, its handler stores a queued notification for the user
  of that order, of the kind that fits the event, and offers it to the dispatcher; if the order
  cannot be read or the notification not stored, no table changes and nothing is queued.\<close>

theorem order_event_notifies:
  assumes "gorm_ok G view" and "db_ok (view (hw_store w))"
    and "bus_handlers b = (\<lambda>_. [])" and "e = EvOrder (OrderPaid i) \<or> e = EvOrder (OrderFailed i reason)"
    and "funcHandler_Handle (hd (dispatched (subscribeAll now (NewRepositories G) b) e)) e w = (r, w')"
    and "\<not> dsp_closed (hw_dispatcher w)"
  shows "hw_broadcast w' = hw_broadcast w \<and> (case r of
      Ok _ \<Rightarrow> \<exists>m n' row. m \<in> set (db_orders (view (hw_store w))) \<and> om_ID m = i \<and>
        ntf_id n' = nm_ID row \<and> notified n' row = row \<and> nm_Status row = NotifQueued \<and>
        nm_UserID row = Some (om_UserID m) \<and>
        nm_Type row = (if e = EvOrder (OrderPaid i) then TypeOrderConfirmed else TypeOrderFailed) \<and>
        view (hw_store w') = put_notifications (db_notifications (view (hw_store w)) @ [row]) (view (hw_store w)) \<and>
        hw_dispatcher w' = offer n' (hw_dispatcher w)
    | _ \<Rightarrow> view (hw_store w') = view (hw_store w) \<and> hw_dispatcher w' = hw_dispatcher w)"
proof -
  let ?h = "hd (dispatched (subscribeAll now (NewRepositories G) b) e)"
  have agg: "AggregateID e = i" using assms(4) by (auto simp: AggregateID_def OrderEvent_AggregateID_def)
  have ne: "OrderEvent_EventName (OrderPaid 0) \<noteq> OrderEvent_EventName (OrderFailed 0 '''')"
    by (simp add: OrderEvent_EventName_def)
  from assms(4) have h: "?h = NotificationOnOrderPaid (rp_Orders (NewRepositories G)) (rp_Notifications (NewRepositories G)) \<or>
      ?h = NotificationOnOrderFailed (rp_Orders (NewRepositories G)) (rp_Notifications (NewRepositories G))"
    and name: "fh_name ?h = OrderEvent_EventName (OrderPaid 0) \<longleftrightarrow> e = EvOrder (OrderPaid i)"
    using ne by (auto simp: subscribed [OF assms(3)] NotificationOnOrderPaid_def
        NotificationOnOrderFailed_def NewHandler_def)
  from paid_or_failed [OF assms(1,2,5) h assms(6)] show ?thesis unfolding name agg .
qed

definition handler_world :: "DB \<Rightarrow> DB HandlerWorld" where
  "handler_world d = \<lparr>hw_store = d, hw_dispatcher = NewDispatcher 1 4, hw_broadcast = []\<rparr>"

lemma run_paid:
  "is_Ok (fst (funcHandler_Handle (hd (dispatched (subscribeAll 100 (NewRepositories memGorm)
     (NewInProcessBus 2 8)) (EvOrder (OrderPaid 1)))) (EvOrder (OrderPaid 1)) (handler_world demo_db2)))"
proof -
  have row: "om_ID demo_row = 1" by (simp add: demo_row_def)
  have orders: "db_orders demo_db2 = [demo_row]" "db_notifications demo_db2 = []"
    by (simp_all add: demo_db2_def demo_db_def)
  have "fst (orderRepo_FindByID memGorm 1 demo_db2) = Ok (demo_order StatusFulfilled)"
    "snd (orderRepo_FindByID memGorm 1 demo_db2) = demo_db2"
    by (simp_all add: orderRepo_FindByID_def mem_eval row orders demo_row_order)
  then have find: "orderRepo_FindByID memGorm 1 demo_db2 = (Ok (demo_order StatusFulfilled), demo_db2)"
    by (simp add: prod_eq_iff)
  show ?thesis
    by (simp add: subscribed NewInProcessBus_def handler_defs handler_world_def inStore_def find
        AggregateID_def OrderEvent_AggregateID_def demo_order_def inDispatcher_def
        Dispatcher_Enqueue_def NewNotification_def Type_valid_def Channel_valid_def order_subject_def
        NewDispatcher_def Let_def notificationRepo_Create_def notificationToModel_def Record_def orders mem_eval
        split: prod.split)
qed

theorem order_event_notifies_witness:
  "\<exists>w' row n'. funcHandler_Handle (hd (dispatched (subscribeAll 100 (NewRepositories memGorm)
       (NewInProcessBus 2 8)) (EvOrder (OrderPaid 1)))) (EvOrder (OrderPaid 1)) (handler_world demo_db2) = (Ok (), w') \<and>
     nm_UserID row = Some 3 \<and> nm_Type row = TypeOrderConfirmed \<and> db_notifications (hw_store w') = [row] \<and>
     hw_dispatcher w' = offer n' (NewDispatcher 1 4)"
proof -
  let ?h = "hd (dispatched (subscribeAll 100 (NewRepositories memGorm) (NewInProcessBus 2 8)) (EvOrder (OrderPaid 1)))"
  obtain r w' where run: "funcHandler_Handle ?h (EvOrder (OrderPaid 1)) (handler_world demo_db2) = (r, w')" by force
  with run_paid have r: "r = Ok ()" by (cases r) auto
  have b: "bus_handlers (NewInProcessBus 2 8 :: DB funcHandler InProcessBus) = (\<lambda>_. [])"
    by (simp add: NewInProcessBus_def)
  have ok: "db_ok (id (hw_store (handler_world demo_db2)))" by (simp add: handler_world_def demo_db2_ok)
  have queue_open: "\<not> dsp_closed (hw_dispatcher (handler_world demo_db2))"
    by (simp add: handler_world_def NewDispatcher_def)
  from order_event_notifies [OF memGorm_ok ok b disjI1 [OF refl] run queue_open] r run show ?thesis
    by (fastforce simp: handler_world_def demo_db2_def demo_db_def demo_row_def)
qed

text \<open>A worker that processes a queued notification either changes no table or stores, on the
  row of that notification alone, what the sender answered: sent, or failed with the text of the
  error, with one more attempt. If the sender panics nothing is stored.\<close>

theorem notification_outcome:
  assumes "gorm_ok G view" and "ntf_status n = NotifQueued"
    and "\<And>m s r s'. send m s = (r, s') \<Longrightarrow> view s' = view s"
    and "send (Notification_IncrementAttempt n) s = (r, sx)"
    and "Dispatcher_process send (rp_Notifications (NewRepositories G)) n s = (n', s')"
  shows "view s' = view s \<or>
    (view s' = put_notifications (map (\<lambda>x. if nm_ID x = ntf_id n then notified n' x else x)
        (db_notifications (view s))) (view s) \<and> ntf_attempts n' = ntf_attempts n + 1 \<and>
     (case r of Ok _ \<Rightarrow> ntf_status n' = NotifSent \<and> ntf_failureReason n' = ''''
      | Err e \<Rightarrow> ntf_status n' = NotifFailed \<and> ntf_failureReason n' = ErrorText e \<and> ErrorText e \<noteq> ''''
      | Panic p \<Rightarrow> False))"
  by (rule dispatcher.processed_queued [OF assms])

definition queued_demo :: Notification where
  "queued_demo = \<lparr>pending = [], ntf_id = 1, ntf_userID = Some 3, ntf_type = TypeOrderConfirmed,
     ntf_channel = ChannelEmail, ntf_status = NotifQueued, ntf_subject = ''Order #1 confirmed'',
     ntf_payload = '''', ntf_attempts = 0, ntf_failureReason = '''', ntf_createdAt = 0\<rparr>"

definition mail_down :: "Notification \<Rightarrow> (DB, unit) prog" where
  "mail_down n d = (Err (Internal ''notification.send'' ''mail server is down''), d)"

definition mailbox :: DB where
  "mailbox = demo_db\<lparr>db_notifications := [notificationToModel queued_demo]\<rparr>"

theorem notification_outcome_witness:
  "\<exists>n'. db_notifications (snd (Dispatcher_process mail_down (rp_Notifications (NewRepositories memGorm))
       queued_demo mailbox)) = [notified n' (notificationToModel queued_demo)] \<and>
     ntf_status n' = NotifFailed \<and> ntf_attempts n' = 1"
proof -
  let ?run = "Dispatcher_process mail_down (rp_Notifications (NewRepositories memGorm)) queued_demo mailbox"
  have send: "\<And>m s r s'. mail_down m s = (r, s') \<Longrightarrow> id s' = id s" by (simp add: mail_down_def)
  have st: "ntf_status queued_demo = NotifQueued" by (simp add: queued_demo_def)
  obtain n' d where run: "?run = (n', d)" by force
  from notification_outcome [OF memGorm_ok st send mail_down_def run]
  have "d = mailbox \<or> (db_notifications d = [notified n' (notificationToModel queued_demo)] \<and>
      ntf_status n' = NotifFailed \<and> ntf_attempts n' = 1)"
    by (auto simp: mailbox_def demo_db_def queued_demo_def notificationToModel_def)
  moreover have "nm_Status (hd (db_notifications (snd ?run))) = NotifFailed"
    by (simp add: Dispatcher_process_def mail_down_def notification_op_defs Let_def queued_demo_def
        mailbox_def notificationToModel_def demo_db_def notificationRepo_Update_def mem_eval Record_def
        error_ctor_defs)
  ultimately show ?thesis
    using run by (auto simp: mailbox_def queued_demo_def notificationToModel_def NotifQueued_def NotifFailed_def)
qed

end
