(* ===== verification/Http.thy ===== *)
theory Http
  imports Queries Accounts
begin

text \<open>
  What the HTTP handlers share: what they read of a request and what they answer, the texts of
  package strconv and strings they parse, and internal/interfaces/http/httpx/response.go.
\<close>

section \<open>Numbers in texts\<close>

text \<open>
  \<open>strconv.ParseUint(s, 10, 64)\<close> and \<open>strconv.Atoi(s)\<close>; \<open>None\<close> is an error.
\<close>

definition is_digit :: "char \<Rightarrow> bool" where
  "is_digit c \<longleftrightarrow> 48 \<le> (of_char c :: nat) \<and> (of_char c :: nat) \<le> 57"

definition ParseUint :: "string \<Rightarrow> uint64 option" where
  "ParseUint s = (if s \<noteq> '''' \<and> list_all is_digit s \<and> undec s < 2 ^ 64 then Some (of_nat (undec s)) else None)"

definition Atoi :: "string \<Rightarrow> goint option" where
  "Atoi s =
     (let neg = (case s of c # _ \<Rightarrow> c = CHR ''-'' | [] \<Rightarrow> False);
          digits = (case s of c # cs \<Rightarrow> if c = CHR ''-'' \<or> c = CHR ''+'' then cs else s | [] \<Rightarrow> []);
          n = (if neg then - int (undec digits) else int (undec digits))
      in if digits \<noteq> '''' \<and> list_all is_digit digits \<and> in_int64 n then Some (of_int n) else None)"

lemma is_digit_char [simp]: "d < 10 \<Longrightarrow> is_digit (digit_char d)"
  by (simp add: is_digit_def digit_char_def)

lemma dec_all_digits: "list_all is_digit (dec n)"
  using dec_digits [of _ n] by (force simp: list_all_iff)

lemma ParseUint_dec [simp]: "ParseUint (dec (unat i)) = Some i"
proof -
  have "unat i < 2 ^ 64" using unsigned_less [of i, where ?'a = nat] by simp
  then show ?thesis by (simp add: ParseUint_def dec_all_digits)
qed

text \<open>\<open>strings.TrimSpace\<close> and \<open>strings.EqualFold\<close>, on ASCII texts.\<close>

definition is_space :: "char \<Rightarrow> bool" where
  "is_space c \<longleftrightarrow> (of_char c :: nat) \<in> {9, 10, 11, 12, 13, 32}"

definition TrimSpace :: "string \<Rightarrow> string" where
  "TrimSpace s = rev (dropWhile is_space (rev (dropWhile is_space s)))"

definition EqualFold :: "string \<Rightarrow> string \<Rightarrow> bool" where
  "EqualFold s t \<longleftrightarrow> ToLower s = ToLower t"

section \<open>Requests and responses\<close>

text \<open>
  The part of \<open>gin.Context\<close> the program reads: absent headers, parameters and query values are
  empty; the keys set by the middleware are \<open>None\<close> until then.
\<close>

record Context =
  c_Method :: string
  c_Header :: "string \<Rightarrow> string"
  c_Query :: "string \<Rightarrow> string"
  c_Param :: "string \<Rightarrow> string"
  c_ClientIP :: string
  c_Body :: string
  c_requestID :: "string option"
  c_userID :: "uint64 option"
  c_userRole :: "string option"

text \<open>The bodies of the answers: the types of package dto and of the handlers.\<close>

record ProductResponse =
  prs_ID :: uint64
  prs_SKU :: string
  prs_Name :: string
  prs_Description :: string
  prs_PriceAmount :: int64
  prs_Currency :: string
  prs_Active :: bool

record InventoryResponse =
  irs_ProductID :: uint64
  irs_Available :: goint
  irs_Reserved :: goint
  irs_ReorderLevel :: goint

record UserResponse =
  urs_ID :: uint64
  urs_Email :: string
  urs_FullName :: string
  urs_Role :: string

record LoginResponse =
  lrs_Token :: string
  lrs_User :: UserResponse

record OrderItemResponse =
  oir_ProductID :: uint64
  oir_SKU :: string
  oir_Name :: string
  oir_UnitPrice :: int64
  oir_Quantity :: goint
  oir_Subtotal :: int64

record OrderResponse =
  ors_ID :: uint64
  ors_Status :: string
  ors_TotalAmount :: int64
  ors_Currency :: string
  ors_Items :: "OrderItemResponse list"
  ors_CreatedAt :: time

record OrderStatusResponse =
  oss_ID :: uint64
  oss_Status :: string

record AdminOrderResponse =
  aor_ID :: uint64
  aor_UserID :: uint64
  aor_Status :: string
  aor_Items :: "OrderItemResponse list"
  aor_Total :: int64
  aor_Currency :: string
  aor_FailureReason :: string
  aor_CreatedAt :: string

record DailyReportResponse =
  dre_Date :: string
  dre_TotalOrders :: goint
  dre_TotalRevenue :: int64
  dre_Currency :: string
  dre_ByStatus :: "string \<rightharpoonup> goint"

record errorPayload =
  ep_Code :: string
  ep_Message :: string

record 'a pageBody =
  pb_Items :: "'a list"
  pb_Total :: int64
  pb_Number :: goint
  pb_Size :: goint

datatype Body = ErrorBody errorPayload | OrderBody OrderResponse | OrderStatusBody OrderStatusResponse
  | OrdersPage "OrderResponse pageBody" | UserBody UserResponse | LoginBody LoginResponse
  | ProductBody ProductResponse | ProductsPage "ProductResponse pageBody" | InventoryBody InventoryResponse
  | AdminOrdersPage "AdminOrderResponse pageBody" | UpdatedStatusBody uint64 string
  | ReportBody DailyReportResponse | LowStockBody "InventoryResponse list" | NoBody

record Response =
  rs_Status :: nat
  rs_Body :: Body

text \<open>A handler acts on the state of the use cases it calls, and answers or panics.\<close>

type_synonym 's HandlerFunc = "Context \<Rightarrow> ('s, Response) prog"

section \<open>Package httpx\<close>

definition answer :: "nat \<Rightarrow> Body \<Rightarrow> Response" where
  "answer status body = \<lparr>rs_Status = status, rs_Body = body\<rparr>"

definition httpx_OK :: "Body \<Rightarrow> Response" where
  "httpx_OK body = answer 200 body"

definition httpx_Created :: "Body \<Rightarrow> Response" where
  "httpx_Created body = answer 201 body"

definition httpx_Page :: "('a pageBody \<Rightarrow> Body) \<Rightarrow> 'a list \<Rightarrow> int64 \<Rightarrow> goint \<Rightarrow> goint \<Rightarrow> Response" where
  "httpx_Page body items tot number sz =
     answer 200 (body \<lparr>pb_Items = items, pb_Total = tot, pb_Number = number, pb_Size = sz\<rparr>)"

definition statusFor :: "Kind \<Rightarrow> nat" where
  "statusFor kind = (case kind of
      KindValidation \<Rightarrow> 400
    | KindNotFound \<Rightarrow> 404
    | KindConflict \<Rightarrow> 409
    | KindUnauthorized \<Rightarrow> 401
    | KindForbidden \<Rightarrow> 403
    | KindOutOfStock \<Rightarrow> 409
    | KindPayment \<Rightarrow> 402
    | KindUnavailable \<Rightarrow> 503
    | KindInternal \<Rightarrow> 500)"

text \<open>\<open>http.StatusText\<close> of the statuses above.\<close>

definition StatusText :: "nat \<Rightarrow> string" where
  "StatusText status = (if status = 400 then ''Bad Request'' else if status = 401 then ''Unauthorized''
     else if status = 402 then ''Payment Required'' else if status = 403 then ''Forbidden''
     else if status = 404 then ''Not Found'' else if status = 409 then ''Conflict''
     else if status = 500 then ''Internal Server Error'' else if status = 503 then ''Service Unavailable'' else '''')"

definition httpx_Error :: "goerror \<Rightarrow> Response" where
  "httpx_Error err =
     (let status = statusFor (KindOf err);
          code = (case AsError err of Some e \<Rightarrow> if errCode e \<noteq> '''' then errCode e else kind_string (KindOf err)
            | None \<Rightarrow> kind_string (KindOf err));
          message = (case AsError err of Some e \<Rightarrow> if errMessage e \<noteq> '''' then errMessage e else StatusText status
            | None \<Rightarrow> StatusText status)
      in answer status (ErrorBody \<lparr>ep_Code = code, ep_Message = message\<rparr>))"

text \<open>\<open>v, err := m(); if err != nil { httpx.Error(c, err); return }; f(v)\<close>, and the same with
  \<open>c.ShouldBindJSON\<close>, whose result is an argument.\<close>

definition orError :: "('s, 'a) prog \<Rightarrow> ('a \<Rightarrow> ('s, Response) prog) \<Rightarrow> ('s, Response) prog" where
  "orError m f s = (case m s of
      (Ok a, s') \<Rightarrow> f a s'
    | (Err e, s') \<Rightarrow> (Ok (httpx_Error e), s')
    | (Panic p, s') \<Rightarrow> (Panic p, s'))"

definition ShouldBindJSON :: "(string \<Rightarrow> 'r outcome) \<Rightarrow> Context \<Rightarrow> (goerror \<Rightarrow> goerror) \<Rightarrow> 'r outcome" where
  "ShouldBindJSON bind c wrap = (case bind (c_Body c) of
      Ok req \<Rightarrow> Ok req | Err e \<Rightarrow> Err (wrap e) | Panic p \<Rightarrow> Panic p)"

section \<open>Package dto\<close>

definition NewProductResponse :: "Product \<Rightarrow> ProductResponse" where
  "NewProductResponse p = \<lparr>prs_ID = prod_id p, prs_SKU = prod_sku p, prs_Name = prod_name p,
     prs_Description = prod_description p, prs_PriceAmount = m_amount (prod_price p),
     prs_Currency = m_currency (prod_price p), prs_Active = prod_active p\<rparr>"

definition NewProductResponses :: "Product list \<Rightarrow> ProductResponse list" where
  "NewProductResponses items = map NewProductResponse items"

definition NewInventoryResponse :: "Inventory \<Rightarrow> InventoryResponse" where
  "NewInventoryResponse i = \<lparr>irs_ProductID = inv_productID i, irs_Available = inv_available i,
     irs_Reserved = inv_reserved i, irs_ReorderLevel = inv_reorderLevel i\<rparr>"

definition NewUserResponse :: "User \<Rightarrow> UserResponse" where
  "NewUserResponse u = \<lparr>urs_ID = usr_id u, urs_Email = usr_email u, urs_FullName = usr_fullName u,
     urs_Role = usr_role u\<rparr>"

section \<open>Pages and ids\<close>

text \<open>\<open>pageFrom\<close> of the order handler.\<close>

definition pageFrom :: "Context \<Rightarrow> Page" where
  "pageFrom c =
     (let number = (case Atoi (c_Query c ''page'') of Some v \<Rightarrow> if 0 <s v then v else 1 | None \<Rightarrow> 1);
          sz = (case Atoi (c_Query c ''size'') of Some v \<Rightarrow> if 0 <s v then v else 20 | None \<Rightarrow> 20)
      in \<lparr>pg_Number = number, pg_Size = (if 100 <s sz then 100 else sz)\<rparr>)"

text \<open>\<open>productPageFrom\<close> of the product handler, and \<open>parsePage\<close> of the admin handler, which
  looks at the text only when there is one.\<close>

definition productPageFrom :: "Context \<Rightarrow> Page" where
  "productPageFrom c =
     (let number = (case Atoi (c_Query c ''page'') of Some v \<Rightarrow> if 0 <s v then v else 1 | None \<Rightarrow> 1);
          sz = (case Atoi (c_Query c ''size'') of Some v \<Rightarrow> if 0 <s v then v else 20 | None \<Rightarrow> 20)
      in \<lparr>pg_Number = number, pg_Size = (if 100 <s sz then 100 else sz)\<rparr>)"

definition parsePage :: "Context \<Rightarrow> Page" where
  "parsePage c =
     (let number = (if c_Query c ''page'' \<noteq> '''' then
            (case Atoi (c_Query c ''page'') of Some v \<Rightarrow> if 0 <s v then v else 1 | None \<Rightarrow> 1) else 1);
          sz = (if c_Query c ''size'' \<noteq> '''' then
            (case Atoi (c_Query c ''size'') of Some v \<Rightarrow> if 0 <s v then v else 20 | None \<Rightarrow> 20) else 20)
      in \<lparr>pg_Number = number, pg_Size = (if 100 <s sz then 100 else sz)\<rparr>)"

definition orderIDFrom :: "Context \<Rightarrow> uint64 outcome" where
  "orderIDFrom c = (case ParseUint (c_Param c ''id'') of
      Some i \<Rightarrow> if i = 0 then Err (Validation ''order.invalid_id'' ''order id must be a positive integer'') else Ok i
    | None \<Rightarrow> Err (Validation ''order.invalid_id'' ''order id must be a positive integer''))"

definition productIDFrom :: "Context \<Rightarrow> uint64 outcome" where
  "productIDFrom c = (case ParseUint (c_Param c ''id'') of
      Some i \<Rightarrow> if i = 0 then Err (Validation ''product.invalid_id'' ''invalid product id'') else Ok i
    | None \<Rightarrow> Err (Validation ''product.invalid_id'' ''invalid product id''))"

definition parseID :: "string \<Rightarrow> uint64 outcome" where
  "parseID raw = (case ParseUint raw of
      Some i \<Rightarrow> if i = 0 then Err (Validation ''request.invalid_id'' ''invalid resource id'') else Ok i
    | None \<Rightarrow> Err (Validation ''request.invalid_id'' ''invalid resource id''))"

definition parseUintParam :: "string \<Rightarrow> uint64 outcome" where
  "parseUintParam raw = (case ParseUint raw of
      Some i \<Rightarrow> if i = 0 then Err (Validation ''admin.invalid_id'' ''invalid order id'') else Ok i
    | None \<Rightarrow> Err (Validation ''admin.invalid_id'' ''invalid order id''))"

lemmas id_parser_defs = orderIDFrom_def productIDFrom_def parseID_def parseUintParam_def

section \<open>What the shared parts guarantee\<close>

text \<open>The three page parsers agree, and their pages are in range.\<close>

lemma Atoi_empty [simp]: "Atoi '''' = None"
  by (simp add: Atoi_def)

lemma page_parsers_agree: "productPageFrom c = pageFrom c" "parsePage c = pageFrom c"
  by (auto simp: productPageFrom_def parsePage_def pageFrom_def Let_def)

lemma pageFrom_range:
  "0 < sint (pg_Number (pageFrom c)) \<and> 0 < sint (pg_Size (pageFrom c)) \<and> sint (pg_Size (pageFrom c)) \<le> 100"
  by (auto simp: pageFrom_def Let_def word_sless_alt split: option.splits)

text \<open>\<open>orError\<close> by the outcome of its first call.\<close>

lemma orError_Ok_iff:
  "orError m f s = (Ok resp, s') \<longleftrightarrow>
     (\<exists>a s1. m s = (Ok a, s1) \<and> f a s1 = (Ok resp, s')) \<or> (\<exists>e. m s = (Err e, s') \<and> resp = httpx_Error e)"
  by (auto simp: orError_def split: prod.splits outcome.splits)

text \<open>An error never gets a status of success.\<close>

lemma error_status: "400 \<le> rs_Status (httpx_Error err)"
  by (simp add: httpx_Error_def statusFor_def answer_def Let_def split: Kind.splits)

lemma answer_simps [simp]:
  "rs_Status (httpx_OK b) = 200" "rs_Body (httpx_OK b) = b"
  "rs_Status (httpx_Created b) = 201" "rs_Body (httpx_Created b) = b"
  "rs_Status (httpx_Error err) = statusFor (KindOf err)" "rs_Status (httpx_Page pb items tot number sz) = 200"
  by (simp_all add: httpx_OK_def httpx_Created_def httpx_Error_def httpx_Page_def answer_def Let_def)

lemma statusFor_not_2xx [simp]: "statusFor k \<noteq> 200" "statusFor k \<noteq> 201" "200 \<noteq> statusFor k" "201 \<noteq> statusFor k"
  by (cases k; simp add: statusFor_def)+

end
