(* ===== verification/Middleware.thy ===== *)
theory Middleware
  imports Http
begin

text \<open>
  internal/interfaces/http/middleware/middleware.go. A middleware takes the rest of the chain
  (what \<open>c.Next()\<close> runs) and a request; one that aborts answers without it. The logger and the
  metrics only write output.
\<close>

text \<open>
  The headers of the answer are a part of the state of the outer handlers, since they stay when
  the rest of the chain panics.
\<close>

type_synonym Headers = "string \<rightharpoonup> string"

definition setHeader :: "string \<Rightarrow> string \<Rightarrow> (Headers \<times> 's, 'a) prog \<Rightarrow> (Headers \<times> 's, 'a) prog" where
  "setHeader k v m ws = m ((fst ws)(k \<mapsto> v), snd ws)"

definition RequestID :: "string \<Rightarrow> (Headers \<times> 's) HandlerFunc \<Rightarrow> (Headers \<times> 's) HandlerFunc" where
  "RequestID uuid next_handler c =
     (let i = (if c_Header c ''X-Request-ID'' = '''' then uuid else c_Header c ''X-Request-ID'') in
      setHeader ''X-Request-ID'' i (next_handler (c\<lparr>c_requestID := Some i\<rparr>)))"

definition RequestIDFrom :: "Context \<Rightarrow> string" where
  "RequestIDFrom c = (case c_requestID c of Some i \<Rightarrow> i | None \<Rightarrow> '''')"

definition Recovery :: "'s HandlerFunc \<Rightarrow> 's HandlerFunc" where
  "Recovery next_handler c s = (case next_handler c s of
      (Panic _, s') \<Rightarrow> (Ok (answer 500 (ErrorBody \<lparr>ep_Code = ''internal_error'',
         ep_Message = ''internal server error''\<rparr>)), s')
    | res \<Rightarrow> res)"

definition CORS :: "(Headers \<times> 's) HandlerFunc \<Rightarrow> (Headers \<times> 's) HandlerFunc" where
  "CORS next_handler c =
     setHeader ''Access-Control-Allow-Origin'' ''*''
     (setHeader ''Access-Control-Allow-Methods'' ''GET,POST,PUT,PATCH,DELETE,OPTIONS''
     (setHeader ''Access-Control-Allow-Headers'' ''Authorization,Content-Type,X-Request-ID,Idempotency-Key''
       (if c_Method c = ''OPTIONS'' then return (answer 204 NoBody) else next_handler c)))"

section \<open>Who asks\<close>

type_synonym TokenVerifier = "string \<Rightarrow> TokenClaims outcome"

definition Auth :: "TokenVerifier \<Rightarrow> 's HandlerFunc \<Rightarrow> 's HandlerFunc" where
  "Auth verify next_handler c =
     (let header = c_Header c ''Authorization'' in
      if length header \<le> length ''Bearer '' \<or> \<not> EqualFold (take (length ''Bearer '') header) ''Bearer ''
      then return (httpx_Error (Unauthorized ''unauthorized'' ''missing or malformed authorization header''))
      else (case verify (TrimSpace (drop (length ''Bearer '') header)) of
          Err _ \<Rightarrow> return (httpx_Error (Unauthorized ''unauthorized'' ''invalid or expired token''))
        | Panic p \<Rightarrow> lift (Panic p)
        | Ok claims \<Rightarrow>
            next_handler (c\<lparr>c_userID := Some (tc_UserID claims), c_userRole := Some (tc_Role claims)\<rparr>)))"

definition UserIDFrom :: "Context \<Rightarrow> uint64 option" where
  "UserIDFrom c = c_userID c"

definition RoleFrom :: "Context \<Rightarrow> string" where
  "RoleFrom c = (case c_userRole c of Some role \<Rightarrow> role | None \<Rightarrow> '''')"

definition RequireAdmin :: "'s HandlerFunc \<Rightarrow> 's HandlerFunc" where
  "RequireAdmin next_handler c =
     (if RoleFrom c \<noteq> ''admin'' then return (httpx_Error (Forbidden ''forbidden'' ''admin role required''))
      else next_handler c)"

text \<open>A request is authenticated as \<open>claims\<close> when its header carries a token with them.\<close>

definition bearer :: "TokenVerifier \<Rightarrow> Context \<Rightarrow> TokenClaims option" where
  "bearer verify c =
     (let header = c_Header c ''Authorization'' in
      if 7 < length header \<and> EqualFold (take 7 header) ''Bearer ''
      then (case verify (TrimSpace (drop 7 header)) of Ok claims \<Rightarrow> Some claims | _ \<Rightarrow> None)
      else None)"

definition signedIn :: "TokenClaims \<Rightarrow> Context \<Rightarrow> Context" where
  "signedIn claims c = c\<lparr>c_userID := Some (tc_UserID claims), c_userRole := Some (tc_Role claims)\<rparr>"

lemma bearer_length: "length ''Bearer '' = 7"
  by simp

lemma Auth_cases:
  assumes "Auth verify next_handler c s = (r, s')"
  obtains (passed) claims where "bearer verify c = Some claims" "next_handler (signedIn claims c) s = (r, s')"
    | (refused) resp where "bearer verify c = None" "r = Ok resp" "rs_Status resp = 401" "s' = s"
    | (broken) p where "bearer verify c = None" "r = Panic p" "s' = s"
  using assms unfolding Auth_def bearer_length
  by (auto simp: bearer_def signedIn_def Let_def lift_def statusFor_def KindOf_def
      error_ctor_defs split: if_splits outcome.splits)

lemma signedIn_from [simp]:
  "UserIDFrom (signedIn claims c) = Some (tc_UserID claims)" "RoleFrom (signedIn claims c) = tc_Role claims"
  "c_Param (signedIn claims c) = c_Param c" "c_Query (signedIn claims c) = c_Query c"
  "c_Body (signedIn claims c) = c_Body c" "c_Header (signedIn claims c) = c_Header c"
  by (simp_all add: signedIn_def UserIDFrom_def RoleFrom_def)

lemma RequireAdmin_cases:
  assumes "RequireAdmin next_handler c s = (r, s')"
  obtains (passed) "RoleFrom c = ''admin''" "next_handler c s = (r, s')"
    | (refused) resp where "RoleFrom c \<noteq> ''admin''" "r = Ok resp" "rs_Status resp = 403" "s' = s"
  using assms
  by (auto simp: RequireAdmin_def statusFor_def KindOf_def error_ctor_defs split: if_splits)

section \<open>The rate limiter\<close>

text \<open>
  One limiter of golang.org/x/time/rate per client address. That package is a parameter: a new
  limiter, and \<open>Allow\<close> at a time.
\<close>

record 'l RateLib =
  rate_new :: 'l
  rate_allow :: "time \<Rightarrow> 'l \<Rightarrow> bool \<times> 'l"

record 'l RateTable =
  rt_entries :: "string \<rightharpoonup> 'l \<times> time"
  rt_lastEvict :: time

definition NewRateTable :: "time \<Rightarrow> 'l RateTable" where
  "NewRateTable now = \<lparr>rt_entries = Map.empty, rt_lastEvict = now\<rparr>"

text \<open>The section under the lock: the eviction, then the client's entry.\<close>

definition evict :: "duration \<Rightarrow> time \<Rightarrow> 'l RateTable \<Rightarrow> 'l RateTable" where
  "evict ttl now t =
     (if sint ttl \<le> now - rt_lastEvict t
      then \<lparr>rt_entries = (\<lambda>k. case rt_entries t k of
              Some (l, seen) \<Rightarrow> if sint ttl \<le> now - seen then None else Some (l, seen)
            | None \<Rightarrow> None),
            rt_lastEvict = now\<rparr>
      else t)"

definition admit :: "'l RateLib \<Rightarrow> duration \<Rightarrow> time \<Rightarrow> string \<Rightarrow> 'l RateTable \<Rightarrow> bool \<times> 'l RateTable" where
  "admit lib ttl now client t =
     (let t1 = evict ttl now t;
          l = (case rt_entries t1 client of Some (l, _) \<Rightarrow> l | None \<Rightarrow> rate_new lib)
      in case rate_allow lib now l of (allowed, l') \<Rightarrow>
        (allowed, t1\<lparr>rt_entries := (rt_entries t1)(client \<mapsto> (l', now))\<rparr>))"

definition RateLimit :: "'l RateLib \<Rightarrow> duration \<Rightarrow> time \<Rightarrow> 's HandlerFunc \<Rightarrow> ('l RateTable \<times> 's) HandlerFunc" where
  "RateLimit lib ttl now next_handler c ts =
     (case admit lib ttl now (c_ClientIP c) (fst ts) of (allowed, t') \<Rightarrow>
        if \<not> allowed
        then (Ok (answer 429 (ErrorBody \<lparr>ep_Code = ''rate_limited'', ep_Message = ''too many requests''\<rparr>)),
              (t', snd ts))
        else (case next_handler c (snd ts) of (r, s') \<Rightarrow> (r, (t', s'))))"

text \<open>A run of requests, and the requests of one client against a limiter of its own.\<close>

fun admit_run :: "'l RateLib \<Rightarrow> duration \<Rightarrow> (time \<times> string) list \<Rightarrow> 'l RateTable \<Rightarrow> bool list \<times> 'l RateTable" where
  "admit_run lib ttl [] t = ([], t)"
| "admit_run lib ttl ((now, client) # rest) t =
     (case admit lib ttl now client t of (allowed, t') \<Rightarrow>
      case admit_run lib ttl rest t' of (bs, t'') \<Rightarrow> (allowed # bs, t''))"

fun alone :: "'l RateLib \<Rightarrow> time list \<Rightarrow> 'l \<Rightarrow> bool list" where
  "alone lib [] l = []"
| "alone lib (now # rest) l = (case rate_allow lib now l of (allowed, l') \<Rightarrow> allowed # alone lib rest l')"

definition limiter_of :: "'l RateLib \<Rightarrow> 'l RateTable \<Rightarrow> string \<Rightarrow> 'l" where
  "limiter_of lib t client = (case rt_entries t client of Some (l, _) \<Rightarrow> l | None \<Rightarrow> rate_new lib)"

text \<open>Until the next eviction every client has a limiter of its own.\<close>

lemma admit_run_alone:
  assumes "\<forall>(now, client) \<in> set reqs. now - rt_lastEvict t < sint ttl"
    and "admit_run lib ttl reqs t = (bs, t')"
  shows "map snd (filter (\<lambda>(req, _). snd req = client) (zip reqs bs)) =
    alone lib (map fst (filter (\<lambda>req. snd req = client) reqs)) (limiter_of lib t client)"
  using assms
proof (induction reqs arbitrary: t bs)
  case Nil
  then show ?case by simp
next
  case (Cons req rest)
  obtain now k where req: "req = (now, k)" by force
  obtain allowed l' where a: "rate_allow lib now (limiter_of lib t k) = (allowed, l')" by force
  let ?t1 = "t\<lparr>rt_entries := (rt_entries t)(k \<mapsto> (l', now))\<rparr>"
  have adm: "admit lib ttl now k t = (allowed, ?t1)"
    using Cons.prems(1) a req by (simp add: admit_def evict_def limiter_of_def Let_def)
  obtain bs1 where bs: "admit_run lib ttl rest ?t1 = (bs1, t')" "bs = allowed # bs1"
    using Cons.prems(2) by (auto simp: req adm split: prod.splits)
  have "\<forall>(now, client) \<in> set rest. now - rt_lastEvict ?t1 < sint ttl" using Cons.prems(1) by auto
  from Cons.IH [OF this bs(1)] a show ?case
    by (cases "k = client") (simp_all add: req bs(2) limiter_of_def)
qed

text \<open>The table keeps no entry for longer than two periods.\<close>

definition entries_recent :: "duration \<Rightarrow> time \<Rightarrow> 'l RateTable \<Rightarrow> bool" where
  "entries_recent ttl now t \<longleftrightarrow> rt_lastEvict t \<le> now \<and> now - rt_lastEvict t < sint ttl \<and>
     (\<forall>k l seen. rt_entries t k = Some (l, seen) \<longrightarrow> rt_lastEvict t - seen < sint ttl)"

lemma admit_recent:
  assumes "entries_recent ttl before t" and "before \<le> now" and "0 < sint ttl"
    and "admit lib ttl now client t = (allowed, t')"
  shows "entries_recent ttl now t'"
proof -
  obtain l' where t': "t' = (evict ttl now t)\<lparr>rt_entries := (rt_entries (evict ttl now t))(client \<mapsto> (l', now))\<rparr>"
    using assms(4) by (auto simp: admit_def Let_def split: prod.splits)
  show ?thesis
    using assms(1-3) unfolding t'
    by (auto simp: entries_recent_def evict_def split: option.splits if_splits)
qed

end
