(* ===== verification/Handlers.thy ===== *)
theory Handlers
  imports Middleware PlaceOrder CancelOrder Catalogue
begin

text \<open>
  internal/interfaces/http/handler: the handlers of orders, users, sessions, products and the
  administration. A handler's struct holds the use cases it calls. What \<open>c.ShouldBindJSON\<close> makes
  of a body is an argument per request type (gin and its validator are not part of the
  repository), as is a fresh UUID; the struct tags it checks are the predicates \<open>..._valid\<close>.
\<close>

section \<open>Orders\<close>

record PlaceOrderItemRequest =
  pir_ProductID :: uint64
  pir_Quantity :: goint

record PlaceOrderRequest =
  por_Items :: "PlaceOrderItemRequest list"

definition PlaceOrderRequest_valid :: "PlaceOrderRequest \<Rightarrow> bool" where
  "PlaceOrderRequest_valid req \<longleftrightarrow> por_Items req \<noteq> [] \<and>
     list_all (\<lambda>line. pir_ProductID line \<noteq> 0 \<and> 0 <s pir_Quantity line) (por_Items req)"

record 's OrderHandler =
  oh_place :: "PlaceOrderInput \<Rightarrow> ('s, Order) prog"
  oh_cancel :: "CancelOrderInput \<Rightarrow> ('s, Order) prog"
  oh_get :: "uint64 \<Rightarrow> ('s, Order) prog"
  oh_status :: "uint64 \<Rightarrow> ('s, OrderStatus) prog"
  oh_listByUser :: "uint64 \<Rightarrow> Page \<Rightarrow> ('s, Order list \<times> int64) prog"

definition toOrderItemResponse :: "Item \<Rightarrow> OrderItemResponse" where
  "toOrderItemResponse item = \<lparr>oir_ProductID = item_productID item, oir_SKU = item_sku item,
     oir_Name = item_name item, oir_UnitPrice = m_amount (item_unitPrice item),
     oir_Quantity = item_quantity item, oir_Subtotal = m_amount (Item_Subtotal item)\<rparr>"

definition toUserOrderResponse :: "Order \<Rightarrow> OrderResponse" where
  "toUserOrderResponse ord = \<lparr>ors_ID = ord_id ord, ors_Status = ord_status ord,
     ors_TotalAmount = m_amount (ord_total ord), ors_Currency = m_currency (ord_total ord),
     ors_Items = map toOrderItemResponse (ord_items ord), ors_CreatedAt = ord_createdAt ord\<rparr>"

definition auth_required :: goerror where
  "auth_required = Unauthorized ''unauthorized'' ''authentication required''"

definition order_forbidden :: goerror where
  "order_forbidden = Forbidden ''order.forbidden'' ''you do not have access to this order''"

definition placeInput :: "uint64 \<Rightarrow> string \<Rightarrow> PlaceOrderRequest \<Rightarrow> PlaceOrderInput" where
  "placeInput userID key req = \<lparr>poin_UserID = userID, poin_IdempotencyKey = key,
     poin_Items = map (\<lambda>line. \<lparr>poi_ProductID = pir_ProductID line, poi_Quantity = pir_Quantity line\<rparr>) (por_Items req)\<rparr>"

definition Order_Place :: "(string \<Rightarrow> PlaceOrderRequest outcome) \<Rightarrow> string \<Rightarrow> 's OrderHandler \<Rightarrow> 's HandlerFunc" where
  "Order_Place bind uuid h c =
     (case UserIDFrom c of
        None \<Rightarrow> return (httpx_Error auth_required)
      | Some userID \<Rightarrow>
          orError (lift (ShouldBindJSON bind c (\<lambda>err. Validation ''order.invalid_request'' (ErrorText err)))) (\<lambda>req.
          let key = (if c_Header c ''Idempotency-Key'' = '''' then uuid else c_Header c ''Idempotency-Key'') in
          orError (oh_place h (placeInput userID key req)) (\<lambda>ord.
          return (httpx_Created (OrderBody (toUserOrderResponse ord))))))"

definition Order_List :: "'s OrderHandler \<Rightarrow> 's HandlerFunc" where
  "Order_List h c =
     (case UserIDFrom c of
        None \<Rightarrow> return (httpx_Error auth_required)
      | Some userID \<Rightarrow>
          (let page = pageFrom c in
           orError (oh_listByUser h userID page) (\<lambda>(orders, tot).
           return (httpx_Page OrdersPage (map toUserOrderResponse orders) tot (pg_Number page) (pg_Size page)))))"

text \<open>The first half of \<open>Get\<close>, \<open>Cancel\<close> and \<open>Status\<close>: the order of the path, for its owner or an
  admin.\<close>

definition ownOrder :: "'s OrderHandler \<Rightarrow> Context \<Rightarrow> (uint64 \<Rightarrow> Order \<Rightarrow> ('s, Response) prog) \<Rightarrow> ('s, Response) prog" where
  "ownOrder h c f =
     (case UserIDFrom c of
        None \<Rightarrow> return (httpx_Error auth_required)
      | Some userID \<Rightarrow>
          orError (lift (orderIDFrom c)) (\<lambda>i.
          orError (oh_get h i) (\<lambda>ord.
            if ord_userID ord \<noteq> userID \<and> RoleFrom c \<noteq> ''admin'' then return (httpx_Error order_forbidden)
            else f i ord)))"

definition Order_Get :: "'s OrderHandler \<Rightarrow> 's HandlerFunc" where
  "Order_Get h c = ownOrder h c (\<lambda>_ ord. return (httpx_OK (OrderBody (toUserOrderResponse ord))))"

definition HTTP_Order_Cancel :: "'s OrderHandler \<Rightarrow> 's HandlerFunc" where
  "HTTP_Order_Cancel h c = ownOrder h c (\<lambda>i _.
     orError (oh_cancel h \<lparr>coin_OrderID = i, coin_Reason = ''cancelled by user''\<rparr>) (\<lambda>cancelled.
     return (httpx_OK (OrderBody (toUserOrderResponse cancelled)))))"

definition Order_Status :: "'s OrderHandler \<Rightarrow> 's HandlerFunc" where
  "Order_Status h c = ownOrder h c (\<lambda>_ ord.
     return (httpx_OK (OrderStatusBody \<lparr>oss_ID = ord_id ord, oss_Status = ord_status ord\<rparr>)))"

section \<open>Users and sessions\<close>

record RegisterRequest =
  rr_Email :: string
  rr_Password :: string
  rr_FullName :: string
  rr_Role :: string

record LoginRequest =
  lr_Email :: string
  lr_Password :: string

record UpdateUserRequest =
  uur_FullName :: string

text \<open>The tags of the role, \<open>omitempty,oneof=customer admin\<close>, and of the password, \<open>min=8\<close>.\<close>

definition RegisterRequest_valid :: "RegisterRequest \<Rightarrow> bool" where
  "RegisterRequest_valid req \<longleftrightarrow> rr_Email req \<noteq> '''' \<and> 8 \<le> length (rr_Password req) \<and>
     rr_FullName req \<noteq> '''' \<and> rr_Role req \<in> {'''', ''customer'', ''admin''}"

definition bad_request :: "goerror \<Rightarrow> goerror" where
  "bad_request err = Validation ''request.invalid'' (ErrorText err)"

definition registerInput :: "RegisterRequest \<Rightarrow> string \<Rightarrow> RegisterUserInput" where
  "registerInput req role = \<lparr>ruin_Email = rr_Email req, ruin_Password = rr_Password req,
     ruin_FullName = rr_FullName req, ruin_Role = role\<rparr>"

record 's UserHandler =
  uh_register :: "RegisterUserInput \<Rightarrow> ('s, User) prog"
  uh_update :: "uint64 \<Rightarrow> string \<Rightarrow> ('s, User option) prog"
  uh_get :: "uint64 \<Rightarrow> ('s, User) prog"

definition HTTP_User_Create :: "(string \<Rightarrow> RegisterRequest outcome) \<Rightarrow> 's UserHandler \<Rightarrow> 's HandlerFunc" where
  "HTTP_User_Create bind h c =
     orError (lift (ShouldBindJSON bind c bad_request)) (\<lambda>req.
     orError (uh_register h (registerInput req (rr_Role req))) (\<lambda>u.
     return (httpx_Created (UserBody (NewUserResponse u)))))"

definition HTTP_User_Get :: "'s UserHandler \<Rightarrow> 's HandlerFunc" where
  "HTTP_User_Get h c =
     orError (lift (parseID (c_Param c ''id''))) (\<lambda>i.
     orError (uh_get h i) (\<lambda>u.
     return (httpx_OK (UserBody (NewUserResponse u)))))"

text \<open>A nil pointer where a response is built is a panic.\<close>

definition nonNil :: "'a option \<Rightarrow> ('a \<Rightarrow> ('s, Response) prog) \<Rightarrow> ('s, Response) prog" where
  "nonNil p f = (case p of Some a \<Rightarrow> f a | None \<Rightarrow> lift (Panic ''nil pointer dereference''))"

definition HTTP_User_Update :: "(string \<Rightarrow> UpdateUserRequest outcome) \<Rightarrow> 's UserHandler \<Rightarrow> 's HandlerFunc" where
  "HTTP_User_Update bind h c =
     orError (lift (parseID (c_Param c ''id''))) (\<lambda>i.
     orError (lift (ShouldBindJSON bind c bad_request)) (\<lambda>req.
     orError (uh_update h i (uur_FullName req)) (\<lambda>updated.
     nonNil updated (\<lambda>u. return (httpx_OK (UserBody (NewUserResponse u)))))))"

record 's AuthHandler =
  ah_register :: "RegisterUserInput \<Rightarrow> ('s, User) prog"
  ah_login :: "string \<Rightarrow> string \<Rightarrow> ('s, string \<times> User) prog"

definition Auth_Register :: "(string \<Rightarrow> RegisterRequest outcome) \<Rightarrow> 's AuthHandler \<Rightarrow> 's HandlerFunc" where
  "Auth_Register bind h c =
     orError (lift (ShouldBindJSON bind c bad_request)) (\<lambda>req.
     let role = (if rr_Role req = '''' then RoleCustomer else rr_Role req) in
     orError (ah_register h (registerInput req role)) (\<lambda>u.
     return (httpx_Created (UserBody (NewUserResponse u)))))"

definition Auth_Login :: "(string \<Rightarrow> LoginRequest outcome) \<Rightarrow> 's AuthHandler \<Rightarrow> 's HandlerFunc" where
  "Auth_Login bind h c =
     orError (lift (ShouldBindJSON bind c bad_request)) (\<lambda>req.
     orError (ah_login h (lr_Email req) (lr_Password req)) (\<lambda>(token, u).
     return (httpx_OK (LoginBody \<lparr>lrs_Token = token, lrs_User = NewUserResponse u\<rparr>))))"

section \<open>Products\<close>

record CreateProductRequest =
  cpr_SKU :: string
  cpr_Name :: string
  cpr_Description :: string
  cpr_PriceAmount :: int64
  cpr_Currency :: string
  cpr_InitialStock :: goint
  cpr_ReorderLevel :: goint

record UpdateProductRequest =
  upr_Name :: "string option"
  upr_Description :: "string option"
  upr_PriceAmount :: "int64 option"
  upr_Currency :: "string option"
  upr_Active :: "bool option"

record 's ProductHandler =
  ph_create :: "CreateProductInput \<Rightarrow> ('s, Product) prog"
  ph_update :: "uint64 \<Rightarrow> UpdateProductInput \<Rightarrow> ('s, Product option) prog"
  ph_list :: "Page \<Rightarrow> ('s, Product list \<times> int64) prog"
  ph_get :: "uint64 \<Rightarrow> ('s, Product) prog"
  ph_getInventory :: "uint64 \<Rightarrow> ('s, Inventory) prog"

definition bad_product :: "goerror \<Rightarrow> goerror" where
  "bad_product err = Validation ''product.invalid_request'' (ErrorText err)"

definition Product_List :: "'s ProductHandler \<Rightarrow> 's HandlerFunc" where
  "Product_List h c =
     (let page = productPageFrom c in
      orError (ph_list h page) (\<lambda>(items, tot).
      return (httpx_Page ProductsPage (NewProductResponses items) tot (pg_Number page) (pg_Size page))))"

definition Product_Get :: "'s ProductHandler \<Rightarrow> 's HandlerFunc" where
  "Product_Get h c =
     orError (lift (productIDFrom c)) (\<lambda>i.
     orError (ph_get h i) (\<lambda>p.
     return (httpx_OK (ProductBody (NewProductResponse p)))))"

definition createInput :: "CreateProductRequest \<Rightarrow> CreateProductInput" where
  "createInput req = \<lparr>cpin_SKU = cpr_SKU req, cpin_Name = cpr_Name req,
     cpin_Description = cpr_Description req, cpin_PriceAmount = cpr_PriceAmount req,
     cpin_Currency = cpr_Currency req, cpin_InitialStock = cpr_InitialStock req,
     cpin_ReorderLevel = cpr_ReorderLevel req\<rparr>"

definition Product_Create :: "(string \<Rightarrow> CreateProductRequest outcome) \<Rightarrow> 's ProductHandler \<Rightarrow> 's HandlerFunc" where
  "Product_Create bind h c =
     orError (lift (ShouldBindJSON bind c bad_product)) (\<lambda>req.
     orError (ph_create h (createInput req)) (\<lambda>p.
     return (httpx_Created (ProductBody (NewProductResponse p)))))"

definition updateInput :: "UpdateProductRequest \<Rightarrow> UpdateProductInput" where
  "updateInput req = \<lparr>upin_Name = upr_Name req, upin_Description = upr_Description req,
     upin_PriceAmount = upr_PriceAmount req, upin_Currency = upr_Currency req, upin_Active = upr_Active req\<rparr>"

definition Product_Update :: "(string \<Rightarrow> UpdateProductRequest outcome) \<Rightarrow> 's ProductHandler \<Rightarrow> 's HandlerFunc" where
  "Product_Update bind h c =
     orError (lift (productIDFrom c)) (\<lambda>i.
     orError (lift (ShouldBindJSON bind c bad_product)) (\<lambda>req.
     orError (ph_update h i (updateInput req)) (\<lambda>updated.
     nonNil updated (\<lambda>p. return (httpx_OK (ProductBody (NewProductResponse p)))))))"

definition Product_Inventory :: "'s ProductHandler \<Rightarrow> 's HandlerFunc" where
  "Product_Inventory h c =
     orError (lift (productIDFrom c)) (\<lambda>i.
     orError (ph_getInventory h i) (\<lambda>inv1.
     return (httpx_OK (InventoryBody (NewInventoryResponse inv1)))))"

section \<open>Administration\<close>

text \<open>\<open>rfc3339\<close> is \<open>Format(time.RFC3339)\<close> in the location the driver gives its times.\<close>

record 's AdminHandler =
  adh_listAllOrders :: "Page \<Rightarrow> ('s, Order list \<times> int64) prog"
  adh_updateOrderStatus :: "uint64 \<Rightarrow> OrderStatus \<Rightarrow> ('s, unit) prog"
  adh_dailyReport :: "string \<Rightarrow> ('s, DailyReportResult) prog"
  adh_lowStock :: "('s, Inventory list) prog"

definition toOrderResponse :: "(time \<Rightarrow> string) \<Rightarrow> Order \<Rightarrow> AdminOrderResponse" where
  "toOrderResponse rfc3339 o1 = \<lparr>aor_ID = ord_id o1, aor_UserID = ord_userID o1,
     aor_Status = ord_status o1, aor_Items = map toOrderItemResponse (ord_items o1),
     aor_Total = m_amount (ord_total o1), aor_Currency = m_currency (ord_total o1),
     aor_FailureReason = ord_failureReason o1, aor_CreatedAt = rfc3339 (ord_createdAt o1)\<rparr>"

definition Admin_ListOrders :: "(time \<Rightarrow> string) \<Rightarrow> 's AdminHandler \<Rightarrow> 's HandlerFunc" where
  "Admin_ListOrders rfc3339 h c =
     (let page = parsePage c in
      orError (adh_listAllOrders h page) (\<lambda>(orders, tot).
      return (httpx_Page AdminOrdersPage (map (toOrderResponse rfc3339) orders) tot (pg_Number page) (pg_Size page))))"

definition Admin_UpdateOrderStatus :: "(string \<Rightarrow> string outcome) \<Rightarrow> 's AdminHandler \<Rightarrow> 's HandlerFunc" where
  "Admin_UpdateOrderStatus bind h c =
     orError (lift (parseUintParam (c_Param c ''id''))) (\<lambda>i.
     orError (lift (ShouldBindJSON bind c
       (\<lambda>_. Validation ''admin.invalid_body'' ''request body must be valid json''))) (\<lambda>status.
     if status = '''' then return (httpx_Error (Validation ''admin.missing_status'' ''status is required''))
     else orError (adh_updateOrderStatus h i status) (\<lambda>_.
     return (httpx_OK (UpdatedStatusBody i status)))))"

definition Admin_DailyReport :: "'s AdminHandler \<Rightarrow> 's HandlerFunc" where
  "Admin_DailyReport h c =
     orError (adh_dailyReport h (c_Query c ''date'')) (\<lambda>res.
     return (httpx_OK (ReportBody \<lparr>dre_Date = drr_Date res, dre_TotalOrders = drr_TotalOrders res,
       dre_TotalRevenue = drr_TotalRevenue res, dre_Currency = drr_Currency res,
       dre_ByStatus = drr_ByStatus res\<rparr>)))"

definition toLowStockResponse :: "Inventory \<Rightarrow> InventoryResponse" where
  "toLowStockResponse i = \<lparr>irs_ProductID = inv_productID i, irs_Available = inv_available i,
     irs_Reserved = inv_reserved i, irs_ReorderLevel = inv_reorderLevel i\<rparr>"

definition Admin_LowStock :: "'s AdminHandler \<Rightarrow> 's HandlerFunc" where
  "Admin_LowStock h c =
     orError (adh_lowStock h) (\<lambda>items. return (httpx_OK (LowStockBody (map toLowStockResponse items))))"

lemmas handler_fun_defs = Order_Place_def Order_List_def Order_Get_def HTTP_Order_Cancel_def
  Order_Status_def HTTP_User_Create_def HTTP_User_Get_def HTTP_User_Update_def Auth_Register_def
  Auth_Login_def Product_List_def Product_Get_def Product_Create_def Product_Update_def
  Product_Inventory_def Admin_ListOrders_def Admin_UpdateOrderStatus_def
  Admin_DailyReport_def Admin_LowStock_def

section \<open>Access to an order\<close>

lemma ownOrder_cases:
  assumes "ownOrder h c f s = (r, s')"
  obtains (passed) i ord s1 where "orderIDFrom c = Ok i" "oh_get h i s = (Ok ord, s1)"
      "UserIDFrom c = Some (ord_userID ord) \<or> (UserIDFrom c \<noteq> None \<and> RoleFrom c = ''admin'')"
      "f i ord s1 = (r, s')"
    | (refused) e where "r = Ok (httpx_Error e)" "s' = s"
    | (looked_up) i fr where "oh_get h i s = (fr, s')" "(\<exists>e. r = Ok (httpx_Error e)) \<or> (\<exists>p. r = Panic p)"
proof (cases "UserIDFrom c")
  case None
  with assms show ?thesis by (intro refused) (auto simp: ownOrder_def)
next
  case (Some userID)
  show ?thesis
  proof (cases "orderIDFrom c")
    case (Ok i)
    obtain fr s1 where g: "oh_get h i s = (fr, s1)" by force
    show ?thesis
    proof (cases fr)
      case (Ok ord)
      with assms Some \<open>orderIDFrom c = Ok i\<close> g show ?thesis
        by (cases "ord_userID ord \<noteq> userID \<and> RoleFrom c \<noteq> ''admin''")
          (auto simp: ownOrder_def orError_def lift_apply intro: passed looked_up)
    qed (use assms Some Ok g in \<open>auto simp: ownOrder_def orError_def lift_apply intro: looked_up\<close>)
  next
    case (Err e)
    with assms Some show ?thesis by (intro refused) (auto simp: ownOrder_def orError_def lift_apply)
  next
    case (Panic p)
    then show ?thesis by (auto simp: orderIDFrom_def split: option.splits if_splits)
  qed
qed

end
