(* ===== verification/Service.thy ===== *)
theory Service
  imports Handlers
begin

text \<open>
  The service as one function from requests to answers: the handlers wired to the use cases
  (internal/bootstrap/bootstrap.go) and the routes with their middleware
  (internal/interfaces/http/router/router.go). The pages that report on the process (health,
  readiness, metrics, documentation) and the websocket are not routes of the model.
\<close>

section \<open>The wiring\<close>

text \<open>
  What is injected: the database and its transactions (one method of the driver, at the type of
  the variables each use case captures), the gateway, the pool's answer, the settings of the
  payment, the password hasher, the tokens, and the clock of the request.
\<close>

record ('s, 'g) App =
  app_gorm :: "'s Gorm"
  app_txPlace :: "('s, Vars) Transaction"
  app_txCancel :: "('s, Order) Transaction"
  app_txStatus :: "('s, unit) Transaction"
  app_txRegister :: "('s, User) Transaction"
  app_txProfile :: "('s, User option) Transaction"
  app_txCreate :: "('s, Product) Transaction"
  app_txRevise :: "('s, Product option) Transaction"
  app_gateway :: "'g PaymentGateway"
  app_submit :: "goerror option"
  app_maxAttempts :: goint
  app_retryBackoff :: duration
  app_hasher :: PasswordHasher
  app_issue :: TokenIssuer
  app_verify :: TokenVerifier
  app_now :: time
  app_nowPayment :: time
  app_rfc3339 :: "time \<Rightarrow> string"

definition app_reads :: "('s, 'g) App \<Rightarrow> 's RepositoryProvider" where
  "app_reads A = NewRepositories (app_gorm A)"

text \<open>A use case that needs only the store.\<close>

definition onlyStore :: "('s, 'a) prog \<Rightarrow> (('s, 'g) World, 'a) prog" where
  "onlyStore m w = (case m (w_store w) of (r, s') \<Rightarrow> (r, w\<lparr>w_store := s'\<rparr>))"

definition placeOrder :: "('s, 'g) App \<Rightarrow> ('s, 'g) PlaceOrder" where
  "placeOrder A = \<lparr>po_uow = unitOfWork_Do (app_gorm A, app_txPlace A), po_reads = app_reads A,
     po_gateway = app_gateway A, po_submit = app_submit A, po_maxAttempts = app_maxAttempts A,
     po_retryBackoff = app_retryBackoff A\<rparr>"

definition orderHandler :: "('s, 'g) App \<Rightarrow> ('s, 'g) World OrderHandler" where
  "orderHandler A = \<lparr>
     oh_place = PlaceOrder_Handle (placeOrder A) (app_now A) (app_nowPayment A),
     oh_cancel = CancelOrder_Handle \<lparr>co_uow = unitOfWork_Do (app_gorm A, app_txCancel A), co_reads = app_reads A\<rparr>,
     oh_get = (\<lambda>i. onlyStore (GetOrder_Handle (app_reads A) i)),
     oh_status = (\<lambda>i. onlyStore (OrderStatus_Handle (app_reads A) i)),
     oh_listByUser = (\<lambda>userID page. onlyStore (ListUserOrders_Handle (app_reads A) userID page))\<rparr>"

definition registerUser :: "('s, 'g) App \<Rightarrow> RegisterUserInput \<Rightarrow> (('s, 'g) World, User) prog" where
  "registerUser A inp = onlyStore
     (RegisterUser_Handle (unitOfWork_Do (app_gorm A, app_txRegister A)) (app_hasher A) inp)"

definition userHandler :: "('s, 'g) App \<Rightarrow> ('s, 'g) World UserHandler" where
  "userHandler A = \<lparr>
     uh_register = registerUser A,
     uh_update = (\<lambda>i name. onlyStore (UpdateUser_Handle (unitOfWork_Do (app_gorm A, app_txProfile A)) i name)),
     uh_get = (\<lambda>i. onlyStore (GetUser_Handle (app_reads A) i))\<rparr>"

definition authHandler :: "('s, 'g) App \<Rightarrow> ('s, 'g) World AuthHandler" where
  "authHandler A = \<lparr>
     ah_register = registerUser A,
     ah_login = (\<lambda>email password. onlyStore
       (LoginUser_Handle (app_reads A) (app_hasher A) (app_issue A) email password))\<rparr>"

definition productHandler :: "('s, 'g) App \<Rightarrow> ('s, 'g) World ProductHandler" where
  "productHandler A = \<lparr>
     ph_create = (\<lambda>inp. onlyStore
       (CreateProduct_Handle (unitOfWork_Do (app_gorm A, app_txCreate A)) (app_now A) inp)),
     ph_update = (\<lambda>i inp. onlyStore (UpdateProduct_Handle (unitOfWork_Do (app_gorm A, app_txRevise A)) i inp)),
     ph_list = (\<lambda>page. onlyStore (ListProducts_Handle (app_reads A) page)),
     ph_get = (\<lambda>i. onlyStore (GetProduct_Handle (app_reads A) i)),
     ph_getInventory = (\<lambda>i. onlyStore (GetInventory_Handle (app_reads A) i))\<rparr>"

text \<open>The report always returns.\<close>

lemma daily_report_total: "DailyReport_Handle (NewDailyReport reads) date s \<noteq> None"
  using collect_from_ends [of "NewDailyReport reads" 1 "[]" s]
  by (simp add: DailyReport_Handle_def DailyReport_collect_def NewDailyReport_def)

definition adminHandler :: "('s, 'g) App \<Rightarrow> ('s, 'g) World AdminHandler" where
  "adminHandler A = \<lparr>
     adh_listAllOrders = (\<lambda>page. onlyStore (ListAllOrders_Handle (app_reads A) page)),
     adh_updateOrderStatus = (\<lambda>i st. onlyStore
       (UpdateOrderStatus_Handle (unitOfWork_Do (app_gorm A, app_txStatus A)) i st)),
     adh_dailyReport = (\<lambda>date. onlyStore (\<lambda>s. the (DailyReport_Handle (NewDailyReport (app_reads A)) date s))),
     adh_lowStock = onlyStore (LowStock_Handle (app_reads A))\<rparr>"

section \<open>The routes\<close>

datatype Route = Ping | AuthRegister | AuthLogin | UsersCreate | ProductsList | ProductsGet
  | UsersGet | UsersUpdate | ProductsInventory | OrdersPlace | OrdersList | OrdersGet | OrdersCancel
  | OrdersStatus | ProductsCreate | ProductsUpdate | AdminOrders | AdminStatus | AdminReport | AdminLowStock

text \<open>The table of the group /api/v1: method, path, route.\<close>

definition routes :: "(string \<times> string list \<times> Route) list" where
  "routes = [
     (''GET'', [''ping''], Ping),
     (''POST'', [''auth'', ''register''], AuthRegister),
     (''POST'', [''auth'', ''login''], AuthLogin),
     (''POST'', [''users''], UsersCreate),
     (''GET'', [''products''], ProductsList),
     (''GET'', [''products'', '':id''], ProductsGet),
     (''GET'', [''users'', '':id''], UsersGet),
     (''PUT'', [''users'', '':id''], UsersUpdate),
     (''GET'', [''products'', '':id'', ''inventory''], ProductsInventory),
     (''POST'', [''orders''], OrdersPlace),
     (''GET'', [''orders''], OrdersList),
     (''GET'', [''orders'', '':id''], OrdersGet),
     (''PUT'', [''orders'', '':id'', ''cancel''], OrdersCancel),
     (''GET'', [''orders'', '':id'', ''status''], OrdersStatus),
     (''POST'', [''products''], ProductsCreate),
     (''PUT'', [''products'', '':id''], ProductsUpdate),
     (''GET'', [''admin'', ''orders''], AdminOrders),
     (''PUT'', [''admin'', ''orders'', '':id'', ''status''], AdminStatus),
     (''GET'', [''admin'', ''reports'', ''daily''], AdminReport),
     (''GET'', [''admin'', ''inventory'', ''low-stock''], AdminLowStock)]"

text \<open>
  A path is the list of its segments after /api/v1, one that ends in a slash has an empty last
  segment. A segment of a pattern that names a parameter matches any segment, the last one if it
  is not empty.
\<close>

definition matches :: "string list \<Rightarrow> string list \<Rightarrow> bool" where
  "matches pattern path \<longleftrightarrow> list_all2 (\<lambda>p seg. p = seg \<or> p = '':id'') pattern path \<and>
     path \<noteq> [] \<and> last path \<noteq> ''''"

definition route_of :: "string \<Rightarrow> string list \<Rightarrow> Route option" where
  "route_of httpMethod path =
     map_option (\<lambda>(_, _, route). route) (find (\<lambda>(m, pattern, _). m = httpMethod \<and> matches pattern path) routes)"

definition path_id :: "string \<Rightarrow> string list \<Rightarrow> string" where
  "path_id httpMethod path =
     (case find (\<lambda>(m, pattern, _). m = httpMethod \<and> matches pattern path) routes of
        Some (_, pattern, _) \<Rightarrow> (case find (\<lambda>(p, seg). p = '':id'') (zip pattern path) of Some (_, seg) \<Rightarrow> seg | None \<Rightarrow> '''')
      | None \<Rightarrow> '''')"

text \<open>The groups: \<open>v1\<close>, \<open>authed\<close> and \<open>admin\<close>.\<close>

datatype Group = Public | Authed | AdminOnly

definition group_of :: "Route \<Rightarrow> Group" where
  "group_of route =
     (if route \<in> {Ping, AuthRegister, AuthLogin, UsersCreate, ProductsList, ProductsGet} then Public
      else if route \<in> {UsersGet, UsersUpdate, ProductsInventory, OrdersPlace, OrdersList, OrdersGet,
        OrdersCancel, OrdersStatus} then Authed
      else AdminOnly)"

text \<open>
  What gin makes of the bodies, a fresh UUID for each use of one, and what gin's router does with
  a path that is no route: whether its tree recommends a redirect, and to which URL.
\<close>

record Binding =
  bind_place :: "string \<Rightarrow> PlaceOrderRequest outcome"
  bind_register :: "string \<Rightarrow> RegisterRequest outcome"
  bind_login :: "string \<Rightarrow> LoginRequest outcome"
  bind_profile :: "string \<Rightarrow> UpdateUserRequest outcome"
  bind_create :: "string \<Rightarrow> CreateProductRequest outcome"
  bind_update :: "string \<Rightarrow> UpdateProductRequest outcome"
  bind_status :: "string \<Rightarrow> string outcome"
  uuid_key :: string
  uuid_request :: string
  gin_redirects :: "string \<Rightarrow> string list \<Rightarrow> bool"
  gin_location :: "Context \<Rightarrow> string list \<Rightarrow> string"

fun endpoint :: "('s, 'g) App \<Rightarrow> Binding \<Rightarrow> Route \<Rightarrow> ('s, 'g) World HandlerFunc" where
  "endpoint A b Ping = (\<lambda>_. return (answer 200 NoBody))"
| "endpoint A b AuthRegister = Auth_Register (bind_register b) (authHandler A)"
| "endpoint A b AuthLogin = Auth_Login (bind_login b) (authHandler A)"
| "endpoint A b UsersCreate = HTTP_User_Create (bind_register b) (userHandler A)"
| "endpoint A b ProductsList = Product_List (productHandler A)"
| "endpoint A b ProductsGet = Product_Get (productHandler A)"
| "endpoint A b UsersGet = HTTP_User_Get (userHandler A)"
| "endpoint A b UsersUpdate = HTTP_User_Update (bind_profile b) (userHandler A)"
| "endpoint A b ProductsInventory = Product_Inventory (productHandler A)"
| "endpoint A b OrdersPlace = Order_Place (bind_place b) (uuid_key b) (orderHandler A)"
| "endpoint A b OrdersList = Order_List (orderHandler A)"
| "endpoint A b OrdersGet = Order_Get (orderHandler A)"
| "endpoint A b OrdersCancel = HTTP_Order_Cancel (orderHandler A)"
| "endpoint A b OrdersStatus = Order_Status (orderHandler A)"
| "endpoint A b ProductsCreate = Product_Create (bind_create b) (productHandler A)"
| "endpoint A b ProductsUpdate = Product_Update (bind_update b) (productHandler A)"
| "endpoint A b AdminOrders = Admin_ListOrders (app_rfc3339 A) (adminHandler A)"
| "endpoint A b AdminStatus = Admin_UpdateOrderStatus (bind_status b) (adminHandler A)"
| "endpoint A b AdminReport = Admin_DailyReport (adminHandler A)"
| "endpoint A b AdminLowStock = Admin_LowStock (adminHandler A)"

definition guarded :: "TokenVerifier \<Rightarrow> Group \<Rightarrow> 's HandlerFunc \<Rightarrow> 's HandlerFunc" where
  "guarded verify g h = (case g of
      Public \<Rightarrow> h | Authed \<Rightarrow> Auth verify h | AdminOnly \<Rightarrow> Auth verify (RequireAdmin h))"

text \<open>The settings of the rate limiter; without it the table of limiters is not used.\<close>

record 'l Limits =
  lim_enabled :: bool
  lim_lib :: "'l RateLib"
  lim_ttl :: duration

definition limited :: "'l Limits \<Rightarrow> time \<Rightarrow> 's HandlerFunc \<Rightarrow> ('l RateTable \<times> 's) HandlerFunc" where
  "limited L now h = (if lim_enabled L then RateLimit (lim_lib L) (lim_ttl L) now h
     else (\<lambda>c (t, s). case h c s of (r, s') \<Rightarrow> (r, (t, s'))))"

definition belowHeaders :: "'s HandlerFunc \<Rightarrow> (Headers \<times> 's) HandlerFunc" where
  "belowHeaders h c = (\<lambda>(wr, s). case h c s of (r, s') \<Rightarrow> (r, (wr, s')))"

text \<open>
  \<open>gin.New()\<close> leaves \<open>RedirectTrailingSlash\<close> on: a path that is no route, while with a slash less
  (or more) at its end it is one, is redirected to that one before any middleware runs. gin's tree
  recommends the redirect for some other paths too, of methods that have routes:
  \<open>gin_redirects\<close> says for which.
\<close>

definition other_slash :: "string list \<Rightarrow> string list" where
  "other_slash path = (if path \<noteq> [] \<and> last path = '''' then butlast path else path @ [''''])"

definition redirected :: "Binding \<Rightarrow> string \<Rightarrow> string list \<Rightarrow> bool" where
  "redirected b httpMethod path \<longleftrightarrow> route_of httpMethod path = None \<and>
     (route_of httpMethod (other_slash path) \<noteq> None \<or>
      list_ex (\<lambda>(m, _). m = httpMethod) routes \<and> gin_redirects b httpMethod path)"

definition redirect_slash :: "Binding \<Rightarrow> string list \<Rightarrow> (Headers \<times> 's) HandlerFunc" where
  "redirect_slash b path c = (\<lambda>(wr, s).
     (Ok (answer (if c_Method c = ''GET'' then 301 else 307) NoBody),
      (wr(''Location'' \<mapsto> gin_location b c (other_slash path)), s)))"

text \<open>The engine: the global middleware, then the route; a path with no route is a 404.\<close>

definition chain :: "('s, 'g) App \<Rightarrow> Binding \<Rightarrow> 'l Limits \<Rightarrow> string list
    \<Rightarrow> (Headers \<times> 'l RateTable \<times> ('s, 'g) World) HandlerFunc" where
  "chain A b L path c =
     RequestID (uuid_request b) (Recovery (CORS
       (case route_of (c_Method c) path of
          None \<Rightarrow> (\<lambda>_. return (answer 404 NoBody))
        | Some route \<Rightarrow> belowHeaders (limited L (app_now A)
            (guarded (app_verify A) (group_of route) (endpoint A b route))))))
     (c\<lparr>c_Param := (\<lambda>k. if k = ''id'' then path_id (c_Method c) path else '''')\<rparr>)"

definition serve :: "('s, 'g) App \<Rightarrow> Binding \<Rightarrow> 'l Limits \<Rightarrow> string list
    \<Rightarrow> (Headers \<times> 'l RateTable \<times> ('s, 'g) World) HandlerFunc" where
  "serve A b L path c =
     (if redirected b (c_Method c) path then redirect_slash b path c else chain A b L path c)"

lemma not_redirected [simp]: "route_of m path = Some route \<Longrightarrow> \<not> redirected b m path"
  by (simp add: redirected_def)

lemma preflight_no_route [simp]:
  "route_of ''OPTIONS'' path = None" "\<not> redirected b ''OPTIONS'' path"
  by (simp_all add: redirected_def route_of_def routes_def)

section \<open>What the chain guarantees\<close>

lemma guarded_cases:
  assumes "guarded verify g h c s = (r, s')"
  obtains (open_route) "g = Public" "h c s = (r, s')"
    | (signed_in) claims where "bearer verify c = Some claims" "g = AdminOnly \<Longrightarrow> tc_Role claims = ''admin''"
        "g \<noteq> Public" "h (signedIn claims c) s = (r, s')"
    | (stopped) "s' = s" "g \<noteq> Public" "(\<exists>resp. r = Ok resp \<and> rs_Status resp \<in> {401, 403}) \<or> (\<exists>p. r = Panic p)"
proof (cases g)
  case Public
  with assms show ?thesis by (intro open_route) (auto simp: guarded_def)
next
  case Authed
  from assms have "Auth verify h c s = (r, s')" by (simp add: guarded_def Authed)
  then show ?thesis by (cases rule: Auth_cases) (auto intro: signed_in stopped simp: Authed)
next
  case AdminOnly
  from assms have "Auth verify (RequireAdmin h) c s = (r, s')" by (simp add: guarded_def AdminOnly)
  then show ?thesis
  proof (cases rule: Auth_cases)
    case (passed claims)
    from passed(2) show ?thesis
      by (cases rule: RequireAdmin_cases) (auto intro: signed_in [OF passed(1)] stopped simp: AdminOnly)
  qed (auto intro: stopped simp: AdminOnly)
qed

text \<open>The request as the routes see it.\<close>

definition arrived :: "Binding \<Rightarrow> string list \<Rightarrow> Context \<Rightarrow> Context" where
  "arrived b path c = c\<lparr>c_Param := (\<lambda>k. if k = ''id'' then path_id (c_Method c) path else ''''),
     c_requestID := Some (if c_Header c ''X-Request-ID'' = '''' then uuid_request b else c_Header c ''X-Request-ID'')\<rparr>"

lemma arrived_from [simp]:
  "bearer verify (arrived b path c) = bearer verify c" "c_Query (arrived b path c) = c_Query c"
  "c_Body (arrived b path c) = c_Body c" "c_Header (arrived b path c) = c_Header c"
  "c_Param (arrived b path c) ''id'' = path_id (c_Method c) path"
  by (simp_all add: arrived_def bearer_def)

definition stamped :: "Binding \<Rightarrow> Context \<Rightarrow> Headers \<Rightarrow> bool" where
  "stamped b c wr \<longleftrightarrow> wr ''X-Request-ID'' =
       Some (if c_Header c ''X-Request-ID'' = '''' then uuid_request b else c_Header c ''X-Request-ID'') \<and>
     wr ''Access-Control-Allow-Origin'' = Some ''*''"

text \<open>An endpoint answers or panics; it does not return an error.\<close>

definition answers :: "('s, Response) prog \<Rightarrow> bool" where
  "answers m \<longleftrightarrow> (\<forall>s e s'. m s \<noteq> (Err e, s'))"

lemma answers_intros [intro!]:
  "answers (return resp)" "answers (lift (Panic p))" "(\<And>a. answers (f a)) \<Longrightarrow> answers (orError m f)"
  "(\<And>a. answers (f2 a)) \<Longrightarrow> answers (nonNil q f2)"
  by (auto simp: answers_def orError_def nonNil_def lift_def split: prod.splits outcome.splits option.splits)

lemma ownOrder_answers [intro!]: "(\<And>i ord. answers (f i ord)) \<Longrightarrow> answers (ownOrder h c f)"
  unfolding ownOrder_def by (cases "UserIDFrom c") auto

lemma endpoint_answers: "answers (endpoint A b route c)"
proof -
  have "answers (Order_Place bd uuid oh c)" for bd uuid and oh :: "('a, 'b) World OrderHandler"
    unfolding Order_Place_def by (cases "UserIDFrom c") (auto simp: Let_def)
  moreover have "answers (Order_List oh c)" for oh :: "('a, 'b) World OrderHandler"
    unfolding Order_List_def by (cases "UserIDFrom c") (auto simp: Let_def)
  ultimately show ?thesis
    by (cases route) (auto simp: handler_fun_defs Let_def)
qed

text \<open>
  Every request is answered. The answer carries the request's id, and either the state is as it
  was, or the endpoint of the path's route ran, for a caller its group admits.
\<close>

definition admitted :: "TokenVerifier \<Rightarrow> Group \<Rightarrow> Context \<Rightarrow> TokenClaims option \<Rightarrow> bool" where
  "admitted verify g c claims = (case g of
      Public \<Rightarrow> claims = None
    | Authed \<Rightarrow> claims \<noteq> None \<and> bearer verify c = claims
    | AdminOnly \<Rightarrow> claims \<noteq> None \<and> bearer verify c = claims \<and> tc_Role (the claims) = ''admin'')"

definition asking :: "TokenClaims option \<Rightarrow> Context \<Rightarrow> Context" where
  "asking claims c = (case claims of Some k \<Rightarrow> signedIn k c | None \<Rightarrow> c)"

lemma guarded_admits:
  assumes "guarded verify g h c s = (r, s')"
  obtains (admits) claims where "admitted verify g c claims" "h (asking claims c) s = (r, s')"
    | (stopped) "s' = s" "g \<noteq> Public" "(\<exists>resp. r = Ok resp \<and> rs_Status resp \<in> {401, 403}) \<or> (\<exists>p. r = Panic p)"
  using assms
proof (cases rule: guarded_cases)
  case open_route
  then show ?thesis by (intro admits [of None]) (auto simp: admitted_def asking_def)
next
  case (signed_in claims)
  then show ?thesis
    by (intro admits [of "Some claims"]) (auto simp: admitted_def asking_def split: Group.splits)
qed (rule stopped)

lemma limited_cases:
  assumes "limited L now h c (t, s) = (r, (t', s'))"
  obtains (passed) "h c s = (r, s')" | (over) resp where "r = Ok resp" "rs_Status resp = 429" "s' = s"
  using assms
  by (auto simp: limited_def RateLimit_def answer_def split: if_splits prod.splits)

lemma Recovery_Ok:
  assumes "\<And>e. fst (h c s) \<noteq> Err e" and "Recovery h c s = (r, s')"
  obtains resp where "r = Ok resp" "s' = snd (h c s)"
    "fst (h c s) = Ok resp \<or> (rs_Status resp = 500 \<and> (\<exists>p. fst (h c s) = Panic p))"
  using assms by (cases "h c s"; cases "fst (h c s)") (auto simp: Recovery_def answer_def)

definition inner :: "('s, 'g) App \<Rightarrow> Binding \<Rightarrow> 'l Limits \<Rightarrow> string list \<Rightarrow> Context
    \<Rightarrow> ('l RateTable \<times> ('s, 'g) World, Response) prog" where
  "inner A b L path c = (case route_of (c_Method c) path of
      None \<Rightarrow> return (answer 404 NoBody)
    | Some route \<Rightarrow> limited L (app_now A) (guarded (app_verify A) (group_of route) (endpoint A b route)) c)"

lemma inner_cases:
  assumes "inner A b L path c (t, w) = (r, (t', w'))"
  obtains (ran) route claims where "route_of (c_Method c) path = Some route"
      "admitted (app_verify A) (group_of route) c claims" "endpoint A b route (asking claims c) w = (r, w')"
    | (nothing_done) "w' = w" "(\<exists>resp. r = Ok resp \<and> rs_Status resp \<in> {401, 403, 404, 429}) \<or> (\<exists>p. r = Panic p)"
proof (cases "route_of (c_Method c) path")
  case None
  with assms show ?thesis by (intro nothing_done) (auto simp: inner_def answer_def)
next
  case (Some route)
  with assms have "limited L (app_now A) (guarded (app_verify A) (group_of route) (endpoint A b route)) c (t, w)
      = (r, (t', w'))" by (simp add: inner_def)
  then show ?thesis
  proof (cases rule: limited_cases)
    case passed
    then show ?thesis
      by (cases rule: guarded_admits) (auto intro: ran [OF Some] nothing_done)
  next
    case (over resp)
    then show ?thesis by (intro nothing_done) auto
  qed
qed

lemma inner_answers: "fst (inner A b L path c tw) \<noteq> Err e"
proof
  obtain t w where tw: "tw = (t, w)" by force
  obtain r t' w' where run: "inner A b L path c (t, w) = (r, (t', w'))" by (metis prod_cases3)
  assume "fst (inner A b L path c tw) = Err e"
  with run tw have r: "r = Err e" by simp
  from run show False
  proof (cases rule: inner_cases)
    case (ran route claims)
    with r endpoint_answers [of A b route] show False by (auto simp: answers_def)
  qed (use r in auto)
qed

lemma chain_unfold:
  "chain A b L path c (wr, t, w) =
    (let c1 = arrived b path c;
         wr1 = (case c_requestID c1 of Some i \<Rightarrow> wr(''X-Request-ID'' \<mapsto> i) | None \<Rightarrow> wr);
         wr2 = wr1(''Access-Control-Allow-Origin'' \<mapsto> ''*'',
           ''Access-Control-Allow-Methods'' \<mapsto> ''GET,POST,PUT,PATCH,DELETE,OPTIONS'',
           ''Access-Control-Allow-Headers'' \<mapsto> ''Authorization,Content-Type,X-Request-ID,Idempotency-Key'');
         (r, tw') = (if c_Method c = ''OPTIONS'' then (Ok (answer 204 NoBody), (t, w)) else inner A b L path c1 (t, w))
     in (case r of Panic _ \<Rightarrow> Ok (answer 500 (ErrorBody \<lparr>ep_Code = ''internal_error'',
            ep_Message = ''internal server error''\<rparr>)) | _ \<Rightarrow> r, (wr2, tw')))"
  by (cases "route_of (c_Method c) path")
    (auto simp: chain_def RequestID_def Recovery_def CORS_def setHeader_def belowHeaders_def inner_def
      arrived_def Let_def split: prod.splits outcome.splits)

lemma serve_unfold:
  "serve A b L path c (wr, tw) = (if redirected b (c_Method c) path
     then redirect_slash b path c (wr, tw) else chain A b L path c (wr, tw))"
  by (simp add: serve_def)

lemma serve_route:
  "route_of (c_Method c) path = Some route \<Longrightarrow> serve A b L path c (wr, tw) = chain A b L path c (wr, tw)"
  by (simp add: serve_unfold)

text \<open>Every request is answered: by a redirect, a preflight answer, the 404, or below.\<close>

lemma serve_outside:
  "redirected b (c_Method c) path \<Longrightarrow> serve A b L path c (wr, tw) =
     (Ok (answer (if c_Method c = ''GET'' then 301 else 307) NoBody),
      (wr(''Location'' \<mapsto> gin_location b c (other_slash path)), tw))"
  "c_Method c = ''OPTIONS'' \<Longrightarrow> serve A b L path c (wr, tw) = (Ok resp, (wr', tw')) \<Longrightarrow>
     rs_Status resp = 204 \<and> tw' = tw"
  "route_of (c_Method c) path = None \<Longrightarrow> \<not> redirected b (c_Method c) path \<Longrightarrow> c_Method c \<noteq> ''OPTIONS'' \<Longrightarrow>
     serve A b L path c (wr, tw) = (Ok resp, (wr', tw')) \<Longrightarrow> rs_Status resp = 404 \<and> tw' = tw"
  by (cases tw; auto simp: serve_unfold redirect_slash_def chain_unfold Let_def answer_def inner_def arrived_def)+

lemma chain_cases:
  assumes "chain A b L path c (wr, t, w) = (r, (wr', t', w'))"
  obtains (ran) resp route claims r0 where "r = Ok resp" "stamped b c wr'"
      "route_of (c_Method c) path = Some route" "c_Method c \<noteq> ''OPTIONS''"
      "admitted (app_verify A) (group_of route) c claims"
      "endpoint A b route (asking claims (arrived b path c)) w = (r0, w')"
      "r0 = Ok resp \<or> (rs_Status resp = 500 \<and> (\<exists>p. r0 = Panic p))"
    | (nothing_done) resp where "r = Ok resp" "stamped b c wr'" "w' = w"
      "rs_Status resp \<in> {401, 403, 404, 429, 500} \<or> (rs_Status resp = 204 \<and> c_Method c = ''OPTIONS'')"
proof -
  have meth: "c_Method (arrived b path c) = c_Method c" by (simp add: arrived_def)
  from assms have st: "stamped b c wr'"
    by (auto simp: chain_unfold stamped_def arrived_def Let_def split: prod.splits)
  show ?thesis
  proof (cases "c_Method c = ''OPTIONS''")
    case True
    with assms st show ?thesis
      by (intro nothing_done) (auto simp: chain_unfold answer_def Let_def)
  next
    case False
    obtain r0 t0 w0 where run: "inner A b L path (arrived b path c) (t, w) = (r0, (t0, w0))" by (metis prod_cases3)
    have ok: "r0 \<noteq> Err e" for e using inner_answers [of A b L path "arrived b path c" "(t, w)" e] run by simp
    from assms False run have r: "w' = w0"
      "r = (case r0 of Panic _ \<Rightarrow> Ok (answer 500 (ErrorBody \<lparr>ep_Code = ''internal_error'',
          ep_Message = ''internal server error''\<rparr>)) | _ \<Rightarrow> r0)"
      by (auto simp: chain_unfold Let_def)
    then obtain resp where resp: "r = Ok resp" "r0 = Ok resp \<or> (rs_Status resp = 500 \<and> (\<exists>p. r0 = Panic p))"
      using ok by (cases r0) (auto simp: answer_def)
    from run show ?thesis
    proof (cases rule: inner_cases)
      case (ran route claims)
      have "admitted (app_verify A) (group_of route) c claims"
        using ran(2) by (simp add: admitted_def split: Group.splits)
      with ran st resp r(1) False that(1) meth show ?thesis by metis
    next
      case nothing_done
      with st resp r(1) that(2) show ?thesis by (metis insert_iff outcome.distinct(3) outcome.inject(1))
    qed
  qed
qed

lemma serve_cases:
  assumes "serve A b L path c (wr, t, w) = (r, (wr', t', w'))"
  obtains (ran) resp route claims r0 where "r = Ok resp" "stamped b c wr'"
      "route_of (c_Method c) path = Some route" "c_Method c \<noteq> ''OPTIONS''"
      "admitted (app_verify A) (group_of route) c claims"
      "endpoint A b route (asking claims (arrived b path c)) w = (r0, w')"
      "r0 = Ok resp \<or> (rs_Status resp = 500 \<and> (\<exists>p. r0 = Panic p))"
    | (nothing_done) resp where "r = Ok resp" "stamped b c wr'" "w' = w"
      "rs_Status resp \<in> {401, 403, 404, 429, 500} \<or> (rs_Status resp = 204 \<and> c_Method c = ''OPTIONS'')"
    | (redirect) resp where "r = Ok resp" "redirected b (c_Method c) path" "rs_Status resp \<in> {301, 307}"
      "t' = t" "w' = w"
proof (cases "redirected b (c_Method c) path")
  case True
  with assms show ?thesis
    by (intro redirect [of "answer (if c_Method c = ''GET'' then 301 else 307) NoBody"])
      (auto simp: serve_outside(1) answer_def)
next
  case False
  with assms have "chain A b L path c (wr, t, w) = (r, (wr', t', w'))" by (simp add: serve_unfold)
  then show ?thesis by (cases rule: chain_cases) (auto intro: ran nothing_done)
qed

end
