(* ===== verification/Quiet.thy ===== *)
theory Quiet
  imports Service
begin

text \<open>
  Programs that change no table: the reads of the repositories, the queries and the endpoints
  that only ask.
\<close>

definition quiet :: "('s \<Rightarrow> DB) \<Rightarrow> ('s, 'a) prog \<Rightarrow> bool" where
  "quiet view m \<longleftrightarrow> (\<forall>s. view (snd (m s)) = view s)"

named_theorems quiet_intros \<open>rules that show that a program changes no table\<close>

lemma quiet_return [quiet_intros]: "quiet view (return a)"
  and quiet_lift [quiet_intros]: "quiet view (lift r)"
  and quiet_fail [quiet_intros]: "quiet view (fail e)"
  by (simp_all add: quiet_def lift_def fail_def)

lemma quiet_check [quiet_intros]: "quiet view m \<Longrightarrow> (\<And>a. quiet view (f a)) \<Longrightarrow> quiet view (check m f)"
  unfolding quiet_def check_def by (auto split: prod.split outcome.split) (metis snd_conv)+

lemma quiet_orNotFound [quiet_intros]: "quiet view m \<Longrightarrow> quiet view (orNotFound e m)"
  unfolding quiet_def by (metis orNotFound_state)

lemma quiet_reads_only: "(\<And>s. reads_only view s (m s) (Q s)) \<Longrightarrow> quiet view m"
  by (simp add: quiet_def reads_only_def)

lemma quiet_table:
  assumes "table_ok S view rows put T"
  shows "quiet view (tbl_First T P)" and "quiet view (tbl_Find T P)" and "quiet view (tbl_Count T P)"
    and "0 <s lim \<Longrightarrow> quiet view (tbl_Page T P off lim)"
  by (rule quiet_reads_only, erule table_okD [OF assms] | rule quiet_reads_only, rule table_okD [OF assms])+

lemma quietD: "quiet view m \<Longrightarrow> m s = (r, s') \<Longrightarrow> view s' = view s"
  by (metis quiet_def snd_conv)

section \<open>The reads of the repositories\<close>

lemma quiet_orders:
  assumes "gorm_ok G view"
  shows "quiet view (orderRepo_FindByID G i)" and "quiet view (orderRepo_list G P page)"
proof -
  note t = quiet_table [OF orders_table [OF assms]]
  show "quiet view (orderRepo_FindByID G i)"
    unfolding orderRepo_FindByID_def by (intro quiet_intros t)
  obtain number sz where n: "normalizeOrderPage page = (number, sz)" by force
  then have "0 <s sz"
    by (auto simp: normalizeOrderPage_def Let_def word_sless_alt word_sle_eq split: if_splits)
  then show "quiet view (orderRepo_list G P page)"
    unfolding orderRepo_list_def n Let_def prod.case by (intro quiet_intros t)
qed

lemma quiet_products:
  assumes "gorm_ok G view"
  shows "quiet view (productRepo_FindByID G i)" and "quiet view (productRepo_List G page)"
proof -
  note t = quiet_table [OF products_table [OF assms]]
  show "quiet view (productRepo_FindByID G i)"
    unfolding productRepo_FindByID_def by (intro quiet_intros t)
  have "0 <s (if pg_Size page \<le>s 0 then 20 else pg_Size page)"
    by (auto simp: word_sless_alt word_sle_eq)
  then show "quiet view (productRepo_List G page)"
    unfolding productRepo_List_def Let_def by (intro quiet_intros t)
qed

lemma quiet_users:
  assumes "gorm_ok G view"
  shows "quiet view (userRepo_FindByID G i)" and "quiet view (userRepo_FindByEmail G email)"
  unfolding userRepo_FindByID_def userRepo_FindByEmail_def
  by (intro quiet_intros quiet_table [OF users_table [OF assms]])+

lemma quiet_inventories:
  assumes "gorm_ok G view"
  shows "quiet view (inventoryRepo_FindByProductID G i)" and "quiet view (inventoryRepo_ListLowStock G)"
  unfolding inventoryRepo_FindByProductID_def inventoryRepo_ListLowStock_def
  by (intro quiet_intros quiet_table [OF inventories_table [OF assms]])+

section \<open>The queries\<close>

lemma quiet_login:
  assumes "gorm_ok G view"
  shows "quiet view (LoginUser_Handle (NewRepositories G) hasher issue email password)"
  using quietD [OF quiet_users(2) [OF assms]]
  by (auto simp: quiet_def LoginUser_Handle_def split: prod.split outcome.split option.split)

lemma collect_from_quiet:
  assumes "collect_from q page collected s = Some rs"
    and "\<And>page. quiet view (orep_ListAll (rp_Orders (dr_reads q)) page)"
  shows "view (snd rs) = view s"
  using assms
proof (induction q page collected s rs rule: collect_from.raw_induct [rotated, consumes 1])
  case (1 loop q page collected s rs)
  let ?page = "\<lparr>pg_Number = page, pg_Size = dr_pageSize q\<rparr>"
  obtain r s1 where call: "orep_ListAll (rp_Orders (dr_reads q)) ?page s = (r, s1)" by force
  have v: "view s1 = view s" by (rule quietD [OF 1(3) call])
  from 1(2) show ?case
    using call v 1(1) [OF _ 1(3)] by (cases rs) (auto simp: Let_def split: if_splits outcome.splits)
qed

lemma quiet_report:
  assumes "gorm_ok G view"
  shows "quiet view (\<lambda>s. the (DailyReport_Handle (NewDailyReport (NewRepositories G)) date s))"
  unfolding quiet_def
proof
  fix s
  let ?q = "NewDailyReport (NewRepositories G)"
  obtain rs where rs: "collect_from ?q 1 [] s = Some rs"
    using collect_from_ends [of ?q 1 "[]" s] by (auto simp: NewDailyReport_def)
  have "view (snd rs) = view s"
    by (rule collect_from_quiet [OF rs])
      (simp add: NewDailyReport_def orderRepo_ListAll_def quiet_orders [OF assms])
  then show "view (snd (the (DailyReport_Handle ?q date s))) = view s"
    by (simp add: DailyReport_Handle_def DailyReport_collect_def rs split_beta)
qed

lemma quiet_queries:
  assumes "gorm_ok G view"
  shows "quiet view (GetOrder_Handle (NewRepositories G) i)"
    and "quiet view (OrderStatus_Handle (NewRepositories G) i)"
    and "quiet view (ListUserOrders_Handle (NewRepositories G) userID page)"
    and "quiet view (ListAllOrders_Handle (NewRepositories G) page)"
    and "quiet view (GetProduct_Handle (NewRepositories G) i)"
    and "quiet view (ListProducts_Handle (NewRepositories G) page)"
    and "quiet view (GetInventory_Handle (NewRepositories G) i)"
    and "quiet view (LowStock_Handle (NewRepositories G))"
    and "quiet view (GetUser_Handle (NewRepositories G) i)"
  using quiet_orders [OF assms] quiet_products [OF assms] quiet_inventories [OF assms] quiet_users [OF assms]
  by (simp_all add: GetOrder_Handle_def OrderStatus_Handle_def ListUserOrders_Handle_def
      ListAllOrders_Handle_def GetProduct_Handle_def ListProducts_Handle_def GetInventory_Handle_def
      LowStock_Handle_def GetUser_Handle_def orderRepo_ListByUser_def orderRepo_ListAll_def quiet_intros)

section \<open>The endpoints that only ask\<close>

abbreviation tables :: "('s \<Rightarrow> DB) \<Rightarrow> ('s, 'g) World \<Rightarrow> DB" where
  "tables view w \<equiv> view (w_store w)"

lemma quiet_onlyStore [quiet_intros]: "quiet view m \<Longrightarrow> quiet (tables view) (onlyStore m)"
  by (auto simp: quiet_def onlyStore_def split: prod.split) (metis snd_conv)

lemma quiet_orError [quiet_intros]: "quiet view m \<Longrightarrow> (\<And>a. quiet view (f a)) \<Longrightarrow> quiet view (orError m f)"
  unfolding quiet_def orError_def by (auto split: prod.split outcome.split) (metis snd_conv)+

lemma quiet_ownOrder [quiet_intros]:
  "(\<And>i. quiet view (oh_get h i)) \<Longrightarrow> (\<And>i ord. quiet view (f i ord)) \<Longrightarrow> quiet view (ownOrder h c f)"
  unfolding ownOrder_def by (cases "UserIDFrom c") (auto intro!: quiet_intros)

definition asks :: "Route \<Rightarrow> bool" where
  "asks route \<longleftrightarrow> route \<in> {Ping, AuthLogin, ProductsList, ProductsGet, UsersGet, ProductsInventory,
     OrdersList, OrdersGet, OrdersStatus, AdminOrders, AdminReport, AdminLowStock}"

lemma asking_endpoint_quiet:
  assumes "gorm_ok (app_gorm A) view" and "asks route"
  shows "quiet (tables view) (endpoint A b route c)"
proof -
  note q = quiet_queries [OF assms(1)] quiet_login [OF assms(1)] quiet_report [OF assms(1)]
  have "quiet (tables view) (Order_List (orderHandler A) c)"
    unfolding Order_List_def by (cases "UserIDFrom c")
      (auto simp: Let_def orderHandler_def app_reads_def intro!: quiet_intros q split: prod.split)
  with assms(2) show ?thesis
    by (auto simp: asks_def handler_fun_defs Let_def orderHandler_def authHandler_def productHandler_def
        userHandler_def adminHandler_def app_reads_def split: prod.split intro!: quiet_intros q)
qed

end
