(* ===== verification/Keeping.thy ===== *)
theory Keeping
  imports Quiet
begin

text \<open>
  What every request keeps, for any relation between the tables before and after that is
  reflexive and transitive: if the commands keep it, so does every endpoint, every request and
  every history of requests. Books and Conform interpret the locale.
\<close>

text \<open>A service on a database that behaves as documented.\<close>

definition app_ok :: "('s, 'g) App \<Rightarrow> ('s \<Rightarrow> DB) \<Rightarrow> bool" where
  "app_ok A view \<longleftrightarrow> gorm_ok (app_gorm A) view \<and> transactional view (app_txPlace A) \<and>
     transactional view (app_txCancel A) \<and> transactional view (app_txStatus A) \<and>
     transactional view (app_txRegister A) \<and> transactional view (app_txProfile A) \<and>
     transactional view (app_txCreate A) \<and> transactional view (app_txRevise A)"

definition keeps :: "(DB \<Rightarrow> DB \<Rightarrow> bool) \<Rightarrow> ('s \<Rightarrow> DB) \<Rightarrow> ('s, 'a) prog \<Rightarrow> bool" where
  "keeps R view m \<longleftrightarrow> (\<forall>s. R (view s) (view (snd (m s))))"

text \<open>The commands of the service, and the administrator's change of a status.\<close>

definition commands_keep :: "(DB \<Rightarrow> DB \<Rightarrow> bool) \<Rightarrow> ('s \<Rightarrow> DB) \<Rightarrow> ('s, 'g) App \<Rightarrow> bool" where
  "commands_keep R view A \<longleftrightarrow>
     (\<forall>inp. keeps R (tables view) (oh_place (orderHandler A) inp)) \<and>
     (\<forall>inp. keeps R (tables view) (oh_cancel (orderHandler A) inp)) \<and>
     (\<forall>inp. keeps R view (RegisterUser_Handle (unitOfWork_Do (app_gorm A, app_txRegister A)) (app_hasher A) inp)) \<and>
     (\<forall>i name. keeps R view (UpdateUser_Handle (unitOfWork_Do (app_gorm A, app_txProfile A)) i name)) \<and>
     (\<forall>now inp. keeps R view (CreateProduct_Handle (unitOfWork_Do (app_gorm A, app_txCreate A)) now inp)) \<and>
     (\<forall>i inp. keeps R view (UpdateProduct_Handle (unitOfWork_Do (app_gorm A, app_txRevise A)) i inp))"

definition status_keeps :: "(DB \<Rightarrow> DB \<Rightarrow> bool) \<Rightarrow> ('s \<Rightarrow> DB) \<Rightarrow> ('s, 'g) App \<Rightarrow> bool" where
  "status_keeps R view A \<longleftrightarrow>
     (\<forall>i st. keeps R view (UpdateOrderStatus_Handle (unitOfWork_Do (app_gorm A, app_txStatus A)) i st))"

text \<open>
  A history of the service: requests one after the other, each with the clock, the bindings and
  the uuids of its time.
\<close>

type_synonym ('s, 'g) Request = "('s, 'g) App \<times> Binding \<times> string list \<times> Context"

fun serve_run :: "'l Limits \<Rightarrow> ('s, 'g) Request list \<Rightarrow> 'l RateTable \<times> ('s, 'g) World
    \<Rightarrow> 'l RateTable \<times> ('s, 'g) World" where
  "serve_run L [] tw = tw"
| "serve_run L ((A, b, path, c) # rest) tw = serve_run L rest (snd (snd (serve A b L path c (Map.empty, tw))))"

named_theorems keeps_intros \<open>rules that show that a program keeps a relation between tables\<close>

lemma keepsI: "(\<And>s r s'. m s = (r, s') \<Longrightarrow> R (view s) (view s')) \<Longrightarrow> keeps R view m"
  unfolding keeps_def by (metis prod.collapse)

lemma keepsD: "keeps R view m \<Longrightarrow> m s = (r, s') \<Longrightarrow> R (view s) (view s')"
  unfolding keeps_def by (metis snd_conv)

lemma keeps_onlyStore [keeps_intros]: "keeps R view m \<Longrightarrow> keeps R (tables view) (onlyStore m)"
  by (auto simp: keeps_def onlyStore_def split: prod.split) (metis snd_conv)

locale keeping =
  fixes R :: "DB \<Rightarrow> DB \<Rightarrow> bool"
  assumes kept_refl [simp]: "R d d"
    and kept_trans: "R d d1 \<Longrightarrow> R d1 d2 \<Longrightarrow> R d d2"
begin

lemma keeps_quiet: "quiet view m \<Longrightarrow> keeps R view m"
  by (simp add: keeps_def quiet_def)

lemma keeps_return [keeps_intros]: "keeps R view (return a)"
  and keeps_lift [keeps_intros]: "keeps R view (lift r)"
  by (simp_all add: keeps_quiet quiet_intros)

lemma keeps_orError [keeps_intros]:
  assumes "keeps R view m" and "\<And>a. keeps R view (f a)"
  shows "keeps R view (orError m f)"
proof (rule keepsI)
  fix s r s' assume run: "orError m f s = (r, s')"
  obtain r1 s1 where m: "m s = (r1, s1)" by force
  note first = keepsD [OF assms(1) m]
  show "R (view s) (view s')"
  proof (cases r1)
    case (Ok a)
    with run m have "f a s1 = (r, s')" by (simp add: orError_def)
    from kept_trans [OF first keepsD [OF assms(2) this]] show ?thesis .
  qed (use run m first in \<open>auto simp: orError_def\<close>)
qed

lemma keeps_ownOrder [keeps_intros]:
  "(\<And>i. keeps R view (oh_get h i)) \<Longrightarrow> (\<And>i ord. keeps R view (f i ord)) \<Longrightarrow> keeps R view (ownOrder h c f)"
  unfolding ownOrder_def by (cases "UserIDFrom c") (auto intro!: keeps_intros)

lemma keeps_nonNil [keeps_intros]: "(\<And>a. keeps R view (f a)) \<Longrightarrow> keeps R view (nonNil p f)"
  unfolding nonNil_def by (cases p) (auto intro: keeps_intros)

lemma endpoint_keeps:
  assumes "gorm_ok (app_gorm A) view" and "commands_keep R view A"
    and "route = AdminStatus \<Longrightarrow> status_keeps R view A"
  shows "keeps R (tables view) (endpoint A b route c)"
proof (cases "asks route")
  case True
  from keeps_quiet [OF asking_endpoint_quiet [OF assms(1) True]] show ?thesis .
next
  case False
  have "quiet view (GetOrder_Handle (app_reads A) i)" for i
    using assms(1) by (simp add: app_reads_def quiet_queries)
  then have get: "keeps R (tables view) (oh_get (orderHandler A) i)" for i
    by (simp add: orderHandler_def keeps_quiet quiet_onlyStore)
  have k: "\<And>inp. keeps R (tables view) (oh_place (orderHandler A) inp)"
    "\<And>inp. keeps R (tables view) (oh_cancel (orderHandler A) inp)"
    "\<And>inp. keeps R (tables view) (onlyStore
       (RegisterUser_Handle (unitOfWork_Do (app_gorm A, app_txRegister A)) (app_hasher A) inp))"
    "\<And>i name. keeps R (tables view) (onlyStore
       (UpdateUser_Handle (unitOfWork_Do (app_gorm A, app_txProfile A)) i name))"
    "\<And>now inp. keeps R (tables view) (onlyStore
       (CreateProduct_Handle (unitOfWork_Do (app_gorm A, app_txCreate A)) now inp))"
    "\<And>i inp. keeps R (tables view) (onlyStore
       (UpdateProduct_Handle (unitOfWork_Do (app_gorm A, app_txRevise A)) i inp))"
    using assms(2) by (simp_all add: commands_keep_def keeps_onlyStore)
  have status: "keeps R (tables view) (Admin_UpdateOrderStatus bd (adminHandler A) c)"
    if "route = AdminStatus" for bd
    using assms(3) [OF that] unfolding status_keeps_def
    by (auto simp: Admin_UpdateOrderStatus_def adminHandler_def intro!: keeps_intros)
  have "keeps R (tables view) (Order_Place bd uuid (orderHandler A) c)" for bd uuid
    unfolding Order_Place_def by (cases "UserIDFrom c") (auto simp: Let_def intro!: keeps_intros k)
  moreover have "route \<in> {AuthRegister, UsersCreate, UsersUpdate, OrdersPlace, OrdersCancel, ProductsCreate,
      ProductsUpdate, AdminStatus}"
    using False by (cases route) (auto simp: asks_def)
  ultimately show ?thesis
    by (auto simp: Auth_Register_def HTTP_User_Create_def HTTP_User_Update_def HTTP_Order_Cancel_def
        Product_Create_def Product_Update_def Let_def authHandler_def userHandler_def productHandler_def
        registerUser_def intro!: keeps_intros k get status)
qed

lemma serve_keeps:
  assumes "gorm_ok (app_gorm A) view" and "commands_keep R view A"
    and "route_of (c_Method c) path = Some AdminStatus \<Longrightarrow> status_keeps R view A"
    and "serve A b L path c (wr, t, w) = (r, (wr', t', w'))"
  shows "R (tables view w) (tables view w')"
  using assms(4)
proof (cases rule: serve_cases)
  case (ran resp route claims r0)
  with assms(3) have "route = AdminStatus \<Longrightarrow> status_keeps R view A" by auto
  from keepsD [OF endpoint_keeps [OF assms(1,2) this] ran(6)] show ?thesis by simp
next
qed simp_all

lemma serve_run_keeps:
  assumes "\<forall>(A, b, path, c) \<in> set reqs. gorm_ok (app_gorm A) view \<and> commands_keep R view A \<and>
      (route_of (c_Method c) path = Some AdminStatus \<longrightarrow> status_keeps R view A)"
  shows "R (tables view (snd tw)) (tables view (snd (serve_run L reqs tw)))"
  using assms
proof (induction L reqs tw rule: serve_run.induct)
  case (1 L tw)
  then show ?case by simp
next
  case (2 L A b path c rest tw)
  obtain t w where tw: "tw = (t, w)" by force
  obtain r wr t' w' where run: "serve A b L path c (Map.empty, t, w) = (r, (wr, t', w'))" by (metis prod_cases4)
  have "R (tables view w) (tables view w')" using serve_keeps [OF _ _ _ run] 2(2) by simp
  with 2 run tw show ?case by (auto intro: kept_trans)
qed

end

end
