(* ===== verification/Books.thy ===== *)
theory Books
  imports Keeping PlaceOrder_Props CancelOrder_Props
begin

text \<open>
  What every request to the service keeps: the integrity of the database and the books of the
  shop, by the endpoints that change tables.
\<close>

text \<open>The books, and a stock row for every product that open orders hold.\<close>

definition shop_ok :: "DB \<Rightarrow> bool" where
  "shop_ok d \<longleftrightarrow> db_ok d \<and> accounted d \<and> (\<forall>pid. stock d pid = None \<longrightarrow> held d pid = 0)"

text \<open>No unit of a product in stock is lost or made up.\<close>

definition conserves :: "DB \<Rightarrow> DB \<Rightarrow> bool" where
  "conserves d d' \<longleftrightarrow> (\<forall>pid. stock d pid \<noteq> None \<longrightarrow> warehouse d' pid = warehouse d pid)"

lemma conserves_refl [simp]: "conserves d d"
  by (simp add: conserves_def)

lemma conserves_trans:
  assumes "conserves d d1" and "conserves d1 d2"
  shows "conserves d d2"
  unfolding conserves_def
proof (intro allI impI)
  fix pid assume pid: "stock d pid \<noteq> None"
  with assms(1) have w: "warehouse d1 pid = warehouse d pid" by (simp add: conserves_def)
  with pid have "stock d1 pid \<noteq> None" by (auto simp: warehouse_def)
  with assms(2) w show "warehouse d2 pid = warehouse d pid" by (simp add: conserves_def)
qed

section \<open>The commands\<close>

lemma held_new_row:
  assumes "db_orders d' = db_orders d @ [m]" and "stock_shift ka kr (row_moves m) d d'"
    and "open_row m \<Longrightarrow> covers fst (row_moves m) d"
    and "\<forall>pid. stock d pid = None \<longrightarrow> held d pid = 0"
  shows "\<forall>pid. stock d' pid = None \<longrightarrow> held d' pid = 0"
proof (intro allI impI)
  fix pid assume "stock d' pid = None"
  with assms(2) have none: "stock d pid = None" by (auto simp: stock_shift_def)
  have "units pid (row_moves m) = 0" if "open_row m"
  proof (rule units_not_in)
    show "pid \<notin> fst ` set (row_moves m)"
      using assms(3) [OF that] none unfolding covers_def by auto
  qed
  with none assms(1,4) show "held d' pid = 0" by (simp add: held_def)
qed

lemma place_keeps:
  assumes "wired G u view h" and "shop_ok (view (w_store w))"
    and "PlaceOrder_Handle h t1 t2 inp w = (res, w')"
  shows "shop_ok (view (w_store w')) \<and> conserves (view (w_store w)) (view (w_store w'))"
proof -
  let ?d = "view (w_store w)" and ?d' = "view (w_store w')"
  have ok: "db_ok ?d" "accounted ?d" "\<forall>pid. stock ?d pid = None \<longrightarrow> held ?d pid = 0"
    using assms(2) by (simp_all add: shop_ok_def)
  from assms(1) ok(1) assms(3) show ?thesis
  proof (cases rule: handle_outcomes)
    case unchanged
    with assms(2) show ?thesis by simp
  next
    case (completed o1 cr k)
    from completed(3) obtain m where m: "db_orders ?d' = db_orders ?d @ [m]" "om_Status m = StatusFulfilled"
      "list_all2 (stored_item (om_ID m)) (map itemToModel (ord_items o1)) (om_Items m)"
      "stock_shift (-1) 0 (moves (ord_items o1)) ?d ?d'"
      by (auto simp: order_completed_def)
    have "row_moves m = moves (ord_items o1)"
      using stored_items_moves [OF m(3)] by (simp add: row_moves_def)
    with held_new_row [OF m(1) _ _ ok(3)] m(2,4) completed_accounted [OF completed(3) ok(2)]
    show ?thesis by (auto simp: shop_ok_def conserves_def open_row_def)
  next
    case (refused e o1 k)
    from refused(3) obtain m where m: "db_orders ?d' = db_orders ?d @ [m]" "om_Status m = StatusFailed"
      "stock ?d' = stock ?d" by (auto simp: order_refused_def)
    have "stock_shift 0 0 (row_moves m) ?d ?d'"
      by (auto simp: stock_shift_def m(3) map_option_case split: option.splits)
    with held_new_row [OF m(1) _ _ ok(3)] m(2) refused_accounted [OF refused(3) ok(2)]
    show ?thesis by (auto simp: shop_ok_def conserves_def open_row_def)
  next
    case (held o1)
    from held(2) obtain m where m: "db_orders ?d' = db_orders ?d @ [m]"
      "list_all2 (stored_item (om_ID m)) (map itemToModel (ord_items o1)) (om_Items m)"
      "stock_shift (-1) 1 (moves (ord_items o1)) ?d ?d'" "covers fst (moves (ord_items o1)) ?d"
      by (auto simp: order_held_def)
    have "row_moves m = moves (ord_items o1)"
      using stored_items_moves [OF m(2)] by (simp add: row_moves_def)
    with held_new_row [OF m(1) _ _ ok(3)] m(3,4) held_accounted [OF held(2) ok(2)]
    show ?thesis by (auto simp: shop_ok_def conserves_def)
  qed
qed

lemma cancel_keeps:
  assumes "cancel_wired G u view h" and "shop_ok (view (w_store w))"
    and "CancelOrder_Handle h inp w = (res, w')"
  shows "shop_ok (view (w_store w')) \<and> conserves (view (w_store w)) (view (w_store w'))"
proof -
  let ?d' = "view (w_store w')"
  have ok: "db_ok (view (w_store w))" "accounted (view (w_store w))"
    "\<forall>pid. stock (view (w_store w)) pid = None \<longrightarrow> held (view (w_store w)) pid = 0"
    using assms(2) by (simp_all add: shop_ok_def)
  note acc = cancel_accounts [OF assms(1) ok(1,2) assms(3)]
  have "held ?d' pid = 0" if "stock ?d' pid = None" for pid
    using acc that ok(3) held_nonneg [of ?d' pid] by (metis order_antisym)
  with acc show ?thesis by (simp add: shop_ok_def conserves_def)
qed

text \<open>A change of other tables than those of stock and orders.\<close>

lemma shop_ok_other:
  assumes "shop_ok d" and "db_ok d'" and "db_orders d' = db_orders d" and "db_inventories d' = db_inventories d"
  shows "shop_ok d' \<and> conserves d d'"
proof -
  have "stock d' = stock d" by (simp add: fun_eq_iff stock_def inv_row_def assms(4))
  moreover have "held d' = held d" "shipped d' = shipped d"
    by (simp_all add: fun_eq_iff held_def shipped_def assms(3))
  ultimately show ?thesis
    using assms by (simp add: shop_ok_def conserves_def accounted_def warehouse_def)
qed

text \<open>A new product brings its own stock, of which nothing is held.\<close>

lemma product_added_keeps:
  assumes "product_added inp d d' p" and "db_ok d'" and "shop_ok d"
  shows "shop_ok d' \<and> conserves d d'"
proof -
  from assms(1) obtain m i where
    d': "d' = d\<lparr>db_products := db_products d @ [m], db_inventories := db_inventories d @ [i]\<rparr>" and
    i: "im_ProductID i = prod_id p" "im_Available i = cpin_InitialStock inp" "im_Reserved i = 0"
    and initial: "0 \<le>s cpin_InitialStock inp"
    by (auto simp: product_added_def)
  have new: "inv_row (prod_id p) d = None"
    using db_ok_columns(1) [OF assms(2)] i(1) by (auto simp: inv_row_def d' find_None_iff image_iff)
  have stock': "stock d' pid = (if pid = prod_id p then Some (sint (cpin_InitialStock inp), 0) else stock d pid)" for pid
    using new i by (auto simp: stock_def inv_row_def d' find_append split: option.splits)
  have "stock d (prod_id p) = None" using new by (simp add: stock_def)
  moreover have "held d' = held d" "shipped d' = shipped d"
    by (simp_all add: fun_eq_iff held_def shipped_def d')
  ultimately show ?thesis
    using assms(2,3) initial stock'
    by (auto simp: shop_ok_def conserves_def accounted_def warehouse_def d' word_sle_eq)
qed

section \<open>The commands keep the shop in order\<close>

definition shop_kept :: "DB \<Rightarrow> DB \<Rightarrow> bool" where
  "shop_kept d d' \<longleftrightarrow> (shop_ok d \<longrightarrow> shop_ok d' \<and> conserves d d')"

interpretation books: keeping shop_kept
  by unfold_locales (auto simp: shop_kept_def intro: conserves_trans)

lemma shop_keepsI:
  "(\<And>s r s'. shop_ok (view s) \<Longrightarrow> m s = (r, s') \<Longrightarrow> shop_ok (view s') \<and> conserves (view s) (view s'))
     \<Longrightarrow> keeps shop_kept view m"
  by (auto simp: shop_kept_def intro: keepsI)

text \<open>The wiring of the order commands.\<close>

lemma app_wired:
  assumes "app_ok A view"
  shows "wired (app_gorm A) (app_gorm A, app_txPlace A) view (placeOrder A)"
    and "cancel_wired (app_gorm A) (app_gorm A, app_txCancel A) view
      \<lparr>co_uow = unitOfWork_Do (app_gorm A, app_txCancel A), co_reads = app_reads A\<rparr>"
    and "uow_ok (app_gorm A, app_txRegister A) view" and "uow_ok (app_gorm A, app_txProfile A) view"
    and "uow_ok (app_gorm A, app_txCreate A) view" and "uow_ok (app_gorm A, app_txRevise A) view"
    and "uow_ok (app_gorm A, app_txStatus A) view"
  using assms
  by (simp_all add: wired_def cancel_wired_def placeOrder_def app_reads_def app_ok_def uow_ok_def)

lemma store_commands_keep:
  assumes "app_ok A view"
  shows "keeps shop_kept view (RegisterUser_Handle (unitOfWork_Do (app_gorm A, app_txRegister A)) (app_hasher A) rin)"
    and "keeps shop_kept view (UpdateUser_Handle (unitOfWork_Do (app_gorm A, app_txProfile A)) i name)"
    and "keeps shop_kept view (CreateProduct_Handle (unitOfWork_Do (app_gorm A, app_txCreate A)) now cin)"
    and "keeps shop_kept view (UpdateProduct_Handle (unitOfWork_Do (app_gorm A, app_txRevise A)) i uin)"
proof -
  note uow = app_wired(3-6) [OF assms]
  show "keeps shop_kept view (RegisterUser_Handle (unitOfWork_Do (app_gorm A, app_txRegister A)) (app_hasher A) rin)"
  proof (rule shop_keepsI)
    fix s r s' assume s: "shop_ok (view s)" and run:
      "RegisterUser_Handle (unitOfWork_Do (app_gorm A, app_txRegister A)) (app_hasher A) rin s = (r, s')"
    have db: "db_ok (view s)" using s by (simp add: shop_ok_def)
    from uow(1) run db show "shop_ok (view s') \<and> conserves (view s) (view s')"
    proof (cases rule: registering.Register_cases)
      case (registered u)
      then show ?thesis by (intro shop_ok_other [OF s]) (auto simp: user_added_def)
    qed (simp add: s)
  qed
  show "keeps shop_kept view (UpdateUser_Handle (unitOfWork_Do (app_gorm A, app_txProfile A)) i name)"
  proof (rule shop_keepsI)
    fix s r s' assume s: "shop_ok (view s)" and run:
      "UpdateUser_Handle (unitOfWork_Do (app_gorm A, app_txProfile A)) i name s = (r, s')"
    have db: "db_ok (view s)" using s by (simp add: shop_ok_def)
    have keys: "keys_ok userSchema (map (\<lambda>x. if um_ID x = i then renamed_row name x else x) rows) = keys_ok userSchema rows" for rows
      by (rule keys_ok_map) (auto simp: userSchema_def renamed_row_def)
    from uow(2) run db show "shop_ok (view s') \<and> conserves (view s) (view s')"
    proof (cases rule: profile.Profile_cases)
      case (updated m)
      with db keys show ?thesis by (intro shop_ok_other [OF s]) (auto simp: db_ok_def)
    qed (simp add: s)
  qed
  show "keeps shop_kept view (CreateProduct_Handle (unitOfWork_Do (app_gorm A, app_txCreate A)) now cin)"
  proof (rule shop_keepsI)
    fix s r s' assume s: "shop_ok (view s)" and run:
      "CreateProduct_Handle (unitOfWork_Do (app_gorm A, app_txCreate A)) now cin s = (r, s')"
    have db: "db_ok (view s)" using s by (simp add: shop_ok_def)
    from uow(3) run db show "shop_ok (view s') \<and> conserves (view s) (view s')"
    proof (cases rule: creating.Create_cases)
      case (created p)
      then show ?thesis using product_added_keeps s by blast
    qed (simp add: s)
  qed
  show "keeps shop_kept view (UpdateProduct_Handle (unitOfWork_Do (app_gorm A, app_txRevise A)) i uin)"
  proof (rule shop_keepsI)
    fix s r s' assume s: "shop_ok (view s)" and run:
      "UpdateProduct_Handle (unitOfWork_Do (app_gorm A, app_txRevise A)) i uin s = (r, s')"
    have db: "db_ok (view s)" using s by (simp add: shop_ok_def)
    have keys: "keys_ok productSchema (map (\<lambda>x. if pm_ID x = i then revised_row uin x else x) rows) = keys_ok productSchema rows" for rows
      by (rule keys_ok_map) (auto simp: productSchema_def revised_row_def)
    from uow(4) run db show "shop_ok (view s') \<and> conserves (view s) (view s')"
    proof (cases rule: revising.Revise_cases)
      case (revised p)
      with db keys show ?thesis by (intro shop_ok_other [OF s]) (auto simp: db_ok_def product_revised_def)
    qed (simp add: s)
  qed
qed

lemma books_commands:
  assumes "app_ok A view"
  shows "commands_keep shop_kept view A"
proof -
  have "keeps shop_kept (tables view) (oh_place (orderHandler A) inp)" for inp
    using place_keeps [OF app_wired(1) [OF assms]] by (intro shop_keepsI) (simp add: orderHandler_def)
  moreover have "keeps shop_kept (tables view) (oh_cancel (orderHandler A) inp)" for inp
    using cancel_keeps [OF app_wired(2) [OF assms]] by (intro shop_keepsI) (simp add: orderHandler_def)
  ultimately show ?thesis using store_commands_keep [OF assms] by (simp add: commands_keep_def)
qed

lemma books_run:
  assumes "\<forall>(A, b, path, c) \<in> set reqs. app_ok A view \<and> route_of (c_Method c) path \<noteq> Some AdminStatus"
    and "shop_ok (tables view w)"
  shows "shop_ok (tables view (snd (serve_run L reqs (t, w)))) \<and>
    conserves (tables view w) (tables view (snd (serve_run L reqs (t, w))))"
proof -
  have "\<forall>(A, b, path, c) \<in> set reqs. gorm_ok (app_gorm A) view \<and> commands_keep shop_kept view A \<and>
      (route_of (c_Method c) path = Some AdminStatus \<longrightarrow> status_keeps shop_kept view A)"
    using assms(1) books_commands by (fastforce simp: app_ok_def)
  from books.serve_run_keeps [OF this, of "(t, w)" L] assms(2) show ?thesis by (simp add: shop_kept_def)
qed

end
