(* ===== verification/Hub.thy ===== *)
theory Hub
  imports GoPrelude "HOL-Library.Sublist"
begin

text \<open>
  The websocket hub, internal/interfaces/http/ws/hub.go: the loop \<open>Run\<close> owns the set of clients;
  connections register and unregister over unbuffered channels, \<open>Broadcast\<close> puts messages into
  a buffered one, and each client has a buffered channel that its \<open>writePump\<close> empties. Clients
  are numbers; a connection, its deadlines and its log are not part of the model.
\<close>

definition sendBuffer :: nat where
  "sendBuffer = 256"

record Hub =
  hub_clients :: "nat set"
  hub_broadcast :: "string list"
  hub_done :: bool

text \<open>
  The goroutines: \<open>hr_registering\<close> and \<open>hr_unregistering\<close> hold the clients whose goroutine waits
  to send on those channels, \<open>hr_reading\<close> and \<open>hr_writing\<close> those whose pump runs. \<open>hr_send\<close> and
  \<open>hr_closed\<close> are the clients' channels. \<open>hr_known\<close>, \<open>hr_joined\<close> (how many messages the loop had
  taken before), \<open>hr_taken\<close> and \<open>hr_received\<close> (what a client's \<open>writePump\<close> took) record the past.
\<close>

record HubRun = Hub +
  hr_running :: bool
  hr_registering :: "nat set"
  hr_unregistering :: "nat set"
  hr_reading :: "nat set"
  hr_writing :: "nat set"
  hr_send :: "nat \<Rightarrow> string list"
  hr_closed :: "nat \<Rightarrow> bool"
  hr_panicked :: bool
  hr_known :: "nat set"
  hr_joined :: "nat \<rightharpoonup> nat"
  hr_taken :: "string list"
  hr_received :: "nat \<Rightarrow> string list"

text \<open>\<open>New\<close>, and the call of \<open>Run\<close>.\<close>

definition Hub_New :: Hub where
  "Hub_New = \<lparr>hub_clients = {}, hub_broadcast = [], hub_done = False\<rparr>"

definition Hub_Run :: HubRun where
  "Hub_Run = \<lparr>hub_clients = hub_clients Hub_New, hub_broadcast = hub_broadcast Hub_New,
     hub_done = hub_done Hub_New, hr_running = True, hr_registering = {}, hr_unregistering = {},
     hr_reading = {}, hr_writing = {}, hr_send = (\<lambda>_. []), hr_closed = (\<lambda>_. False), hr_panicked = False,
     hr_known = {}, hr_joined = Map.empty, hr_taken = [], hr_received = (\<lambda>_. [])\<rparr>"

text \<open>\<open>close(client.send)\<close>: a second close panics.\<close>

definition hub_close :: "nat \<Rightarrow> HubRun \<Rightarrow> HubRun" where
  "hub_close c r = (if hr_closed r c then r\<lparr>hr_panicked := True\<rparr>
     else r\<lparr>hr_closed := (hr_closed r)(c := True)\<rparr>)"

definition hub_remove :: "nat \<Rightarrow> HubRun \<Rightarrow> HubRun" where
  "hub_remove c r = hub_close c (r\<lparr>hub_clients := hub_clients r - {c}\<rparr>)"

text \<open>The select on one client's channel; a send on a closed channel panics.\<close>

definition hub_offer :: "string \<Rightarrow> nat \<Rightarrow> HubRun \<Rightarrow> HubRun" where
  "hub_offer m c r =
     (if hr_closed r c then r\<lparr>hr_panicked := True\<rparr>
      else if length (hr_send r c) < sendBuffer then r\<lparr>hr_send := (hr_send r)(c := hr_send r c @ [m])\<rparr>
      else hub_remove c r)"

datatype hub_act = Connect nat | Registered nat | Hangup nat | Unregistered nat | Broadcast string
  | GiveUp string | Deliver "nat list" | StopHub | Quit "nat list" | Write nat | WriteFails nat
  | PingFails nat | WriteCloses nat

text \<open>
  The cases of the loop's select, the two pumps, \<open>Broadcast\<close>, \<open>Stop\<close> and \<open>ServeWS\<close>. The loop
  visits the clients in an order \<open>cs\<close> of its own. A client is a new pointer in each \<open>ServeWS\<close>.
\<close>

inductive hub_step :: "HubRun \<Rightarrow> hub_act \<Rightarrow> HubRun \<Rightarrow> bool" where
  Connect: "c \<notin> hr_known r \<Longrightarrow> hub_step r (Connect c)
     (r\<lparr>hr_known := insert c (hr_known r), hr_registering := insert c (hr_registering r)\<rparr>)"
| Registered: "hr_running r \<Longrightarrow> c \<in> hr_registering r \<Longrightarrow> hub_step r (Registered c)
     (r\<lparr>hr_registering := hr_registering r - {c}, hub_clients := insert c (hub_clients r),
        hr_joined := (hr_joined r)(c \<mapsto> length (hr_taken r)),
        hr_reading := insert c (hr_reading r), hr_writing := insert c (hr_writing r)\<rparr>)"
| Hangup: "c \<in> hr_reading r \<Longrightarrow> hub_step r (Hangup c)
     (r\<lparr>hr_reading := hr_reading r - {c}, hr_unregistering := insert c (hr_unregistering r)\<rparr>)"
| Unregistered: "hr_running r \<Longrightarrow> c \<in> hr_unregistering r \<Longrightarrow> hub_step r (Unregistered c)
     ((if c \<in> hub_clients r then hub_remove c r else r)
        \<lparr>hr_unregistering := hr_unregistering r - {c}\<rparr>)"
| Broadcast: "length (hub_broadcast r) < sendBuffer \<Longrightarrow> hub_step r (Broadcast m)
     (r\<lparr>hub_broadcast := hub_broadcast r @ [m]\<rparr>)"
| GiveUp: "hub_done r \<Longrightarrow> hub_step r (GiveUp m) r"
| Deliver: "hr_running r \<Longrightarrow> hub_broadcast r = m # ms \<Longrightarrow> set cs = hub_clients r \<Longrightarrow> distinct cs
     \<Longrightarrow> hub_step r (Deliver cs)
       (fold (hub_offer m) cs (r\<lparr>hub_broadcast := ms, hr_taken := hr_taken r @ [m]\<rparr>))"
| StopHub: "hub_step r StopHub (r\<lparr>hub_done := True\<rparr>)"
| Quit: "hr_running r \<Longrightarrow> hub_done r \<Longrightarrow> set cs = hub_clients r \<Longrightarrow> distinct cs
     \<Longrightarrow> hub_step r (Quit cs) ((fold hub_remove cs r)\<lparr>hr_running := False\<rparr>)"
| Write: "c \<in> hr_writing r \<Longrightarrow> hr_send r c = m # ms \<Longrightarrow> hub_step r (Write c)
     (r\<lparr>hr_send := (hr_send r)(c := ms), hr_received := (hr_received r)(c := hr_received r c @ [m])\<rparr>)"
| WriteFails: "c \<in> hr_writing r \<Longrightarrow> hr_send r c = m # ms \<Longrightarrow> hub_step r (WriteFails c)
     (r\<lparr>hr_send := (hr_send r)(c := ms), hr_received := (hr_received r)(c := hr_received r c @ [m]),
        hr_writing := hr_writing r - {c}\<rparr>)"
| PingFails: "c \<in> hr_writing r \<Longrightarrow> hub_step r (PingFails c) (r\<lparr>hr_writing := hr_writing r - {c}\<rparr>)"
| WriteCloses: "c \<in> hr_writing r \<Longrightarrow> hr_send r c = [] \<Longrightarrow> hr_closed r c \<Longrightarrow> hub_step r (WriteCloses c)
     (r\<lparr>hr_writing := hr_writing r - {c}\<rparr>)"

inductive hub_run :: "HubRun \<Rightarrow> hub_act list \<Rightarrow> HubRun \<Rightarrow> bool" where
  hub_halt: "hub_run r [] r"
| hub_next: "hub_step r a r' \<Longrightarrow> hub_run r' as r'' \<Longrightarrow> hub_run r (a # as) r''"

inductive_cases hub_stepE: "hub_step r a r'"
inductive_simps hub_step_simps: "hub_step r (Connect c) r'" "hub_step r (Registered c) r'"
  "hub_step r (Hangup c) r'" "hub_step r (Unregistered c) r'" "hub_step r (Broadcast m) r'"
  "hub_step r (Deliver cs) r'" "hub_step r StopHub r'" "hub_step r (Quit cs) r'" "hub_step r (Write c) r'"
  "hub_step r (WriteCloses c) r'"
inductive_simps hub_run_Nil: "hub_run r [] r'"
  and hub_run_Cons: "hub_run r (a # as) r'"

text \<open>The messages accepted by \<open>Broadcast\<close>.\<close>

fun accepted :: "hub_act list \<Rightarrow> string list" where
  "accepted [] = []"
| "accepted (Broadcast m # as) = m # accepted as"
| "accepted (_ # as) = accepted as"

section \<open>The loops over the clients\<close>

lemma hub_offer_all:
  assumes "distinct cs" and "\<forall>c \<in> set cs. \<not> hr_closed r c"
  shows "fold (hub_offer m) cs r = r\<lparr>
    hub_clients := hub_clients r - {c \<in> set cs. sendBuffer \<le> length (hr_send r c)},
    hr_send := (\<lambda>c. if c \<in> set cs \<and> length (hr_send r c) < sendBuffer then hr_send r c @ [m] else hr_send r c),
    hr_closed := (\<lambda>c. hr_closed r c \<or> c \<in> set cs \<and> sendBuffer \<le> length (hr_send r c))\<rparr>"
  using assms
proof (induction cs arbitrary: r)
  case Nil
  then show ?case by simp
next
  case (Cons c cs)
  have "fold (hub_offer m) (c # cs) r = fold (hub_offer m) cs (hub_offer m c r)" by simp
  also have "\<dots> = (hub_offer m c r)\<lparr>
    hub_clients := hub_clients (hub_offer m c r) - {d \<in> set cs. sendBuffer \<le> length (hr_send (hub_offer m c r) d)},
    hr_send := (\<lambda>d. if d \<in> set cs \<and> length (hr_send (hub_offer m c r) d) < sendBuffer
      then hr_send (hub_offer m c r) d @ [m] else hr_send (hub_offer m c r) d),
    hr_closed := (\<lambda>d. hr_closed (hub_offer m c r) d \<or>
      d \<in> set cs \<and> sendBuffer \<le> length (hr_send (hub_offer m c r) d))\<rparr>"
    using Cons.prems by (intro Cons.IH) (auto simp: hub_offer_def hub_remove_def hub_close_def)
  also have "\<dots> = r\<lparr>
    hub_clients := hub_clients r - {d \<in> set (c # cs). sendBuffer \<le> length (hr_send r d)},
    hr_send := (\<lambda>d. if d \<in> set (c # cs) \<and> length (hr_send r d) < sendBuffer then hr_send r d @ [m] else hr_send r d),
    hr_closed := (\<lambda>d. hr_closed r d \<or> d \<in> set (c # cs) \<and> sendBuffer \<le> length (hr_send r d))\<rparr>"
    using Cons.prems
    by (cases r) (auto simp: hub_offer_def hub_remove_def hub_close_def fun_eq_iff)
  finally show ?case .
qed

lemma hub_remove_all:
  assumes "distinct cs" and "\<forall>c \<in> set cs. \<not> hr_closed r c"
  shows "fold hub_remove cs r = r\<lparr>hub_clients := hub_clients r - set cs,
    hr_closed := (\<lambda>c. hr_closed r c \<or> c \<in> set cs)\<rparr>"
  using assms
proof (induction cs arbitrary: r)
  case Nil
  then show ?case by simp
next
  case (Cons c cs)
  have "fold hub_remove (c # cs) r = fold hub_remove cs (hub_remove c r)" by simp
  also have "\<dots> = (hub_remove c r)\<lparr>
      hub_clients := hub_clients (hub_remove c r) - set cs,
      hr_closed := (\<lambda>d. hr_closed (hub_remove c r) d \<or> d \<in> set cs)\<rparr>"
    using Cons.prems by (intro Cons.IH) (auto simp: hub_remove_def hub_close_def)
  also have "\<dots> = r\<lparr>hub_clients := hub_clients r - set (c # cs),
      hr_closed := (\<lambda>d. hr_closed r d \<or> d \<in> set (c # cs))\<rparr>"
    using Cons.prems by (cases r) (auto simp: hub_remove_def hub_close_def fun_eq_iff)
  finally show ?case .
qed

section \<open>The invariant\<close>

text \<open>
  A registered client is live, and its channel open, or its channel was closed once. What a live
  client took and what waits in its channel are the messages since it registered; a client that
  was removed has a beginning of them.
\<close>

definition client_ok :: "HubRun \<Rightarrow> nat \<Rightarrow> bool" where
  "client_ok r c \<longleftrightarrow> length (hr_send r c) \<le> sendBuffer \<and> (c \<in> hr_registering r \<longrightarrow> c \<in> hr_known r) \<and>
     (case hr_joined r c of
        None \<Rightarrow> hr_send r c = [] \<and> hr_received r c = [] \<and> \<not> hr_closed r c \<and> c \<notin> hub_clients r
      | Some n \<Rightarrow> c \<in> hr_known r \<and> c \<notin> hr_registering r \<and> n \<le> length (hr_taken r) \<and>
          (hr_closed r c \<longleftrightarrow> c \<notin> hub_clients r) \<and>
          (if c \<in> hub_clients r then hr_received r c @ hr_send r c = drop n (hr_taken r)
           else prefix (hr_received r c @ hr_send r c) (drop n (hr_taken r))))"

definition hub_inv :: "HubRun \<Rightarrow> bool" where
  "hub_inv r \<longleftrightarrow> \<not> hr_panicked r \<and> length (hub_broadcast r) \<le> sendBuffer \<and>
     (\<not> hr_running r \<longrightarrow> hub_done r \<and> hub_clients r = {}) \<and> (\<forall>c. client_ok r c)"

lemma hub_inv_start: "hub_inv Hub_Run"
  by (simp add: hub_inv_def client_ok_def Hub_Run_def Hub_New_def)

lemma live_open: "hub_inv r \<Longrightarrow> c \<in> hub_clients r \<Longrightarrow> \<not> hr_closed r c"
  by (auto simp: hub_inv_def client_ok_def split: option.splits dest: spec [of _ c])

lemma hub_deliver_fields:
  assumes "hub_inv r" and "set cs = hub_clients r" and "distinct cs"
  shows "fold (hub_offer m) cs (r\<lparr>hub_broadcast := ms, hr_taken := hr_taken r @ [m]\<rparr>) =
    r\<lparr>hub_broadcast := ms, hr_taken := hr_taken r @ [m],
      hub_clients := {c \<in> hub_clients r. length (hr_send r c) < sendBuffer},
      hr_send := (\<lambda>c. if c \<in> hub_clients r \<and> length (hr_send r c) < sendBuffer then hr_send r c @ [m] else hr_send r c),
      hr_closed := (\<lambda>c. hr_closed r c \<or> c \<in> hub_clients r \<and> sendBuffer \<le> length (hr_send r c))\<rparr>"
proof -
  have set_eq: "hub_clients r - {c \<in> hub_clients r. sendBuffer \<le> length (hr_send r c)} =
      {c \<in> hub_clients r. length (hr_send r c) < sendBuffer}" by auto
  show ?thesis
    using hub_offer_all [OF assms(3), of "r\<lparr>hub_broadcast := ms, hr_taken := hr_taken r @ [m]\<rparr>" m]
      live_open [OF assms(1)]
    by (simp add: assms(2) set_eq cong: if_cong)
qed

lemma hub_quit_fields:
  assumes "hub_inv r" and "set cs = hub_clients r" and "distinct cs"
  shows "fold hub_remove cs r = r\<lparr>hub_clients := {}, hr_closed := (\<lambda>c. hr_closed r c \<or> c \<in> hub_clients r)\<rparr>"
  using hub_remove_all [OF assms(3), of r] live_open [OF assms(1)] by (simp add: assms(2))

lemma hub_remove_live:
  "hub_inv r \<Longrightarrow> c \<in> hub_clients r \<Longrightarrow>
     hub_remove c r = r\<lparr>hub_clients := hub_clients r - {c}, hr_closed := (hr_closed r)(c := True)\<rparr>"
  using live_open [of r c] by (simp add: hub_remove_def hub_close_def)

lemma client_ok_step:
  assumes "hub_step r a r'" and "hub_inv r"
  shows "client_ok r' d"
proof -
  from assms(2) have d: "client_ok r d" by (simp add: hub_inv_def)
  from assms(1) show ?thesis
  proof cases
    case (Deliver m ms cs)
    with hub_deliver_fields [OF assms(2), of cs m ms] d show ?thesis
      by (auto simp: client_ok_def append_assoc [symmetric] simp del: append_assoc
          split: option.splits intro: prefix_prefix)
  next
    case (Quit cs)
    with hub_quit_fields [OF assms(2), of cs] d show ?thesis
      by (auto simp: client_ok_def split: option.splits)
  next
    case (Unregistered c)
    with hub_remove_live [OF assms(2), of c] d show ?thesis
      by (auto simp: client_ok_def split: option.splits)
  qed (use d in \<open>auto simp: client_ok_def split: option.splits\<close>)
qed

lemma hub_inv_step:
  assumes "hub_inv r" and "hub_step r a r'"
  shows "hub_inv r'"
proof -
  have "\<not> hr_panicked r' \<and> length (hub_broadcast r') \<le> sendBuffer \<and>
      (\<not> hr_running r' \<longrightarrow> hub_done r' \<and> hub_clients r' = {})"
    using assms(2)
  proof cases
    case (Deliver m ms cs)
    with hub_deliver_fields [OF assms(1), of cs m ms] assms(1) show ?thesis by (simp add: hub_inv_def)
  next
    case (Quit cs)
    with hub_quit_fields [OF assms(1), of cs] assms(1) show ?thesis by (simp add: hub_inv_def)
  next
    case (Unregistered c)
    with hub_remove_live [OF assms(1), of c] assms(1) show ?thesis by (simp add: hub_inv_def)
  qed (use assms(1) in \<open>simp_all add: hub_inv_def\<close>)
  with client_ok_step [OF assms(2,1)] show ?thesis by (simp add: hub_inv_def)
qed

lemma hub_inv_run: "hub_run r as r' \<Longrightarrow> hub_inv r \<Longrightarrow> hub_inv r'"
  by (induction rule: hub_run.induct) (auto dest: hub_inv_step)

section \<open>Messages and goroutines over a run\<close>

text \<open>Accepted messages are taken in order, or wait.\<close>

lemma hub_fold_fields:
  "hr_taken (fold (hub_offer m) cs r) = hr_taken r"
  "hub_broadcast (fold (hub_offer m) cs r) = hub_broadcast r"
  "hr_taken (fold hub_remove cs r) = hr_taken r"
  "hub_broadcast (fold hub_remove cs r) = hub_broadcast r"
  "hr_running (fold (hub_offer m) cs r) = hr_running r"
  "hr_registering (fold (hub_offer m) cs r) = hr_registering r"
  "hr_unregistering (fold (hub_offer m) cs r) = hr_unregistering r"
  by (induction cs arbitrary: r) (simp_all add: hub_offer_def hub_remove_def hub_close_def)

lemma hub_taken_step:
  "hub_step r a r' \<Longrightarrow> hr_taken r' @ hub_broadcast r' = hr_taken r @ hub_broadcast r @ accepted [a]"
  by (erule hub_stepE) (simp_all add: hub_fold_fields hub_remove_def hub_close_def)

lemma accepted_Cons: "accepted (a # as) = accepted [a] @ accepted as"
  by (cases a) auto

lemma hub_taken_run:
  "hub_run r as r' \<Longrightarrow> hr_taken r' @ hub_broadcast r' = hr_taken r @ hub_broadcast r @ accepted as"
proof (induction rule: hub_run.induct)
  case (hub_halt r)
  then show ?case by simp
next
  case (hub_next r a r' as r'')
  with hub_taken_step [OF hub_next(1)] show ?case
    by (subst accepted_Cons) (simp add: append_assoc [symmetric] del: append_assoc)
qed

text \<open>Once the loop has returned, nobody receives from the two unbuffered channels.\<close>

lemma hub_stuck_step:
  "hub_step r a r' \<Longrightarrow> \<not> hr_running r \<Longrightarrow>
     \<not> hr_running r' \<and> hr_registering r \<subseteq> hr_registering r' \<and> hr_unregistering r \<subseteq> hr_unregistering r'"
  by (erule hub_stepE) (auto simp: hub_fold_fields)

lemma hub_stuck_run:
  "hub_run r as r' \<Longrightarrow> \<not> hr_running r \<Longrightarrow>
     \<not> hr_running r' \<and> hr_registering r \<subseteq> hr_registering r' \<and> hr_unregistering r \<subseteq> hr_unregistering r'"
  by (induction rule: hub_run.induct) (blast dest: hub_stuck_step)+

end
