(* ===== verification/Web_Props.thy ===== *)
theory Web_Props
  imports Books Hub
begin

text \<open>The properties of the HTTP interface, the rate limiter and the websocket hub.\<close>

section \<open>Who may do what\<close>


text \<open>A request for the low stock, with the token of a customer.\<close>

definition demo_app :: "(DB, nat) App" where
  "demo_app = \<lparr>app_gorm = memGorm, app_txPlace = memTransaction, app_txCancel = memTransaction,
     app_txStatus = memTransaction, app_txRegister = memTransaction, app_txProfile = memTransaction,
     app_txCreate = memTransaction, app_txRevise = memTransaction, app_gateway = accepting,
     app_submit = None, app_maxAttempts = 3, app_retryBackoff = 10,
     app_hasher = \<lparr>pwh_Hash = (\<lambda>p. Ok (''#'' @ p)), pwh_Compare = (\<lambda>h p. if h = ''#'' @ p then None else Some (Plain ''mismatch''))\<rparr>,
     app_issue = (\<lambda>i role. Ok (role @ dec (unat i))),
     app_verify = (\<lambda>token. if token = ''root'' then Ok \<lparr>tc_UserID = 1, tc_Role = ''admin''\<rparr>
       else if token = ''three'' then Ok \<lparr>tc_UserID = 3, tc_Role = ''customer''\<rparr>
       else if token = ''nine'' then Ok \<lparr>tc_UserID = 9, tc_Role = ''customer''\<rparr>
       else Err (Unauthorized ''invalid_token'' ''invalid or expired token'')),
     app_now = 100, app_nowPayment = 200, app_rfc3339 = (\<lambda>t. dec (nat t))\<rparr>"

definition demo_binding :: Binding where
  "demo_binding = \<lparr>
     bind_place = (\<lambda>body. Ok \<lparr>por_Items = [\<lparr>pir_ProductID = 7, pir_Quantity = 2\<rparr>]\<rparr>),
     bind_register = (\<lambda>body. Ok \<lparr>rr_Email = ''a@b.c'', rr_Password = ''password'', rr_FullName = ''A'', rr_Role = body\<rparr>),
     bind_login = (\<lambda>body. Err (Plain ''EOF'')), bind_profile = (\<lambda>body. Err (Plain ''EOF'')),
     bind_create = (\<lambda>body. Err (Plain ''EOF'')), bind_update = (\<lambda>body. Err (Plain ''EOF'')),
     bind_status = (\<lambda>body. Ok body), uuid_key = ''key-1'', uuid_request = ''req-1'',
     gin_redirects = (\<lambda>_ _. False),
     gin_location = (\<lambda>_ path. ''/api/v1'' @ concat (map (\<lambda>seg. CHR ''/'' # seg) path))\<rparr>"

definition no_limits :: "unit Limits" where
  "no_limits = \<lparr>lim_enabled = False, lim_lib = \<lparr>rate_new = (), rate_allow = (\<lambda>t l. (True, l))\<rparr>, lim_ttl = 10\<rparr>"

definition demo_request :: "string \<Rightarrow> string \<Rightarrow> string \<Rightarrow> Context" where
  "demo_request httpMethod token key = \<lparr>c_Method = httpMethod,
     c_Header = (\<lambda>_. '''')(''Authorization'' := ''Bearer '' @ token, ''Idempotency-Key'' := key),
     c_Query = (\<lambda>_. ''''), c_Param = (\<lambda>_. ''''), c_ClientIP = ''10.0.0.1'', c_Body = '''',
     c_requestID = None, c_userID = None, c_userRole = None\<rparr>"

definition demo_state :: "DB \<Rightarrow> Headers \<times> unit RateTable \<times> (DB, nat) World" where
  "demo_state d = (Map.empty, NewRateTable 0, demo_world d)"

lemma demo_bearer:
  "bearer (app_verify demo_app) (demo_request httpMethod ''three'' key) = Some \<lparr>tc_UserID = 3, tc_Role = ''customer''\<rparr>"
  "bearer (app_verify demo_app) (demo_request httpMethod ''nine'' key) = Some \<lparr>tc_UserID = 9, tc_Role = ''customer''\<rparr>"
  by (simp_all add: bearer_def demo_request_def demo_app_def EqualFold_def ToLower_def lower_char_def
      TrimSpace_def is_space_def)

lemmas route_eval = route_of_def routes_def matches_def path_id_def group_of_def demo_request_def

lemma demo_routes:
  "route_of (c_Method (demo_request ''GET'' token key)) [''admin'', ''inventory'', ''low-stock''] = Some AdminLowStock"
  "route_of (c_Method (demo_request ''GET'' token key)) [''orders'', i] = (if i = '''' then None else Some OrdersGet)"
  "route_of (c_Method (demo_request ''POST'' token key)) [''orders''] = Some OrdersPlace"
  "route_of (c_Method (demo_request ''POST'' token key)) [''auth'', ''register''] = Some AuthRegister"
  "path_id (c_Method (demo_request ''GET'' token key)) [''orders'', i] = i"
  by (simp_all add: route_eval)



section \<open>The books\<close>

text \<open>C3: whatever requests the service serves one at a time, each handled completely before the
  next (two concurrent cancellations break it, see Races), other than changes of an
  order's status by an admin: however each ends, the database keeps its integrity, available stock never goes
  negative, the reserved counter of every product is what its open orders hold, and of every
  product in stock the units available, held and shipped always add up to the same number.\<close>

theorem service_accounting:
  assumes "\<forall>(A, b, path, c) \<in> set reqs. app_ok A view \<and> route_of (c_Method c) path \<noteq> Some AdminStatus"
    and "shop_ok (tables view w)" and "serve_run L reqs (t, w) = (t', w')"
  shows "shop_ok (tables view w') \<and> conserves (tables view w) (tables view w')"
  using books_run [OF assms(1,2), of L t] assms(3) by simp

lemma demo_app_ok: "app_ok demo_app id"
  by (simp add: app_ok_def demo_app_def memGorm_ok memTransaction_ok)

text \<open>User 3 orders two of the five key boards, and asks for the order.\<close>

theorem service_accounting_witness:
  "\<exists>d. w_store (snd (serve_run no_limits
      [(demo_app, demo_binding, [''orders''], demo_request ''POST'' ''three'' ''k2''),
       (demo_app, demo_binding, [''orders'', ''1''], demo_request ''GET'' ''three'' '''')]
      (NewRateTable 0, demo_world demo_db))) = d \<and> accounted d \<and> warehouse d 7 = warehouse demo_db 7"
proof -
  let ?reqs = "[(demo_app, demo_binding, [''orders''], demo_request ''POST'' ''three'' ''k2''),
       (demo_app, demo_binding, [''orders'', ''1''], demo_request ''GET'' ''three'' '''')]"
  have reqs: "\<forall>(A, b, path, c) \<in> set ?reqs. app_ok A id \<and> route_of (c_Method c) path \<noteq> Some AdminStatus"
    by (simp add: demo_app_ok demo_routes)
  have shop: "shop_ok (tables id (demo_world demo_db))"
    using demo_db_ok demo_accounted by (simp add: shop_ok_def demo_world_def held_def units_of_def demo_db_def)
  have stocked: "stock demo_db 7 \<noteq> None"
    by (simp add: stock_def inv_row_def demo_db_def demo_stock_def)
  obtain t w where run: "serve_run no_limits ?reqs (NewRateTable 0, demo_world demo_db) = (t, w)" by force
  from service_accounting [OF reqs shop run] stocked run show ?thesis
    by (auto simp: shop_ok_def conserves_def demo_world_def)
qed

section \<open>Orders\<close>

text \<open>C7: on the routes that name an order by its id (the order, its status, its cancellation) the
  order is shown, or cancelled, only for the user it belongs to and for admins: if the answer is a
  success, or any table changed, the caller's token is that of the order's user or has the role
  admin. (Placing an order under a known idempotency key shows that order to others too.)\<close>

theorem order_access:
  assumes "gorm_ok (app_gorm A) view"
    and "route_of (c_Method c) path = Some route" and "route \<in> {OrdersGet, OrdersCancel, OrdersStatus}"
    and "serve A b L path c (wr, t, w) = (Ok resp, (wr', t', w'))"
    and "rs_Status resp = 200 \<or> view (w_store w') \<noteq> view (w_store w)"
  shows "\<exists>k i m. bearer (app_verify A) c = Some k \<and> ParseUint (path_id (c_Method c) path) = Some i \<and>
    m \<in> set (db_orders (view (w_store w))) \<and> om_ID m = i \<and>
    (om_UserID m = tc_UserID k \<or> tc_Role k = ''admin'')"
  using assms(4)
proof (cases rule: serve_cases)
  case (nothing_done resp0)
  with assms(5) show ?thesis by auto
next
  case (redirect resp0)
  with assms(2) show ?thesis by simp
next
  case (ran resp0 route0 claims r0)
  have route0: "route0 = route" using ran(3) assms(2) by simp
  obtain k where k: "claims = Some k" "bearer (app_verify A) c = Some k"
    using ran(5) assms(3) by (auto simp: route0 admitted_def group_of_def)
  let ?c = "signedIn k (arrived b path c)"
  obtain f where "ownOrder (orderHandler A) ?c f w = (r0, w')"
    using ran(6) assms(3)
    by (auto simp: route0 k asking_def Order_Get_def HTTP_Order_Cancel_def Order_Status_def)
  then show ?thesis
  proof (cases rule: ownOrder_cases)
    case (passed i ord s1)
    from passed(2) obtain s2 where "orderRepo_FindByID (app_gorm A) i (w_store w) = (Ok ord, s2)"
      by (auto simp: orderHandler_def onlyStore_def GetOrder_Handle_def app_reads_def split: prod.splits)
    from first_order [OF assms(1) this [unfolded orderRepo_FindByID_def]] obtain m where
      m: "m \<in> set (db_orders (view (w_store w)))" "om_ID m = i" "orderToDomain m = Ok ord" by auto
    have "ord_userID ord = om_UserID m"
      using m(3) by (auto simp: orderToDomain_def checkR_Ok_iff ReconstituteOrder_def)
    moreover have "ParseUint (path_id (c_Method c) path) = Some i"
      using passed(1) by (auto simp: orderIDFrom_def split: option.splits if_splits)
    ultimately show ?thesis using m k(2) passed(3) by auto
  next
    case (refused e)
    with ran(1,7) assms(5) show ?thesis by auto
  next
    case (looked_up i fr)
    from looked_up(1) obtain s2 where "orderRepo_FindByID (app_gorm A) i (w_store w) = (fr, s2)"
      "w' = w\<lparr>w_store := s2\<rparr>"
      by (auto simp: orderHandler_def onlyStore_def GetOrder_Handle_def app_reads_def split: prod.splits)
    with first_order [OF assms(1) this(1) [unfolded orderRepo_FindByID_def]]
    have "view (w_store w') = view (w_store w)" by simp
    with looked_up(2) ran(1,7) assms(5) show ?thesis by auto
  qed
qed

lemma find_demo:
  "orderRepo_FindByID memGorm 1 demo_db2 = (Ok (demo_order StatusFulfilled), demo_db2)"
  "orderRepo_FindByIdempotencyKey memGorm ''k1'' demo_db2 = (Ok (demo_order StatusFulfilled), demo_db2)"
proof -
  have row: "om_ID demo_row = 1" "om_IdempotencyKey demo_row = ''k1''" by (simp_all add: demo_row_def)
  have orders: "db_orders demo_db2 = [demo_row]" by (simp add: demo_db2_def)
  show "orderRepo_FindByID memGorm 1 demo_db2 = (Ok (demo_order StatusFulfilled), demo_db2)"
    "orderRepo_FindByIdempotencyKey memGorm ''k1'' demo_db2 = (Ok (demo_order StatusFulfilled), demo_db2)"
    by (simp_all add: orderRepo_FindByID_def orderRepo_FindByIdempotencyKey_def mem_eval row orders
        demo_row_order)
qed

text \<open>What the limiter lets through, with the table of limiters it leaves.\<close>

definition over_limit :: "'l Limits \<Rightarrow> time \<Rightarrow> string \<Rightarrow> 'l RateTable \<Rightarrow> bool" where
  "over_limit L now client t \<longleftrightarrow> lim_enabled L \<and> \<not> fst (admit (lim_lib L) (lim_ttl L) now client t)"

lemma limited_passes:
  assumes "\<not> over_limit L now (c_ClientIP c) t"
  obtains t' where "limited L now h c (t, s) = (fst (h c s), (t', snd (h c s)))" "\<not> lim_enabled L \<Longrightarrow> t' = t"
proof -
  obtain ok t1 where a: "admit (lim_lib L) (lim_ttl L) now (c_ClientIP c) t = (ok, t1)" by force
  obtain r s' where h: "h c s = (r, s')" by force
  show ?thesis
  proof (cases "lim_enabled L")
    case True
    with assms a h have "limited L now h c (t, s) = (r, (t1, s'))"
      by (simp add: limited_def over_limit_def RateLimit_def)
    with that h True show ?thesis by simp
  next
    case False
    with h that show ?thesis by (simp add: limited_def)
  qed
qed

lemma limited_refuses:
  assumes "over_limit L now (c_ClientIP c) t"
  obtains resp t' where "limited L now h c (t, s) = (Ok resp, (t', s))" "rs_Status resp = 429"
proof -
  obtain ok t1 where a: "admit (lim_lib L) (lim_ttl L) now (c_ClientIP c) t = (ok, t1)" by force
  let ?resp = "answer 429 (ErrorBody \<lparr>ep_Code = ''rate_limited'', ep_Message = ''too many requests''\<rparr>)"
  have "limited L now h c (t, s) = (Ok ?resp, (t1, s))"
    using assms a by (simp add: limited_def over_limit_def RateLimit_def)
  with that show ?thesis by (simp add: answer_def)
qed

lemma inner_unlimited:
  "route_of (c_Method c) path = Some route \<Longrightarrow> inner A b no_limits path c (t, w) =
     (case guarded (app_verify A) (group_of route) (endpoint A b route) c w of (r, w') \<Rightarrow> (r, (t, w')))"
  by (simp add: inner_def limited_def no_limits_def)

text \<open>A request of a signed-in caller reaches its endpoint.\<close>

lemma serve_passes:
  assumes "route_of (c_Method c) path = Some route" and "group_of route = Authed"
    and "bearer (app_verify A) c = Some k" and "c_Method c \<noteq> ''OPTIONS''"
    and "\<not> over_limit L (app_now A) (c_ClientIP c) t"
    and "endpoint A b route (signedIn k (arrived b path c)) w = (Ok resp, w')"
  obtains wr' t' where "serve A b L path c (wr, t, w) = (Ok resp, (wr', t', w'))" "\<not> lim_enabled L \<Longrightarrow> t' = t"
proof -
  let ?h = "guarded (app_verify A) (group_of route) (endpoint A b route)"
  let ?c = "arrived b path c"
  have meth: "c_Method ?c = c_Method c" by (simp add: arrived_def)
  have client: "c_ClientIP ?c = c_ClientIP c" by (simp add: arrived_def)
  have "Auth (app_verify A) (endpoint A b route) ?c w = (Ok resp, w')"
  proof -
    obtain r0 w0 where run: "Auth (app_verify A) (endpoint A b route) ?c w = (r0, w0)" by force
    then show ?thesis by (cases rule: Auth_cases) (use assms(3,6) run in auto)
  qed
  then have h: "?h ?c w = (Ok resp, w')" using assms(2) by (simp add: guarded_def)
  have open_limit: "\<not> over_limit L (app_now A) (c_ClientIP ?c) t" using assms(5) client by simp
  obtain t' where t': "limited L (app_now A) ?h ?c (t, w) = (Ok resp, (t', w'))" "\<not> lim_enabled L \<Longrightarrow> t' = t"
    using limited_passes [OF open_limit, of ?h w] h by auto
  then have "inner A b L path ?c (t, w) = (Ok resp, (t', w'))"
    using assms(1) meth by (simp add: inner_def)
  with that t'(2) assms(4) show ?thesis by (simp add: serve_route [OF assms(1)] chain_unfold Let_def)
qed

lemma serve_signed_in:
  assumes "route_of (c_Method c) path = Some route" and "group_of route = Authed"
    and "bearer (app_verify A) c = Some k" and "c_Method c \<noteq> ''OPTIONS''"
    and "endpoint A b route (signedIn k (arrived b path c)) w = (Ok resp, w')"
  obtains wr' where "serve A b no_limits path c (wr, t, w) = (Ok resp, (wr', t, w'))"
proof -
  have "\<not> over_limit no_limits (app_now A) (c_ClientIP c) t" "\<not> lim_enabled no_limits"
    by (simp_all add: over_limit_def no_limits_def)
  with serve_passes [OF assms(1-4) _ assms(5), of no_limits t wr] that show ?thesis by metis
qed

lemma serve_refused:
  assumes "route_of (c_Method c) path = Some route" and "c_Method c \<noteq> ''OPTIONS''"
    and "over_limit L (app_now A) (c_ClientIP c) t"
  obtains resp wr' t' where "serve A b L path c (wr, t, w) = (Ok resp, (wr', t', w))" "rs_Status resp = 429"
proof -
  let ?c = "arrived b path c"
  have meth: "c_Method ?c = c_Method c" "c_ClientIP ?c = c_ClientIP c" by (simp_all add: arrived_def)
  have closed: "over_limit L (app_now A) (c_ClientIP ?c) t" using assms(3) meth by simp
  obtain resp t' where "inner A b L path ?c (t, w) = (Ok resp, (t', w))" "rs_Status resp = 429"
    using limited_refuses [OF closed, of "guarded (app_verify A) (group_of route) (endpoint A b route)" w]
      assms(1) meth by (auto simp: inner_def)
  with that assms(2) show ?thesis by (simp add: serve_route [OF assms(1)] chain_unfold Let_def)
qed

text \<open>User 3 asks for order 1.\<close>

theorem order_access_witness:
  "\<exists>wr m k. serve demo_app demo_binding no_limits [''orders'', ''1''] (demo_request ''GET'' ''three'' '''') (demo_state demo_db2) =
     (Ok (httpx_OK (OrderBody (toUserOrderResponse (demo_order StatusFulfilled)))), (wr, NewRateTable 0, demo_world demo_db2)) \<and>
   bearer (app_verify demo_app) (demo_request ''GET'' ''three'' '''') = Some k \<and>
   m \<in> set (db_orders demo_db2) \<and> om_ID m = 1 \<and> om_UserID m = tc_UserID k \<and> tc_Role k \<noteq> ''admin''"
proof -
  have ok: "gorm_ok (app_gorm demo_app) id" by (simp add: demo_app_def memGorm_ok)
  let ?c = "demo_request ''GET'' ''three'' ''''"
  let ?k = "\<lparr>tc_UserID = 3, tc_Role = ''customer''\<rparr>"
  have ep: "endpoint demo_app demo_binding OrdersGet (signedIn ?k (arrived demo_binding [''orders'', ''1''] ?c))
      (demo_world demo_db2) = (Ok (httpx_OK (OrderBody (toUserOrderResponse (demo_order StatusFulfilled)))), demo_world demo_db2)"
  proof -
    have "ParseUint ''1'' = Some 1"
      by (simp add: ParseUint_def is_digit_def undec_def char_digit_def)
    then have "orderIDFrom (signedIn ?k (arrived demo_binding [''orders'', ''1''] ?c)) = Ok 1"
      by (simp add: orderIDFrom_def demo_routes)
    then show ?thesis
      by (simp add: Order_Get_def ownOrder_def orError_def lift_apply orderHandler_def onlyStore_def
          GetOrder_Handle_def app_reads_def demo_world_def find_demo demo_order_def demo_app_def)
  qed
  have "c_Method ?c \<noteq> ''OPTIONS''" by (simp add: demo_request_def)
  then obtain wr where run: "serve demo_app demo_binding no_limits [''orders'', ''1''] ?c (Map.empty, NewRateTable 0, demo_world demo_db2)
      = (Ok (httpx_OK (OrderBody (toUserOrderResponse (demo_order StatusFulfilled)))), (wr, NewRateTable 0, demo_world demo_db2))"
    using serve_signed_in [OF _ _ demo_bearer(1) _ ep] by (auto simp: demo_routes group_of_def)
  have route: "route_of (c_Method ?c) [''orders'', ''1''] = Some OrdersGet" by (simp add: demo_routes)
  from order_access [OF ok route _ run] obtain i m where
    im: "ParseUint ''1'' = Some i" "m \<in> set (db_orders demo_db2)" "om_ID m = i" "om_UserID m = 3"
    by (auto simp: demo_bearer demo_routes demo_world_def)
  then have "i = 1" by (simp add: ParseUint_def is_digit_def undec_def char_digit_def)
  with im run show ?thesis by (auto simp: demo_state_def demo_bearer intro!: exI)
qed

text \<open>C34: an order request whose Idempotency-Key is that of a stored order is answered with that
  order, as created, whoever placed it (unless the rate limiter refuses the request): no table
  changes, so that nothing is reserved, and nothing is charged, slept for or published; the caller's
  own items are ignored.\<close>

theorem place_replays_stored:
  assumes "gorm_ok (app_gorm A) view" and "db_ok (view (w_store w))"
    and "bearer (app_verify A) c = Some k" and "bind_place b (c_Body c) = Ok req"
    and "c_Method c = ''POST''" and "c_Header c ''Idempotency-Key'' \<noteq> ''''"
    and "orderRepo_FindByIdempotencyKey (app_gorm A) (c_Header c ''Idempotency-Key'') (w_store w) = (Ok ord, s1)"
    and "serve A b L [''orders''] c (wr, t, w) = (r, (wr', t', w'))"
  shows "\<exists>m resp. {x \<in> set (db_orders (view (w_store w))). om_IdempotencyKey x = c_Header c ''Idempotency-Key''} = {m} \<and>
    orderToDomain m = Ok ord \<and> r = Ok resp \<and>
    (if over_limit L (app_now A) (c_ClientIP c) t then rs_Status resp = 429
     else resp = httpx_Created (OrderBody (toUserOrderResponse ord))) \<and>
    view (w_store w') = view (w_store w) \<and> w_gateway w' = w_gateway w \<and> w_charges w' = w_charges w \<and>
    w_slept w' = w_slept w \<and> w_published w' = w_published w"
proof -
  let ?key = "c_Header c ''Idempotency-Key''"
  have route: "route_of (c_Method c) [''orders''] = Some OrdersPlace" by (simp add: assms(5) route_eval)
  have authed: "group_of OrdersPlace = Authed" by (simp add: group_of_def)
  have post: "c_Method c \<noteq> ''OPTIONS''" by (simp add: assms(5))
  have ep: "endpoint A b OrdersPlace (signedIn k (arrived b [''orders''] c)) w =
      (Ok (httpx_Created (OrderBody (toUserOrderResponse ord))), w\<lparr>w_store := s1\<rparr>)"
    using assms(4,6,7)
    by (simp add: Order_Place_def ShouldBindJSON_def orError_def lift_apply orderHandler_def placeOrder_def
        PlaceOrder_Handle_def placeInput_def app_reads_def Let_def)
  have found: "view s1 = view (w_store w)" "\<exists>m \<in> set (db_orders (view (w_store w))). om_IdempotencyKey m = ?key \<and> orderToDomain m = Ok ord"
    using first_order [OF assms(1) assms(7) [unfolded orderRepo_FindByIdempotencyKey_def]] by auto
  then obtain m where m: "m \<in> set (db_orders (view (w_store w)))" "om_IdempotencyKey m = ?key" "orderToDomain m = Ok ord"
    by blast
  have "{x \<in> set (db_orders (view (w_store w))). om_IdempotencyKey x = ?key} = {m}"
    using m(1,2) db_ok_columns(3) [OF assms(2)] by (auto simp: distinct_map inj_on_def)
  moreover have "\<exists>resp. r = Ok resp \<and>
    (if over_limit L (app_now A) (c_ClientIP c) t then rs_Status resp = 429 \<and> w' = w
     else resp = httpx_Created (OrderBody (toUserOrderResponse ord)) \<and> w' = w\<lparr>w_store := s1\<rparr>)"
  proof (cases "over_limit L (app_now A) (c_ClientIP c) t")
    case True
    with serve_refused [OF route post True, of b wr w] assms(8) show ?thesis by force
  next
    case False
    with serve_passes [OF route authed assms(3) post False ep, of wr] assms(8) show ?thesis by force
  qed
  ultimately show ?thesis using m(3) found(1) by (auto split: if_splits)
qed

text \<open>User 9 asks for another key board with the key of user 3, and gets the order of user 3.\<close>

theorem place_replays_stored_witness:
  "\<exists>wr' t' w'. serve demo_app demo_binding no_limits [''orders''] (demo_request ''POST'' ''nine'' ''k1'') (demo_state demo_db2) =
     (Ok (httpx_Created (OrderBody (toUserOrderResponse (demo_order StatusFulfilled)))), (wr', t', w')) \<and>
   ord_userID (demo_order StatusFulfilled) = 3 \<and> w_store w' = demo_db2 \<and>
   w_charges w' = w_charges (demo_world demo_db2) \<and> w_published w' = w_published (demo_world demo_db2)"
proof -
  let ?c = "demo_request ''POST'' ''nine'' ''k1''"
  have b: "bind_place demo_binding (c_Body ?c) = Ok \<lparr>por_Items = [\<lparr>pir_ProductID = 7, pir_Quantity = 2\<rparr>]\<rparr>"
    by (simp add: demo_binding_def)
  have c: "c_Method ?c = ''POST''" "c_Header ?c ''Idempotency-Key'' \<noteq> ''''"
    by (simp_all add: demo_request_def)
  have f: "orderRepo_FindByIdempotencyKey (app_gorm demo_app) (c_Header ?c ''Idempotency-Key'')
      (w_store (demo_world demo_db2)) = (Ok (demo_order StatusFulfilled), demo_db2)"
    using find_demo(2) by (simp add: demo_app_def demo_request_def demo_world_def)
  have ok: "gorm_ok (app_gorm demo_app) id" by (simp add: demo_app_def memGorm_ok)
  have db: "db_ok (id (w_store (demo_world demo_db2)))" using demo_db2_ok by (simp add: demo_world_def)
  obtain r wr t w where run: "serve demo_app demo_binding no_limits [''orders''] ?c
      (Map.empty, NewRateTable 0, demo_world demo_db2) = (r, (wr, t, w))" by (metis prod_cases4)
  have "\<not> over_limit no_limits (app_now demo_app) (c_ClientIP ?c) (NewRateTable 0)"
    by (simp add: over_limit_def no_limits_def)
  with place_replays_stored [OF ok db demo_bearer(2) b c f run] run show ?thesis
    by (auto simp: demo_state_def demo_world_def demo_order_def)
qed

section \<open>Registration\<close>

text \<open>Anyone may register an administrator: the public registration stores the role the body
  names, and the account it creates can then sign in as an admin.\<close>

theorem self_made_admin:
  assumes "bind_register b (c_Body c) = Ok req" and "rr_Role req = ''admin''" and "c_Method c = ''POST''"
    and "registerUser A (registerInput req ''admin'') w = (Ok u, w')"
    and "uow_ok (app_gorm A, app_txRegister A) view" and "db_ok (view (w_store w))"
  shows "user_added (app_hasher A) (registerInput req ''admin'') (view (w_store w)) (view (w_store w')) u \<and>
    usr_role u = ''admin'' \<and> (\<exists>wr'. serve A b no_limits [''auth'', ''register''] c (wr, t, w) =
    (Ok (httpx_Created (UserBody (NewUserResponse u))), (wr', t, w')))"
proof -
  from assms(4) obtain s1 where run: "RegisterUser_Handle (unitOfWork_Do (app_gorm A, app_txRegister A))
      (app_hasher A) (registerInput req ''admin'') (w_store w) = (Ok u, s1)" and w': "w' = w\<lparr>w_store := s1\<rparr>"
    by (auto simp: registerUser_def onlyStore_def split: prod.splits)
  from assms(5) run assms(6) have added:
    "user_added (app_hasher A) (registerInput req ''admin'') (view (w_store w)) (view s1) u"
    by (cases rule: registering.Register_cases) auto
  then have role: "usr_role u = ''admin''" by (simp add: user_added_def registerInput_def)
  have "endpoint A b AuthRegister (arrived b [''auth'', ''register''] c) w =
      (Ok (httpx_Created (UserBody (NewUserResponse u))), w')"
    using assms by (simp add: Auth_Register_def ShouldBindJSON_def orError_def lift_apply authHandler_def Let_def)
  moreover have "route_of (c_Method (arrived b p c)) [''auth'', ''register''] = Some AuthRegister" for p
    by (simp add: assms(3) route_eval arrived_def)
  ultimately have "inner A b no_limits [''auth'', ''register''] (arrived b [''auth'', ''register''] c) (t, w) =
      (Ok (httpx_Created (UserBody (NewUserResponse u))), (t, w'))"
    by (simp add: inner_unlimited guarded_def group_of_def)
  moreover have "route_of (c_Method c) [''auth'', ''register''] = Some AuthRegister"
    by (simp add: assms(3) route_eval)
  ultimately have "\<exists>wr'. serve A b no_limits [''auth'', ''register''] c (wr, t, w) =
      (Ok (httpx_Created (UserBody (NewUserResponse u))), (wr', t, w'))"
    using assms(3) by (simp add: serve_route chain_unfold Let_def)
  with added role show ?thesis by (simp add: w')
qed

lemma demo_registration:
  "\<exists>u d. RegisterUser_Handle (unitOfWork_Do (memGorm, memTransaction)) (app_hasher demo_app)
     (registerInput \<lparr>rr_Email = ''a@b.c'', rr_Password = ''password'', rr_FullName = ''A'', rr_Role = ''admin''\<rparr> ''admin'')
     demo_db = (Ok u, d)"
  by (simp add: RegisterUser_Handle_def registerTx_def NewUser_def Role_Valid_def registerInput_def
      demo_app_def lift_apply mem_eval runUow_def unitOfWork_Do_def Let_def demo_db_def userRepo_Create_def
      userToModel_def User_AssignID_def Record_def RoleAdmin_def RoleCustomer_def)

theorem self_made_admin_witness:
  "\<exists>u wr' t' w' c. usr_role u = ''admin'' \<and> c_Header c ''Authorization'' = '''' \<and>
     serve demo_app demo_binding no_limits [''auth'', ''register''] c (Map.empty, t', demo_world demo_db) =
       (Ok (httpx_Created (UserBody (NewUserResponse u))), (wr', t', w'))"
proof -
  let ?c = "(demo_request ''POST'' '''' '''')\<lparr>c_Header := (\<lambda>_. ''''), c_Body := ''admin''\<rparr>"
  let ?req = "\<lparr>rr_Email = ''a@b.c'', rr_Password = ''password'', rr_FullName = ''A'', rr_Role = ''admin''\<rparr>"
  obtain u d where "RegisterUser_Handle (unitOfWork_Do (memGorm, memTransaction)) (app_hasher demo_app)
      (registerInput ?req ''admin'') demo_db = (Ok u, d)" using demo_registration by blast
  then have reg: "registerUser demo_app (registerInput ?req ''admin'') (demo_world demo_db)
      = (Ok u, (demo_world demo_db)\<lparr>w_store := d\<rparr>)"
    by (simp add: registerUser_def onlyStore_def demo_app_def demo_world_def)
  have bd: "bind_register demo_binding (c_Body ?c) = Ok ?req" by (simp add: demo_binding_def)
  have meth: "c_Method ?c = ''POST''" and role: "rr_Role ?req = ''admin''" by (simp_all add: demo_request_def)
  have uow: "uow_ok (app_gorm demo_app, app_txRegister demo_app) id"
    by (simp add: demo_app_def uow_ok_def memGorm_ok memTransaction_ok)
  have ok: "db_ok (id (w_store (demo_world demo_db)))" by (simp add: demo_world_def demo_db_ok)
  have anonymous: "c_Header ?c ''Authorization'' = ''''" by simp
  from self_made_admin [OF bd role meth reg uow ok, of Map.empty "NewRateTable 0"] anonymous show ?thesis
    by metis
qed

section \<open>Answers and parameters\<close>

lemma kind_string_nonempty [simp]: "kind_string k \<noteq> ''''"
  by (cases k) (simp_all add: kind_string_def)

lemma AsError_wraps: "AsError (foldr Wrapped texts err) = AsError err"
  by (induction texts) simp_all

lemma httpx_Error_wraps: "httpx_Error (foldr Wrapped texts err) = httpx_Error err"
proof -
  have "KindOf (foldr Wrapped texts err) = KindOf err" by (simp add: KindOf_def AsError_wraps)
  note kind = this
  show ?thesis unfolding httpx_Error_def AsError_wraps kind ..
qed

lemmas error_constructors = Validation_def NotFound_def Conflict_def Unauthorized_def Forbidden_def
  OutOfStock_def PaymentFailedErr_def Internal_def Unavailable_def NewError_def

text \<open>C35: an error of each of the domain's constructors, with or without a cause and wrapped in
  any texts on its way up, is answered with the status of HTTP for it and with the constructor's
  code and message, and nothing of the cause or of the texts; any other error, whatever its text, is
  a 500 that shows none of it. And whatever the error, the status is one of these and neither the
  code nor the message is empty.\<close>

theorem error_answers:
  assumes "c \<noteq> ''''" and "m \<noteq> ''''"
    and "(e, status) \<in> {(Validation c m, 400), (Unauthorized c m, 401), (PaymentFailedErr c m, 402),
      (Forbidden c m, 403), (NotFound c m, 404), (Conflict c m, 409), (OutOfStock c m, 409),
      (Internal c m, 500), (Unavailable c m, 503)}"
  shows "httpx_Error (foldr Wrapped texts e) = answer status (ErrorBody \<lparr>ep_Code = c, ep_Message = m\<rparr>) \<and>
    httpx_Error (foldr Wrapped texts (WithCause e cause)) = httpx_Error e \<and>
    httpx_Error (foldr Wrapped texts (Plain text)) =
      answer 500 (ErrorBody \<lparr>ep_Code = ''internal'', ep_Message = ''Internal Server Error''\<rparr>) \<and>
    (\<exists>code message. rs_Body (httpx_Error err) = ErrorBody \<lparr>ep_Code = code, ep_Message = message\<rparr> \<and>
      code \<noteq> '''' \<and> message \<noteq> '''' \<and> rs_Status (httpx_Error err) \<in> {400, 401, 402, 403, 404, 409, 500, 503})"
proof -
  have "httpx_Error e = answer status (ErrorBody \<lparr>ep_Code = c, ep_Message = m\<rparr>)"
    using assms by (auto simp: httpx_Error_def KindOf_def error_constructors statusFor_def Let_def)
  moreover have "httpx_Error (WithCause e cause) = httpx_Error e"
    using assms(3) by (auto simp: httpx_Error_def KindOf_def error_constructors Let_def)
  moreover have "httpx_Error (Plain text) =
      answer 500 (ErrorBody \<lparr>ep_Code = ''internal'', ep_Message = ''Internal Server Error''\<rparr>)"
    by (simp add: httpx_Error_def KindOf_def statusFor_def StatusText_def kind_string_def)
  moreover have "statusFor (KindOf err) \<in> {400, 401, 402, 403, 404, 409, 500, 503}"
    by (cases "KindOf err") (simp_all add: statusFor_def)
  moreover have "StatusText (statusFor k) \<noteq> ''''" for k
    by (cases k) (simp_all add: statusFor_def StatusText_def)
  ultimately show ?thesis unfolding httpx_Error_wraps
    by (auto simp: httpx_Error_def answer_def Let_def split: option.splits)
qed

text \<open>A product that is not found, reported by a driver and wrapped once.\<close>

theorem error_answers_witness:
  "httpx_Error (Wrapped ''load product'' (WithCause (NotFound ''product.not_found'' ''product not found'')
      (Plain ''record not found''))) =
    answer 404 (ErrorBody \<lparr>ep_Code = ''product.not_found'', ep_Message = ''product not found''\<rparr>) \<and>
   httpx_Error (Wrapped ''load product'' (Plain ''dial tcp 10.0.0.7:3306'')) =
    answer 500 (ErrorBody \<lparr>ep_Code = ''internal'', ep_Message = ''Internal Server Error''\<rparr>)"
proof -
  let ?c = "''product.not_found''" and ?m = "''product not found''"
  have "?c \<noteq> ''''" "?m \<noteq> ''''" by simp_all
  moreover have "(NotFound ?c ?m, 404 :: nat) \<in> {(Validation ?c ?m, 400), (Unauthorized ?c ?m, 401),
      (PaymentFailedErr ?c ?m, 402), (Forbidden ?c ?m, 403), (NotFound ?c ?m, 404), (Conflict ?c ?m, 409),
      (OutOfStock ?c ?m, 409), (Internal ?c ?m, 500), (Unavailable ?c ?m, 503)}" by simp
  ultimately have
    "httpx_Error (foldr Wrapped [''load product''] (NotFound ?c ?m)) =
      answer 404 (ErrorBody \<lparr>ep_Code = ?c, ep_Message = ?m\<rparr>)"
    "httpx_Error (foldr Wrapped [''load product''] (WithCause (NotFound ?c ?m) (Plain ''record not found''))) =
      httpx_Error (NotFound ?c ?m)"
    "httpx_Error (foldr Wrapped [''load product''] (Plain ''dial tcp 10.0.0.7:3306'')) =
      answer 500 (ErrorBody \<lparr>ep_Code = ''internal'', ep_Message = ''Internal Server Error''\<rparr>)"
    using error_answers by blast+
  then show ?thesis unfolding httpx_Error_wraps by (simp add: httpx_Error_wraps [of "[_]", simplified])
qed

text \<open>The id parsers accept exactly the decimal texts of the numbers from 1 to \<open>2\<^sup>64 - 1\<close>
  (leading zeros allowed), the canonical text of a number is parsed to it, and whatever the query
  says a page has a positive number and between 1 and 100 entries.\<close>

theorem request_numbers:
  "(orderIDFrom c = Ok i \<longleftrightarrow> i \<noteq> 0 \<and> c_Param c ''id'' \<noteq> '''' \<and> list_all is_digit (c_Param c ''id'') \<and>
      undec (c_Param c ''id'') = unat i) \<and>
   (i = 0 \<or> (parseID (dec (unat i)) = Ok i \<and> parseUintParam (dec (unat i)) = Ok i)) \<and>
   0 < sint (pg_Number (pageFrom c)) \<and> 0 < sint (pg_Size (pageFrom c)) \<and> sint (pg_Size (pageFrom c)) \<le> 100 \<and>
   productPageFrom c = pageFrom c \<and> parsePage c = pageFrom c"
proof -
  have "ParseUint (c_Param c ''id'') = Some i \<longleftrightarrow> c_Param c ''id'' \<noteq> '''' \<and>
      list_all is_digit (c_Param c ''id'') \<and> undec (c_Param c ''id'') = unat i"
  proof -
    have "unat i < 2 ^ 64" using unsigned_less [of i, where ?'a = nat] by simp
    moreover have "(of_nat n :: uint64) = i \<longleftrightarrow> n = unat i" if "n < 2 ^ 64" for n
      using that by (simp add: word_unat_eq_iff unat_of_nat)
    ultimately show ?thesis by (auto simp: ParseUint_def)
  qed
  then have "orderIDFrom c = Ok i \<longleftrightarrow> i \<noteq> 0 \<and> c_Param c ''id'' \<noteq> '''' \<and>
      list_all is_digit (c_Param c ''id'') \<and> undec (c_Param c ''id'') = unat i"
    by (auto simp: orderIDFrom_def split: option.splits if_splits)
  moreover have "i = 0 \<or> (parseID (dec (unat i)) = Ok i \<and> parseUintParam (dec (unat i)) = Ok i)"
    by (simp add: parseID_def parseUintParam_def)
  ultimately show ?thesis using pageFrom_range [of c] page_parsers_agree [of c] by blast
qed

section \<open>The rate limiter\<close>

lemma admit_run_recent:
  assumes "0 < sint ttl" and "admit_run lib ttl reqs t = (bs, t')" and "sorted (map fst reqs)"
    and "entries_recent ttl start t" and "\<forall>req \<in> set reqs. start \<le> fst req"
  shows "entries_recent ttl (last (start # map fst reqs)) t'"
  using assms(2-5)
proof (induction reqs arbitrary: t bs start)
  case Nil
  then show ?case by simp
next
  case (Cons req reqs)
  obtain now k where req: "req = (now, k)" by force
  obtain allowed t1 where a: "admit lib ttl now k t = (allowed, t1)" by force
  then obtain bs1 where rest: "admit_run lib ttl reqs t1 = (bs1, t')"
    using Cons.prems(1) by (auto simp: req split: prod.splits)
  have "entries_recent ttl now t1"
    using admit_recent [OF Cons.prems(3) _ assms(1) a] Cons.prems(4) req by auto
  with Cons.IH [OF rest] Cons.prems(2) req show ?case by (auto simp: req)
qed

text \<open>C36: the limiter counts each client by itself: until the next eviction a client gets exactly
  the answers a limiter of its own would give it, whatever others send. Its memory is bounded:
  however long the service runs, it keeps no entry of a client that was silent for two periods.\<close>

theorem rate_limit_isolates:
  assumes "0 < sint ttl" and "admit_run lib ttl reqs (NewRateTable start) = (bs, t)"
    and "sorted (start # map fst reqs)"
  shows "((\<forall>req \<in> set reqs. fst req - start < sint ttl) \<longrightarrow>
      map snd (filter (\<lambda>(req, _). snd req = client) (zip reqs bs)) =
        alone lib (map fst (filter (\<lambda>req. snd req = client) reqs)) (rate_new lib)) \<and>
    (\<forall>l seen. rt_entries t client = Some (l, seen) \<longrightarrow> last (start # map fst reqs) - seen < 2 * sint ttl)"
proof
  show "(\<forall>req \<in> set reqs. fst req - start < sint ttl) \<longrightarrow>
      map snd (filter (\<lambda>(req, _). snd req = client) (zip reqs bs)) =
        alone lib (map fst (filter (\<lambda>req. snd req = client) reqs)) (rate_new lib)"
    using admit_run_alone [OF _ assms(2), of client]
    by (simp add: NewRateTable_def limiter_of_def split_beta)
  have "entries_recent ttl (last (start # map fst reqs)) t"
    using assms(1,3) by (intro admit_run_recent [OF assms(1,2)])
      (auto simp: entries_recent_def NewRateTable_def)
  then show "\<forall>l seen. rt_entries t client = Some (l, seen) \<longrightarrow> last (start # map fst reqs) - seen < 2 * sint ttl"
    by (fastforce simp: entries_recent_def)
qed

text \<open>Two requests each, against limiters that allow one.\<close>

definition once :: "bool RateLib" where
  "once = \<lparr>rate_new = True, rate_allow = (\<lambda>now l. (l, False))\<rparr>"

theorem rate_limit_isolates_witness:
  "fst (admit_run once 10 [(0, ''a''), (1, ''b''), (2, ''a''), (3, ''b'')] (NewRateTable 0)) = [True, True, False, False] \<and>
   alone once [0, 2] True = [True, False]"
proof -
  let ?reqs = "[(0, ''a''), (1, ''b''), (2, ''a''), (3, ''b'')] :: (time \<times> string) list"
  obtain bs t where run: "admit_run once 10 ?reqs (NewRateTable 0) = (bs, t)" by force
  have bs: "bs = [True, True, False, False]"
    using run by (simp add: admit_def evict_def NewRateTable_def once_def Let_def)
  from rate_limit_isolates [OF _ run, of ] have "alone once [0, 2] True = [True, False]"
    by (auto simp: bs once_def dest: spec [of _ "''a''"])
  with run bs show ?thesis by simp
qed

section \<open>The websocket hub\<close>

text \<open>C20: in every run of the hub, whatever clients, broadcasters and \<open>Stop\<close> do, no channel is
  closed twice or sent to after its close; a registered client has received, or has waiting, all
  messages since its registration in the order of the broadcasts and nothing else; a client that
  was dropped has its channel closed and a beginning of them; the buffers keep their bound; and
  the messages accepted are those taken by the loop followed by those waiting.\<close>

theorem hub_delivery:
  assumes "hub_run Hub_Run as r"
  shows "\<not> hr_panicked r \<and> hr_taken r @ hub_broadcast r = accepted as \<and>
    length (hub_broadcast r) \<le> sendBuffer \<and> length (hr_send r c) \<le> sendBuffer \<and>
    (\<forall>n. hr_joined r c = Some n \<longrightarrow>
      (if c \<in> hub_clients r
       then \<not> hr_closed r c \<and> hr_received r c @ hr_send r c = drop n (hr_taken r)
       else hr_closed r c \<and> prefix (hr_received r c @ hr_send r c) (drop n (hr_taken r))))"
proof -
  have inv: "hub_inv r" by (rule hub_inv_run [OF assms hub_inv_start])
  then have "client_ok r c" by (simp add: hub_inv_def)
  moreover have "\<not> hr_panicked r \<and> length (hub_broadcast r) \<le> sendBuffer" using inv by (simp add: hub_inv_def)
  moreover have "hr_taken r @ hub_broadcast r = accepted as"
    using hub_taken_run [OF assms] by (simp add: Hub_Run_def Hub_New_def)
  ultimately show ?thesis by (auto simp: client_ok_def split: option.splits)
qed

text \<open>After the loop of the hub has returned, a goroutine that waits to register or to
  unregister a client waits forever: every connection that hangs up later leaks its reader.\<close>

theorem hub_stop_leaks:
  assumes "hub_run Hub_Run as r" and "\<not> hr_running r" and "c \<in> hr_reading r"
    and "hub_run r (Hangup c # bs) r'"
  shows "c \<in> hr_unregistering r' \<and> \<not> hr_running r'"
proof -
  from assms(4) obtain r1 where step: "hub_step r (Hangup c) r1" and rest: "hub_run r1 bs r'"
    by (auto simp: hub_run_Cons)
  from step have "c \<in> hr_unregistering r1" "hr_running r1 = hr_running r" by (auto elim: hub_stepE)
  with hub_stuck_run [OF rest] assms(2) show ?thesis by auto
qed

text \<open>One client registers, gets a message, hangs up after the hub has stopped.\<close>

definition hub_acts :: "hub_act list" where
  "hub_acts = [Connect 1, Registered 1, Broadcast ''m'', Deliver [1], Write 1, StopHub, Quit [1]]"

definition hub_end :: HubRun where
  "hub_end = Hub_Run\<lparr>hub_done := True, hr_running := False, hr_reading := {1}, hr_writing := {1},
     hr_closed := (\<lambda>_. False)(1 := True), hr_known := {1}, hr_joined := [1 \<mapsto> 0], hr_taken := [''m''],
     hr_received := (\<lambda>_. [])(1 := [''m''])\<rparr>"

lemma hub_demo: "hub_run Hub_Run hub_acts hub_end"
  by (simp add: hub_acts_def hub_run_Cons hub_run_Nil hub_step_simps Hub_Run_def Hub_New_def hub_end_def
      hub_offer_def hub_remove_def hub_close_def sendBuffer_def fun_eq_iff)

theorem hub_delivery_witness:
  "hr_received hub_end 1 = [''m''] \<and> prefix (hr_received hub_end 1) (drop 0 (accepted hub_acts)) \<and>
   hr_closed hub_end 1"
  using hub_delivery [OF hub_demo, of 1] by (auto simp: hub_end_def Hub_Run_def Hub_New_def)

theorem hub_stop_leaks_witness:
  "\<exists>r'. hub_run hub_end [Hangup 1, WriteCloses 1] r' \<and> hr_unregistering r' = {1} \<and> hr_writing r' = {}"
proof -
  have stopped: "\<not> hr_running hub_end" "1 \<in> hr_reading hub_end" by (simp_all add: hub_end_def)
  obtain r' where run: "hub_run hub_end [Hangup 1, WriteCloses 1] r'" and r': "hr_unregistering r' \<subseteq> {1}" "hr_writing r' = {}"
    by (simp add: hub_run_Cons hub_run_Nil hub_step_simps hub_end_def Hub_Run_def Hub_New_def)
  from hub_stop_leaks [OF hub_demo stopped run] r' run show ?thesis by blast
qed

end
