(* ===== verification/Settings.thy ===== *)
theory Settings
  imports Http Complex_Main
begin

text \<open>
  internal/platform/config/config.go: the settings of the service from its environment. The
  environment, after godotenv has loaded a file into it, is a map; what strconv.ParseFloat,
  time.ParseDuration and crypto/rand return are parameters (\<open>Std\<close>).
\<close>

text \<open>A float64 that is a number is modelled by its exact value.\<close>

datatype gofloat = NaN | PosInf | NegInf | Fin rat

fun float_less :: "gofloat \<Rightarrow> gofloat \<Rightarrow> bool" where
  "float_less (Fin x) (Fin y) = (x < y)"
| "float_less NaN y = False"
| "float_less x NaN = False"
| "float_less NegInf y = (y \<noteq> NegInf)"
| "float_less x PosInf = (x \<noteq> PosInf)"
| "float_less x y = False"

record Std =
  std_ParseFloat :: "string \<Rightarrow> gofloat option"
  std_ParseDuration :: "string \<Rightarrow> duration option"
  std_random :: "nat \<Rightarrow> 8 word list option"

type_synonym Env = "string \<rightharpoonup> string"

section \<open>The settings\<close>

record AppSettings =
  set_Name :: string
  set_Environment :: string
  set_Version :: string
  set_LogLevel :: string
  set_LogPretty :: bool

record HTTPSettings =
  http_Host :: string
  http_Port :: goint
  http_ReadTimeout :: duration
  http_WriteTimeout :: duration
  http_IdleTimeout :: duration
  http_ShutdownTimeout :: duration

record DBSettings =
  dbs_Host :: string
  dbs_Port :: goint
  dbs_User :: string
  dbs_Password :: string
  dbs_Name :: string
  dbs_SSLMode :: string
  dbs_MaxOpenConns :: goint
  dbs_MaxIdleConns :: goint
  dbs_ConnMaxLifetime :: duration
  dbs_ConnMaxIdleTime :: duration
  dbs_ConnectRetries :: goint
  dbs_ConnectBackoff :: duration

record JWTSettings =
  jwts_Secret :: string
  jwts_Issuer :: string
  jwts_AccessTTL :: duration

record RateLimitSettings =
  rls_Enabled :: bool
  rls_RPS :: gofloat
  rls_Burst :: goint
  rls_TTL :: duration

record WorkerSettings =
  wks_OrderWorkers :: goint
  wks_OrderQueueSize :: goint
  wks_NotificationWorkers :: goint
  wks_NotificationQueueSize :: goint
  wks_EventWorkers :: goint
  wks_EventQueueSize :: goint

record PaymentSettings =
  pys_Provider :: string
  pys_FailureRate :: gofloat
  pys_MinLatency :: duration
  pys_MaxLatency :: duration
  pys_MaxAttempts :: goint
  pys_RetryBackoff :: duration

record RabbitMQSettings =
  rmq_Enabled :: bool
  rmq_Host :: string
  rmq_Port :: goint
  rmq_User :: string
  rmq_Password :: string
  rmq_VHost :: string
  rmq_Exchange :: string

record Config =
  cfg_App :: AppSettings
  cfg_HTTP :: HTTPSettings
  cfg_DB :: DBSettings
  cfg_JWT :: JWTSettings
  cfg_RateLimit :: RateLimitSettings
  cfg_Worker :: WorkerSettings
  cfg_Payment :: PaymentSettings
  cfg_RabbitMQ :: RabbitMQSettings

definition IsProduction :: "AppSettings \<Rightarrow> bool" where
  "IsProduction a \<longleftrightarrow> EqualFold (set_Environment a) ''production''"

definition HTTP_Addr :: "HTTPSettings \<Rightarrow> string" where
  "HTTP_Addr h = http_Host h @ '':'' @ dec_int (sint (http_Port h))"

definition DB_DSN :: "DBSettings \<Rightarrow> string" where
  "DB_DSN d = ''host='' @ dbs_Host d @ '' port='' @ dec_int (sint (dbs_Port d)) @ '' user='' @ dbs_User d @
     '' password='' @ dbs_Password d @ '' dbname='' @ dbs_Name d @ '' sslmode='' @ dbs_SSLMode d"

definition RabbitMQ_URL :: "RabbitMQSettings \<Rightarrow> string" where
  "RabbitMQ_URL r = ''amqp://'' @ rmq_User r @ '':'' @ rmq_Password r @ ''@'' @ rmq_Host r @ '':'' @
     dec_int (sint (rmq_Port r)) @ ''/'' @
     (case rmq_VHost r of c # cs \<Rightarrow> if c = CHR ''/'' then cs else c # cs | [] \<Rightarrow> [])"

section \<open>Reading the environment\<close>

definition getString :: "Env \<Rightarrow> string \<Rightarrow> string \<Rightarrow> string" where
  "getString env key fallback = (case env key of Some v \<Rightarrow> if v \<noteq> '''' then v else fallback | None \<Rightarrow> fallback)"

definition getInt :: "Env \<Rightarrow> string \<Rightarrow> goint \<Rightarrow> goint" where
  "getInt env key fallback = (case env key of
      Some v \<Rightarrow> (case Atoi v of Some n \<Rightarrow> n | None \<Rightarrow> fallback) | None \<Rightarrow> fallback)"

definition getFloat :: "Std \<Rightarrow> Env \<Rightarrow> string \<Rightarrow> gofloat \<Rightarrow> gofloat" where
  "getFloat std env key fallback = (case env key of
      Some v \<Rightarrow> (case std_ParseFloat std v of Some f \<Rightarrow> f | None \<Rightarrow> fallback) | None \<Rightarrow> fallback)"

text \<open>\<open>strconv.ParseBool\<close>.\<close>

definition ParseBool :: "string \<Rightarrow> bool option" where
  "ParseBool s =
     (if s \<in> {''1'', ''t'', ''T'', ''true'', ''TRUE'', ''True''} then Some True
      else if s \<in> {''0'', ''f'', ''F'', ''false'', ''FALSE'', ''False''} then Some False
      else None)"

definition getBool :: "Env \<Rightarrow> string \<Rightarrow> bool \<Rightarrow> bool" where
  "getBool env key fallback = (case env key of
      Some v \<Rightarrow> (case ParseBool v of Some b \<Rightarrow> b | None \<Rightarrow> fallback) | None \<Rightarrow> fallback)"

definition getDuration :: "Std \<Rightarrow> Env \<Rightarrow> string \<Rightarrow> duration \<Rightarrow> duration" where
  "getDuration std env key fallback = (case env key of
      Some v \<Rightarrow> (case std_ParseDuration std v of Some d \<Rightarrow> d | None \<Rightarrow> fallback) | None \<Rightarrow> fallback)"

text \<open>\<open>hex.EncodeToString\<close>.\<close>

definition hex_digit :: "nat \<Rightarrow> char" where
  "hex_digit n = (if n < 10 then char_of (48 + n) else char_of (87 + n))"

definition hex :: "8 word list \<Rightarrow> string" where
  "hex bytes = concat (map (\<lambda>x. [hex_digit (unat x div 16), hex_digit (unat x mod 16)]) bytes)"

definition randomSecret :: "Std \<Rightarrow> nat \<Rightarrow> string" where
  "randomSecret std n = (case std_random std n of Some bytes \<Rightarrow> hex bytes | None \<Rightarrow> '''')"

definition Second :: duration where "Second = 1000000000"
definition Millisecond :: duration where "Millisecond = 1000000"

text \<open>The literal of \<open>Load\<close>.\<close>

definition readConfig :: "Std \<Rightarrow> Env \<Rightarrow> Config" where
  "readConfig std env = \<lparr>
     cfg_App = \<lparr>
       set_Name = getString env ''APP_NAME'' ''order-processing'',
       set_Environment = getString env ''APP_ENV'' ''development'',
       set_Version = getString env ''APP_VERSION'' ''dev'',
       set_LogLevel = getString env ''LOG_LEVEL'' ''info'',
       set_LogPretty = getBool env ''LOG_PRETTY'' True\<rparr>,
     cfg_HTTP = \<lparr>
       http_Host = getString env ''HTTP_HOST'' ''0.0.0.0'',
       http_Port = getInt env ''HTTP_PORT'' 8080,
       http_ReadTimeout = getDuration std env ''HTTP_READ_TIMEOUT'' (15 * Second),
       http_WriteTimeout = getDuration std env ''HTTP_WRITE_TIMEOUT'' (15 * Second),
       http_IdleTimeout = getDuration std env ''HTTP_IDLE_TIMEOUT'' (60 * Second),
       http_ShutdownTimeout = getDuration std env ''HTTP_SHUTDOWN_TIMEOUT'' (20 * Second)\<rparr>,
     cfg_DB = \<lparr>
       dbs_Host = getString env ''DB_HOST'' ''localhost'',
       dbs_Port = getInt env ''DB_PORT'' 5432,
       dbs_User = getString env ''DB_USER'' ''postgres'',
       dbs_Password = getString env ''DB_PASSWORD'' '''',
       dbs_Name = getString env ''DB_NAME'' ''orders'',
       dbs_SSLMode = getString env ''DB_SSLMODE'' ''disable'',
       dbs_MaxOpenConns = getInt env ''DB_MAX_OPEN_CONNS'' 50,
       dbs_MaxIdleConns = getInt env ''DB_MAX_IDLE_CONNS'' 25,
       dbs_ConnMaxLifetime = getDuration std env ''DB_CONN_MAX_LIFETIME'' (3600 * Second),
       dbs_ConnMaxIdleTime = getDuration std env ''DB_CONN_MAX_IDLE_TIME'' (1800 * Second),
       dbs_ConnectRetries = getInt env ''DB_CONNECT_RETRIES'' 10,
       dbs_ConnectBackoff = getDuration std env ''DB_CONNECT_BACKOFF'' (2 * Second)\<rparr>,
     cfg_JWT = \<lparr>
       jwts_Secret = getString env ''JWT_SECRET'' '''',
       jwts_Issuer = getString env ''JWT_ISSUER'' ''order-processing'',
       jwts_AccessTTL = getDuration std env ''JWT_ACCESS_TTL'' (86400 * Second)\<rparr>,
     cfg_RateLimit = \<lparr>
       rls_Enabled = getBool env ''RATE_LIMIT_ENABLED'' True,
       rls_RPS = getFloat std env ''RATE_LIMIT_RPS'' (Fin 20),
       rls_Burst = getInt env ''RATE_LIMIT_BURST'' 40,
       rls_TTL = getDuration std env ''RATE_LIMIT_TTL'' (600 * Second)\<rparr>,
     cfg_Worker = \<lparr>
       wks_OrderWorkers = getInt env ''ORDER_WORKERS'' 8,
       wks_OrderQueueSize = getInt env ''ORDER_QUEUE_SIZE'' 1024,
       wks_NotificationWorkers = getInt env ''NOTIFICATION_WORKERS'' 4,
       wks_NotificationQueueSize = getInt env ''NOTIFICATION_QUEUE_SIZE'' 2048,
       wks_EventWorkers = getInt env ''EVENT_WORKERS'' 4,
       wks_EventQueueSize = getInt env ''EVENT_QUEUE_SIZE'' 2048\<rparr>,
     cfg_Payment = \<lparr>
       pys_Provider = getString env ''PAYMENT_PROVIDER'' ''mock'',
       pys_FailureRate = getFloat std env ''PAYMENT_FAILURE_RATE'' (Fin (3602879701896397 / 36028797018963968)),
       pys_MinLatency = getDuration std env ''PAYMENT_MIN_LATENCY'' (20 * Millisecond),
       pys_MaxLatency = getDuration std env ''PAYMENT_MAX_LATENCY'' (120 * Millisecond),
       pys_MaxAttempts = getInt env ''PAYMENT_MAX_ATTEMPTS'' 3,
       pys_RetryBackoff = getDuration std env ''PAYMENT_RETRY_BACKOFF'' (50 * Millisecond)\<rparr>,
     cfg_RabbitMQ = \<lparr>
       rmq_Enabled = getBool env ''RABBITMQ_ENABLED'' False,
       rmq_Host = getString env ''RABBITMQ_HOST'' ''rabbitmq'',
       rmq_Port = getInt env ''RABBITMQ_PORT'' 5672,
       rmq_User = getString env ''RABBITMQ_USER'' ''guest'',
       rmq_Password = getString env ''RABBITMQ_PASSWORD'' '''',
       rmq_VHost = getString env ''RABBITMQ_VHOST'' ''/'',
       rmq_Exchange = getString env ''RABBITMQ_EXCHANGE'' ''orders.events''\<rparr>\<rparr>"

definition Config_validate :: "Config \<Rightarrow> goerror option" where
  "Config_validate c =
     (if jwts_Secret (cfg_JWT c) = ''''
        then Some (Plain ''JWT_SECRET is required (provide it via the environment)'')
      else if IsProduction (cfg_App c) \<and> length (jwts_Secret (cfg_JWT c)) < 32
        then Some (Plain ''JWT_SECRET must be at least 32 bytes in production'')
      else if float_less (pys_FailureRate (cfg_Payment c)) (Fin 0) \<or>
          float_less (Fin 1) (pys_FailureRate (cfg_Payment c))
        then Some (Plain ''PAYMENT_FAILURE_RATE must be between 0 and 1'')
      else if wks_OrderWorkers (cfg_Worker c) <s 1
        then Some (Plain ''ORDER_WORKERS must be at least 1'')
      else None)"

definition LoadConfig :: "Std \<Rightarrow> Env \<Rightarrow> Config \<times> goerror option" where
  "LoadConfig std env =
     (let cfg = readConfig std env;
          cfg' = (if jwts_Secret (cfg_JWT cfg) = '''' \<and> \<not> IsProduction (cfg_App cfg)
            then cfg\<lparr>cfg_JWT := (cfg_JWT cfg)\<lparr>jwts_Secret := randomSecret std 32\<rparr>\<rparr> else cfg)
      in (cfg', Config_validate cfg'))"

section \<open>Secrets\<close>

lemma length_hex: "length (hex bytes) = 2 * length bytes"
  by (induction bytes) (simp_all add: hex_def)

lemma hex_digit_inject:
  assumes "hex_digit m = hex_digit n" and "m < 16" and "n < 16"
  shows "m = n"
proof -
  have "(of_char (hex_digit m) :: nat) = of_char (hex_digit n)" using assms(1) by simp
  with assms(2,3) show ?thesis by (auto simp: hex_digit_def split: if_splits)
qed

lemma hex_inject: "hex xs = hex ys \<longleftrightarrow> xs = ys"
proof (induction xs arbitrary: ys)
  case Nil
  then show ?case by (cases ys) (simp_all add: hex_def)
next
  case (Cons x xs)
  show ?case
  proof (cases ys)
    case Nil
    then show ?thesis by (simp add: hex_def)
  next
    case (Cons y ys')
    have "x = y" if "hex_digit (unat x div 16) = hex_digit (unat y div 16)"
      "hex_digit (unat x mod 16) = hex_digit (unat y mod 16)"
    proof -
      have "unat x < 256" "unat y < 256"
        using unsigned_less [of x, where ?'a = nat] unsigned_less [of y, where ?'a = nat] by simp_all
      then have "unat x div 16 = unat y div 16" "unat x mod 16 = unat y mod 16"
        using that by (auto intro: hex_digit_inject)
      then have "unat x = unat y" by (metis div_mult_mod_eq)
      then show ?thesis by (simp add: word_unat_eq_iff)
    qed
    with Cons.IH [of ys'] show ?thesis by (auto simp: Cons hex_def)
  qed
qed

end
