(* ===== verification/Settings_Props.thy ===== *)
theory Settings_Props
  imports Settings
begin

text \<open>
  What a configuration that \<open>Load\<close> returns without an error guarantees to the rest of the program.
\<close>

lemma validate_None:
  "Config_validate c = None \<longleftrightarrow>
     jwts_Secret (cfg_JWT c) \<noteq> '''' \<and>
     (IsProduction (cfg_App c) \<longrightarrow> 32 \<le> length (jwts_Secret (cfg_JWT c))) \<and>
     \<not> float_less (pys_FailureRate (cfg_Payment c)) (Fin 0) \<and>
     \<not> float_less (Fin 1) (pys_FailureRate (cfg_Payment c)) \<and>
     \<not> wks_OrderWorkers (cfg_Worker c) <s 1"
  by (simp add: Config_validate_def not_less)

lemma float_in_unit:
  "\<not> float_less f (Fin 0) \<and> \<not> float_less (Fin 1) f \<longleftrightarrow>
     f = NaN \<or> (\<exists>r. f = Fin r \<and> 0 \<le> r \<and> r \<le> 1)"
  by (cases f) (auto simp: not_less)

lemma hex_empty: "hex bytes = '''' \<longleftrightarrow> bytes = []"
  using length_hex [of bytes] by (metis length_0_conv mult_eq_0_iff zero_neq_numeral)

definition secret_of :: "Env \<Rightarrow> string" where
  "secret_of env = getString env ''JWT_SECRET'' ''''"

lemma readConfig_sel [simp]:
  "jwts_Secret (cfg_JWT (readConfig std env)) = secret_of env"
  "set_Environment (cfg_App (readConfig std env)) = getString env ''APP_ENV'' ''development''"
  "pys_FailureRate (cfg_Payment (readConfig std env)) =
     getFloat std env ''PAYMENT_FAILURE_RATE'' (Fin (3602879701896397 / 36028797018963968))"
  "wks_OrderWorkers (cfg_Worker (readConfig std env)) = getInt env ''ORDER_WORKERS'' 8"
  by (simp_all add: readConfig_def secret_of_def)

lemma secret_of_cases:
  "secret_of env = (case env ''JWT_SECRET'' of Some v \<Rightarrow> v | None \<Rightarrow> '''')"
  by (simp add: secret_of_def getString_def split: option.splits)

text \<open>C37: \<open>Load\<close> reports no error exactly when the environment names at least one order worker, a
  failure rate that is not below zero or above one - and a NaN is neither, so it passes - and, in
  production, a signing secret of at least 32 bytes; outside production a missing secret is replaced
  by the hexadecimal text of 32 random bytes, so that the secret is never empty. Everything else of
  the returned settings is what the environment says, whatever the verdict.\<close>

theorem config_checked:
  "(snd (LoadConfig std env) = None) =
     (\<not> getInt env ''ORDER_WORKERS'' 8 <s 1 \<and>
      (let rate = getFloat std env ''PAYMENT_FAILURE_RATE'' (Fin (3602879701896397 / 36028797018963968))
       in rate = NaN \<or> (\<exists>r. rate = Fin r \<and> 0 \<le> r \<and> r \<le> 1)) \<and>
      (if EqualFold (getString env ''APP_ENV'' ''development'') ''production''
       then \<exists>secret. env ''JWT_SECRET'' = Some secret \<and> 32 \<le> length secret
       else (\<exists>secret. env ''JWT_SECRET'' = Some secret \<and> secret \<noteq> '''') \<or>
            (\<exists>bytes. std_random std 32 = Some bytes \<and> bytes \<noteq> []))) \<and>
   fst (LoadConfig std env) =
     (readConfig std env)\<lparr>cfg_JWT := (cfg_JWT (readConfig std env))\<lparr>jwts_Secret :=
        (if secret_of env = '''' \<and> \<not> EqualFold (getString env ''APP_ENV'' ''development'') ''production''
         then randomSecret std 32 else secret_of env)\<rparr>\<rparr>"
proof -
  let ?prod = "EqualFold (getString env ''APP_ENV'' ''development'') ''production''"
  let ?secret = "if secret_of env = '''' \<and> \<not> ?prod then randomSecret std 32 else secret_of env"
  let ?cfg = "(readConfig std env)\<lparr>cfg_JWT := (cfg_JWT (readConfig std env))\<lparr>jwts_Secret := ?secret\<rparr>\<rparr>"
  have same: "(readConfig std env)\<lparr>cfg_JWT := (cfg_JWT (readConfig std env))\<lparr>jwts_Secret := secret_of env\<rparr>\<rparr>
      = readConfig std env"
    by (simp add: readConfig_def secret_of_def)
  have load: "LoadConfig std env = (?cfg, Config_validate ?cfg)"
    by (cases "secret_of env = '''' \<and> \<not> ?prod") (auto simp: LoadConfig_def IsProduction_def Let_def same)
  let ?rate = "getFloat std env ''PAYMENT_FAILURE_RATE'' (Fin (3602879701896397 / 36028797018963968))"
  have secret: "(?secret \<noteq> '''' \<and> (?prod \<longrightarrow> 32 \<le> length ?secret)) =
      (if ?prod then \<exists>secret. env ''JWT_SECRET'' = Some secret \<and> 32 \<le> length secret
       else (\<exists>secret. env ''JWT_SECRET'' = Some secret \<and> secret \<noteq> '''') \<or>
            (\<exists>bytes. std_random std 32 = Some bytes \<and> bytes \<noteq> []))" (is "_ = ?Q")
    by (auto simp: secret_of_cases randomSecret_def hex_empty split: option.splits)
  have "(Config_validate ?cfg = None) =
      ((?secret \<noteq> '''' \<and> (?prod \<longrightarrow> 32 \<le> length ?secret)) \<and>
       (\<not> float_less ?rate (Fin 0) \<and> \<not> float_less (Fin 1) ?rate) \<and> \<not> getInt env ''ORDER_WORKERS'' 8 <s 1)"
    unfolding validate_None by (simp add: IsProduction_def del: if_split)
  also have "\<dots> = (?Q \<and> (?rate = NaN \<or> (\<exists>r. ?rate = Fin r \<and> 0 \<le> r \<and> r \<le> 1)) \<and>
      \<not> getInt env ''ORDER_WORKERS'' 8 <s 1)"
    by (simp only: secret float_in_unit)
  finally show ?thesis
    unfolding load Let_def fst_conv snd_conv by blast
qed

end
