(* ===== verification/Tokens.thy ===== *)
theory Tokens
  imports Service
begin

text \<open>
  Passwords and tokens: internal/infrastructure/auth/bcrypt.go and jwt.go. The libraries they wrap,
  golang.org/x/crypto/bcrypt and golang-jwt/jwt, are parameters with their documented behaviour.
\<close>

section \<open>Password hashes\<close>

record Bcrypt =
  bc_Generate :: "string \<Rightarrow> goint \<Rightarrow> string option"
  bc_Matches :: "string \<Rightarrow> string \<Rightarrow> bool"

record BcryptHasher =
  bh_cost :: goint

definition NewBcryptHasher :: BcryptHasher where
  "NewBcryptHasher = \<lparr>bh_cost = 10\<rparr>"

definition Bcrypt_Hash :: "Bcrypt \<Rightarrow> BcryptHasher \<Rightarrow> string \<Rightarrow> string outcome" where
  "Bcrypt_Hash lib h plain = (case bc_Generate lib plain (bh_cost h) of
      None \<Rightarrow> Err (Internal ''password_hash_failed'' ''failed to hash password'')
    | Some bytes \<Rightarrow> Ok bytes)"

definition Bcrypt_Compare :: "Bcrypt \<Rightarrow> string \<Rightarrow> string \<Rightarrow> goerror option" where
  "Bcrypt_Compare lib hash plain =
     (if bc_Matches lib hash plain then None
      else Some (Unauthorized ''invalid_credentials'' ''invalid credentials''))"

definition bcryptHasher :: "Bcrypt \<Rightarrow> PasswordHasher" where
  "bcryptHasher lib = \<lparr>pwh_Hash = Bcrypt_Hash lib NewBcryptHasher, pwh_Compare = Bcrypt_Compare lib\<rparr>"

section \<open>Tokens\<close>

text \<open>What a claim of a token can hold: a text, a date in seconds, or something else.\<close>

datatype ClaimValue = Text string | NumericDate int | OtherValue

type_synonym MapClaims = "string \<rightharpoonup> ClaimValue"

datatype SigningMethod = HMAC string | OtherMethod string

primrec method_name :: "SigningMethod \<Rightarrow> string" where
  "method_name (HMAC n) = n"
| "method_name (OtherMethod n) = n"

record ParsedToken =
  pt_Valid :: bool
  pt_Claims :: "MapClaims option"

text \<open>
  The library: signing, whether a token carries a signature by a method under a key, and parsing at
  a clock reading with a key function, the names of the methods allowed and the issuer expected.
\<close>

record JwtLib =
  jwt_SignedString :: "SigningMethod \<Rightarrow> MapClaims \<Rightarrow> string \<Rightarrow> string option"
  jwt_signed :: "SigningMethod \<Rightarrow> string \<Rightarrow> string \<Rightarrow> bool"
  jwt_Parse :: "time \<Rightarrow> (SigningMethod \<Rightarrow> string outcome) \<Rightarrow> string list \<Rightarrow> string \<Rightarrow> string \<Rightarrow> ParsedToken outcome"

definition NewNumericDate :: "time \<Rightarrow> ClaimValue" where
  "NewNumericDate t = NumericDate (t div 1000000000)"

record JWTService =
  jwt_secret :: string
  jwt_issuer :: string
  jwt_ttl :: duration

definition NewJWTService :: "string \<Rightarrow> string \<Rightarrow> duration \<Rightarrow> JWTService" where
  "NewJWTService secret issuer ttl = \<lparr>jwt_secret = secret, jwt_issuer = issuer, jwt_ttl = ttl\<rparr>"

definition token_claims :: "JWTService \<Rightarrow> time \<Rightarrow> uint64 \<Rightarrow> string \<Rightarrow> MapClaims" where
  "token_claims svc now userID role =
     [''sub'' \<mapsto> Text (dec (unat userID)), ''role'' \<mapsto> Text role, ''iss'' \<mapsto> Text (jwt_issuer svc),
      ''iat'' \<mapsto> NewNumericDate now, ''exp'' \<mapsto> NewNumericDate (now + sint (jwt_ttl svc))]"

definition JWT_Issue :: "JwtLib \<Rightarrow> time \<Rightarrow> JWTService \<Rightarrow> TokenIssuer" where
  "JWT_Issue lib now svc userID role =
     (case jwt_SignedString lib (HMAC ''HS256'') (token_claims svc now userID role) (jwt_secret svc) of
        None \<Rightarrow> Err (Internal ''token_sign_failed'' ''failed to sign token'')
      | Some token \<Rightarrow> Ok token)"

text \<open>The key function: only tokens of an HMAC method are checked against the secret.\<close>

definition token_key :: "JWTService \<Rightarrow> SigningMethod \<Rightarrow> string outcome" where
  "token_key svc meth = (case meth of
      HMAC _ \<Rightarrow> Ok (jwt_secret svc)
    | OtherMethod _ \<Rightarrow> Err (Unauthorized ''invalid_token'' ''invalid token''))"

definition JWT_Verify :: "JwtLib \<Rightarrow> time \<Rightarrow> JWTService \<Rightarrow> TokenVerifier" where
  "JWT_Verify lib now svc token =
     (case jwt_Parse lib now (token_key svc) [''HS256''] (jwt_issuer svc) token of
        Panic p \<Rightarrow> Panic p
      | Err _ \<Rightarrow> Err (Unauthorized ''invalid_token'' ''invalid or expired token'')
      | Ok parsed \<Rightarrow>
          if \<not> pt_Valid parsed then Err (Unauthorized ''invalid_token'' ''invalid or expired token'')
          else (case pt_Claims parsed of
              None \<Rightarrow> Err (Unauthorized ''invalid_token'' ''invalid token claims'')
            | Some claims \<Rightarrow> (case claims ''sub'' of
                Some (Text subject) \<Rightarrow> (case ParseUint subject of
                    None \<Rightarrow> Err (Unauthorized ''invalid_token'' ''invalid token subject'')
                  | Some userID \<Rightarrow> Ok \<lparr>tc_UserID = userID,
                      tc_Role = (case claims ''role'' of Some (Text role) \<Rightarrow> role | _ \<Rightarrow> '''')\<rparr>)
              | _ \<Rightarrow> Err (Unauthorized ''invalid_token'' ''invalid token subject''))))"

section \<open>The contract of the libraries\<close>

text \<open>
  A generated hash matches the password it is made of. A signed token is parsed to its claims, with
  the key it was signed with, an allowed method and the expected issuer, before its \<open>exp\<close>, and is
  refused otherwise; a token is only valid with a signature, by an allowed method, under the key the
  key function gives, an issuer as expected and an \<open>exp\<close> that has not passed; the compact form of
  a token has no blanks.
\<close>

definition bcrypt_ok :: "Bcrypt \<Rightarrow> bool" where
  "bcrypt_ok lib \<longleftrightarrow> (\<forall>plain cost hash. bc_Generate lib plain cost = Some hash \<longrightarrow> bc_Matches lib hash plain)"

definition jwt_ok :: "JwtLib \<Rightarrow> bool" where
  "jwt_ok lib \<longleftrightarrow>
     (\<forall>meth claims key token. jwt_SignedString lib meth claims key = Some token \<longrightarrow>
        token \<noteq> '''' \<and> list_all (\<lambda>ch. \<not> is_space ch) token \<and>
        (\<forall>now keyf methods iss e.
           keyf meth = Ok key \<longrightarrow> method_name meth \<in> set methods \<longrightarrow> claims ''nbf'' = None \<longrightarrow>
           claims ''exp'' = Some (NumericDate e) \<longrightarrow>
           (if now < e * 1000000000 \<and> (iss = '''' \<or> claims ''iss'' = Some (Text iss))
            then jwt_Parse lib now keyf methods iss token = Ok \<lparr>pt_Valid = True, pt_Claims = Some claims\<rparr>
            else \<exists>err. jwt_Parse lib now keyf methods iss token = Err err))) \<and>
     (\<forall>now keyf methods iss token parsed.
        jwt_Parse lib now keyf methods iss token = Ok parsed \<longrightarrow> pt_Valid parsed \<longrightarrow>
        (\<exists>meth key. keyf meth = Ok key \<and> method_name meth \<in> set methods \<and> jwt_signed lib meth key token) \<and>
        (\<forall>claims. pt_Claims parsed = Some claims \<longrightarrow>
           (iss = '''' \<or> claims ''iss'' = Some (Text iss)) \<and>
           (\<forall>e. claims ''exp'' = Some (NumericDate e) \<longrightarrow> now < e * 1000000000)))"

lemma jwt_okD:
  assumes "jwt_ok lib"
  shows "jwt_SignedString lib meth claims key = Some token \<Longrightarrow> token \<noteq> '''' \<and> list_all (\<lambda>ch. \<not> is_space ch) token"
    and "jwt_SignedString lib meth claims key = Some token \<Longrightarrow> keyf meth = Ok key \<Longrightarrow>
      method_name meth \<in> set methods \<Longrightarrow> claims ''nbf'' = None \<Longrightarrow> claims ''exp'' = Some (NumericDate e) \<Longrightarrow>
      (if now < e * 1000000000 \<and> (iss = '''' \<or> claims ''iss'' = Some (Text iss))
       then jwt_Parse lib now keyf methods iss token = Ok \<lparr>pt_Valid = True, pt_Claims = Some claims\<rparr>
       else \<exists>err. jwt_Parse lib now keyf methods iss token = Err err)"
    and "jwt_Parse lib now keyf methods iss token = Ok parsed \<Longrightarrow> pt_Valid parsed \<Longrightarrow>
      (\<exists>meth key. keyf meth = Ok key \<and> method_name meth \<in> set methods \<and> jwt_signed lib meth key token) \<and>
      (\<forall>claims. pt_Claims parsed = Some claims \<longrightarrow>
         (iss = '''' \<or> claims ''iss'' = Some (Text iss)) \<and>
         (\<forall>e. claims ''exp'' = Some (NumericDate e) \<longrightarrow> now < e * 1000000000))"
  using assms unfolding jwt_ok_def by blast+

lemma bcryptHasher_ok:
  assumes "bcrypt_ok lib" and "pwh_Hash (bcryptHasher lib) plain = Ok hash"
  shows "pwh_Compare (bcryptHasher lib) hash plain = None"
  using assms by (auto simp: bcrypt_ok_def bcryptHasher_def Bcrypt_Hash_def Bcrypt_Compare_def split: option.splits)

section \<open>Issue and verify\<close>

text \<open>When the token of a user expires: the second in which its time to live ends.\<close>

definition expiry :: "JWTService \<Rightarrow> time \<Rightarrow> time" where
  "expiry svc issued = (issued + sint (jwt_ttl svc)) div 1000000000 * 1000000000"

lemma verify_issued:
  assumes "jwt_ok lib" and "JWT_Issue lib issued svc userID role = Ok token"
  shows "JWT_Verify lib now svc token =
     (if now < expiry svc issued then Ok \<lparr>tc_UserID = userID, tc_Role = role\<rparr>
      else Err (Unauthorized ''invalid_token'' ''invalid or expired token''))"
proof -
  let ?claims = "token_claims svc issued userID role"
  have signed: "jwt_SignedString lib (HMAC ''HS256'') ?claims (jwt_secret svc) = Some token"
    using assms(2) by (simp add: JWT_Issue_def split: option.splits)
  have key: "token_key svc (HMAC ''HS256'') = Ok (jwt_secret svc)" by (simp add: token_key_def)
  have claims: "?claims ''nbf'' = None" "?claims ''iss'' = Some (Text (jwt_issuer svc))"
    "?claims ''exp'' = Some (NumericDate ((issued + sint (jwt_ttl svc)) div 1000000000))"
    "?claims ''sub'' = Some (Text (dec (unat userID)))" "?claims ''role'' = Some (Text role)"
    by (simp_all add: token_claims_def NewNumericDate_def)
  have "if now < (issued + sint (jwt_ttl svc)) div 1000000000 * 1000000000 \<and>
        (jwt_issuer svc = '''' \<or> ?claims ''iss'' = Some (Text (jwt_issuer svc)))
      then jwt_Parse lib now (token_key svc) [''HS256''] (jwt_issuer svc) token =
        Ok \<lparr>pt_Valid = True, pt_Claims = Some ?claims\<rparr>
      else \<exists>err. jwt_Parse lib now (token_key svc) [''HS256''] (jwt_issuer svc) token = Err err"
    by (rule jwt_okD(2) [where keyf = "token_key svc", OF assms(1) signed key _ claims(1,3)]) simp
  then show ?thesis
    by (auto simp: JWT_Verify_def claims expiry_def split: if_splits)
qed

lemma verify_accepts:
  assumes "jwt_ok lib" and "JWT_Verify lib now svc token = Ok k"
  shows "jwt_signed lib (HMAC ''HS256'') (jwt_secret svc) token"
    and "\<exists>claims. (jwt_issuer svc = '''' \<or> claims ''iss'' = Some (Text (jwt_issuer svc))) \<and>
      (\<forall>e. claims ''exp'' = Some (NumericDate e) \<longrightarrow> now < e * 1000000000) \<and>
      (\<exists>subject. claims ''sub'' = Some (Text subject) \<and> ParseUint subject = Some (tc_UserID k)) \<and>
      (tc_Role k \<noteq> '''' \<longrightarrow> claims ''role'' = Some (Text (tc_Role k)))"
proof -
  obtain parsed claims subject where
    parsed: "jwt_Parse lib now (token_key svc) [''HS256''] (jwt_issuer svc) token = Ok parsed" "pt_Valid parsed"
    and claims: "pt_Claims parsed = Some claims" "claims ''sub'' = Some (Text subject)"
      "ParseUint subject = Some (tc_UserID k)"
      "tc_Role k = (case claims ''role'' of Some (Text role) \<Rightarrow> role | _ \<Rightarrow> '''')"
    using assms(2) by (auto simp: JWT_Verify_def split: outcome.splits if_splits option.splits ClaimValue.splits)
  note lib = jwt_okD(3) [OF assms(1) parsed]
  from lib obtain meth key where meth: "token_key svc meth = Ok key" "method_name meth = ''HS256''"
    "jwt_signed lib meth key token" by auto
  then show "jwt_signed lib (HMAC ''HS256'') (jwt_secret svc) token"
    by (cases meth) (simp_all add: token_key_def)
  have "tc_Role k \<noteq> '''' \<Longrightarrow> claims ''role'' = Some (Text (tc_Role k))"
    using claims(4) by (simp split: option.splits ClaimValue.splits)
  with lib claims show "\<exists>claims. (jwt_issuer svc = '''' \<or> claims ''iss'' = Some (Text (jwt_issuer svc))) \<and>
      (\<forall>e. claims ''exp'' = Some (NumericDate e) \<longrightarrow> now < e * 1000000000) \<and>
      (\<exists>subject. claims ''sub'' = Some (Text subject) \<and> ParseUint subject = Some (tc_UserID k)) \<and>
      (tc_Role k \<noteq> '''' \<longrightarrow> claims ''role'' = Some (Text (tc_Role k)))" by blast
qed

section \<open>Tokens in requests\<close>

lemma TrimSpace_no_space:
  assumes "list_all (\<lambda>ch. \<not> is_space ch) s"
  shows "TrimSpace s = s"
proof -
  have drop: "dropWhile is_space xs = xs" if "list_all (\<lambda>ch. \<not> is_space ch) xs" for xs
    using that by (cases xs) simp_all
  from drop [OF assms] drop [of "rev s"] assms show ?thesis by (simp add: TrimSpace_def)
qed

lemma bearer_token:
  assumes "c_Header c ''Authorization'' = ''Bearer '' @ token" and "token \<noteq> ''''"
    and "list_all (\<lambda>ch. \<not> is_space ch) token"
  shows "bearer verify c = (case verify token of Ok claims \<Rightarrow> Some claims | _ \<Rightarrow> None)"
  using assms by (simp add: bearer_def Let_def EqualFold_def TrimSpace_no_space)

lemma bearer_issued:
  assumes "jwt_ok lib" and "JWT_Issue lib issued svc userID role = Ok token"
    and "c_Header c ''Authorization'' = ''Bearer '' @ token"
  shows "bearer (JWT_Verify lib now svc) c =
     (if now < expiry svc issued then Some \<lparr>tc_UserID = userID, tc_Role = role\<rparr> else None)"
proof -
  have "token \<noteq> '''' \<and> list_all (\<lambda>ch. \<not> is_space ch) token"
    using assms(2) jwt_okD(1) [OF assms(1)] by (auto simp: JWT_Issue_def split: option.splits)
  then have "bearer (JWT_Verify lib now svc) c =
      (case JWT_Verify lib now svc token of Ok claims \<Rightarrow> Some claims | _ \<Rightarrow> None)"
    using assms(3) by (intro bearer_token) auto
  then show ?thesis by (simp add: verify_issued [OF assms(1,2)])
qed

end
