(* ===== verification/Session_Props.thy ===== *)
theory Session_Props
  imports Tokens Web_Props Backoffice_Props
begin

text \<open>What a token that a login issued does for the requests that carry it.\<close>

lemma login_token:
  assumes "LoginUser_Handle reads hasher issue email password s = (Ok (token, usr), s')"
  shows "issue (usr_id usr) (usr_role usr) = Ok token"
  using assms by (auto simp: LoginUser_Handle_def map_outcome_Ok_iff split: outcome.splits option.splits prod.splits)

lemma serve_authed:
  assumes "route_of (c_Method c) path = Some route" and "group_of route = Authed" and "c_Method c \<noteq> ''OPTIONS''"
    and "serve A b L path c (wr, t, w) = (Ok resp, (wr', t', w'))"
  shows "(w' = w \<and> rs_Status resp \<notin> {200, 201}) \<or>
    (\<exists>k r0. bearer (app_verify A) c = Some k \<and>
       endpoint A b route (signedIn k (arrived b path c)) w = (r0, w') \<and>
       (r0 = Ok resp \<or> (rs_Status resp = 500 \<and> (\<exists>p. r0 = Panic p))))"
  using assms(4)
proof (cases rule: serve_cases)
  case (ran resp0 route0 claims r0)
  with assms(1,2) show ?thesis by (auto simp: admitted_def asking_def)
qed auto

text \<open>C12: the token a login returned opens requests for that user, with the role the user had then:
  until it expires, a request that carries it to a route of the authenticated group is answered by
  the route's endpoint, called for that user; from that second on it is refused and changes nothing.
  And the service accepts no token that is not signed with HS256 under its own secret, whatever
  other method the token names.\<close>

theorem login_session:
  assumes "jwt_ok lib" and "app_issue A = JWT_Issue lib issued svc" and "app_verify B = JWT_Verify lib now svc"
    and "LoginUser_Handle (app_reads A) (app_hasher A) (app_issue A) email password s = (Ok (token, usr), s')"
    and "c_Header c ''Authorization'' = ''Bearer '' @ token" and "c_Method c \<noteq> ''OPTIONS''"
    and "route_of (c_Method c) path = Some route" and "group_of route = Authed"
  shows "(now < expiry svc issued \<longrightarrow>
      (\<forall>resp w'. endpoint B b route (signedIn \<lparr>tc_UserID = usr_id usr, tc_Role = usr_role usr\<rparr> (arrived b path c)) w
          = (Ok resp, w') \<longrightarrow>
        (\<exists>wr'. serve B b no_limits path c (wr, t, w) = (Ok resp, (wr', t, w'))))) \<and>
    (expiry svc issued \<le> now \<longrightarrow>
      (\<exists>resp wr' t'. serve B b L path c (wr, t2, w) = (Ok resp, (wr', t', w)) \<and> rs_Status resp \<notin> {200, 201})) \<and>
    (\<forall>forged k. JWT_Verify lib now svc forged = Ok k \<longrightarrow>
      jwt_signed lib (HMAC ''HS256'') (jwt_secret svc) forged)"
proof -
  have "JWT_Issue lib issued svc (usr_id usr) (usr_role usr) = Ok token"
    using login_token [OF assms(4)] assms(2) by simp
  from bearer_issued [OF assms(1) this assms(5), of now]
  have bearer: "bearer (app_verify B) c =
      (if now < expiry svc issued then Some \<lparr>tc_UserID = usr_id usr, tc_Role = usr_role usr\<rparr> else None)"
    by (simp add: assms(3))
  have served: "\<exists>wr'. serve B b no_limits path c (wr, t, w) = (Ok resp, (wr', t, w'))"
    if "now < expiry svc issued"
      and "endpoint B b route (signedIn \<lparr>tc_UserID = usr_id usr, tc_Role = usr_role usr\<rparr> (arrived b path c)) w
        = (Ok resp, w')" for resp w'
  proof -
    have "bearer (app_verify B) c = Some \<lparr>tc_UserID = usr_id usr, tc_Role = usr_role usr\<rparr>"
      using that(1) bearer by simp
    from assms(7,8) this assms(6) that(2) show ?thesis by (rule serve_signed_in) blast
  qed
  have refused: "\<exists>resp wr' t'. serve B b L path c (wr, t2, w) = (Ok resp, (wr', t', w)) \<and> rs_Status resp \<notin> {200, 201}"
    if "expiry svc issued \<le> now"
  proof -
    obtain r wr' t' w' where run: "serve B b L path c (wr, t2, w) = (r, (wr', t', w'))" by (metis prod_cases4)
    moreover obtain resp where "r = Ok resp" using run by (cases rule: serve_cases) auto
    ultimately show ?thesis using serve_authed [OF assms(7,8,6)] bearer that by fastforce
  qed
  show ?thesis using served refused verify_accepts(1) [OF assms(1)] by blast
qed

text \<open>A library with one token, and the service that issues it at time 0 for an hour.\<close>

definition demo_service :: JWTService where
  "demo_service = NewJWTService ''secret'' ''orders'' 3600000000000"

definition one_token :: JwtLib where
  "one_token = \<lparr>
     jwt_SignedString = (\<lambda>meth claims key.
       if meth = HMAC ''HS256'' \<and> key = ''secret'' \<and> claims = token_claims demo_service 0 1 ''customer''
       then Some ''h.c.s'' else None),
     jwt_signed = (\<lambda>meth key token. meth = HMAC ''HS256'' \<and> key = ''secret'' \<and> token = ''h.c.s''),
     jwt_Parse = (\<lambda>now keyf methods iss token.
       if token = ''h.c.s'' \<and> keyf (HMAC ''HS256'') = Ok ''secret'' \<and> ''HS256'' \<in> set methods \<and>
         (iss = '''' \<or> iss = ''orders'') \<and> now < 3600000000000
       then Ok \<lparr>pt_Valid = True, pt_Claims = Some (token_claims demo_service 0 1 ''customer'')\<rparr>
       else Err (Plain ''token is invalid''))\<rparr>"

lemma one_token_claims:
  "token_claims demo_service 0 1 ''customer'' ''exp'' = Some (NumericDate 3600)"
  "token_claims demo_service 0 1 ''customer'' ''iss'' = Some (Text ''orders'')"
  by (simp_all add: token_claims_def demo_service_def NewJWTService_def NewNumericDate_def)

lemma one_token_ok: "jwt_ok one_token"
  by (auto simp: jwt_ok_def one_token_def one_token_claims is_space_def split: if_splits)

lemma demo_expiry: "expiry demo_service 0 = 3600000000000"
  by (simp add: expiry_def demo_service_def NewJWTService_def)

definition session_app :: "time \<Rightarrow> (DB, nat) App" where
  "session_app now = demo_app\<lparr>app_issue := JWT_Issue one_token 0 demo_service,
     app_hasher := demo_hasher, app_verify := JWT_Verify one_token now demo_service\<rparr>"

lemma session_login:
  "\<exists>usr. LoginUser_Handle (app_reads (session_app 0)) (app_hasher (session_app 0)) (app_issue (session_app 0))
     ''a@b.c'' ''pw'' (empty_db\<lparr>db_users := [registered_row]\<rparr>) =
     (Ok (''h.c.s'', usr), empty_db\<lparr>db_users := [registered_row]\<rparr>) \<and> usr_id usr = 1"
  by (simp add: LoginUser_Handle_def session_app_def app_reads_def demo_app_def command_eval empty_db_def
      userRepo_FindByEmail_def registered_row_def demo_hasher_def userToDomain_def ReconstituteUser_def
      JWT_Issue_def one_token_def demo_service_def NewJWTService_def)

text \<open>After an hour the token does not list orders any more.\<close>

theorem login_session_witness:
  "\<exists>resp wr t. serve (session_app 3600000000000) demo_binding no_limits [''orders'', ''1'']
     (demo_request ''GET'' ''h.c.s'' '''') (Map.empty, NewRateTable 0, demo_world demo_db2) =
     (Ok resp, (wr, t, demo_world demo_db2)) \<and> rs_Status resp \<notin> {200, 201}"
proof -
  let ?c = "demo_request ''GET'' ''h.c.s'' ''''"
  obtain usr where login: "LoginUser_Handle (app_reads (session_app 0)) (app_hasher (session_app 0))
      (app_issue (session_app 0)) ''a@b.c'' ''pw'' (empty_db\<lparr>db_users := [registered_row]\<rparr>) =
      (Ok (''h.c.s'', usr), empty_db\<lparr>db_users := [registered_row]\<rparr>)" using session_login by blast
  have apps: "app_issue (session_app 0) = JWT_Issue one_token 0 demo_service"
    "app_verify (session_app 3600000000000) = JWT_Verify one_token 3600000000000 demo_service"
    by (simp_all add: session_app_def)
  have c: "c_Header ?c ''Authorization'' = ''Bearer '' @ ''h.c.s''" "c_Method ?c \<noteq> ''OPTIONS''"
    by (simp_all add: demo_request_def)
  have route: "route_of (c_Method ?c) [''orders'', ''1''] = Some OrdersGet" "group_of OrdersGet = Authed"
    by (simp_all add: demo_routes group_of_def)
  from login_session [OF one_token_ok apps login c route, where L = no_limits and b = demo_binding]
  show ?thesis by (simp add: demo_expiry)
qed

end
