(* ===== verification/Seed.thy ===== *)
theory Seed
  imports Books
begin

text \<open>
  cmd/seed/main.go: the demonstration users and products, stored through the repositories where
  their email or SKU is not taken yet. Loading the configuration, connecting and migrating come
  before; the program starts here with the driver. Each statement is a transaction of its own.
\<close>

record userSeed =
  us_email :: string
  us_password :: string
  us_name :: string
  us_role :: Role

record productSeed =
  ps_sku :: string
  ps_name :: string
  ps_desc :: string
  ps_price :: int64
  ps_stock :: goint
  ps_reorder :: goint

text \<open>A repository's create, which assigns the id of the aggregate it is given.\<close>

definition storing :: "('s \<times> 'a, unit) prog \<Rightarrow> 'a \<Rightarrow> ('s, 'a) prog" where
  "storing m x s = (case m (s, x) of (r, (s', x')) \<Rightarrow> (map_outcome (\<lambda>_. x') r, s'))"

definition seedUser :: "'s Gorm \<Rightarrow> PasswordHasher \<Rightarrow> userSeed \<Rightarrow> ('s, bool) prog" where
  "seedUser G hasher u =
     check (tbl_Count (g_users G) (\<lambda>m. um_Email m = us_email u)) (\<lambda>count.
     if 0 <s count then return False
     else check (lift (pwh_Hash hasher (us_password u))) (\<lambda>hash.
       check (lift (NewUser (us_email u) hash (us_name u) (us_role u))) (\<lambda>entity.
       check (storing (urep_Create (rp_Users (NewRepositories G))) entity) (\<lambda>_.
       return True))))"

definition seedProduct :: "'s Gorm \<Rightarrow> time \<Rightarrow> productSeed \<Rightarrow> ('s, bool) prog" where
  "seedProduct G now p =
     check (tbl_Count (g_products G) (\<lambda>m. pm_SKU m = ps_sku p)) (\<lambda>count.
     if 0 <s count then return False
     else check (lift (MustMoney (ps_price p) ''USD'')) (\<lambda>price.
       check (lift (NewProduct now (ps_sku p) (ps_name p) (ps_desc p) price)) (\<lambda>prod0.
       check (storing (drep_Create (rp_Products (NewRepositories G))) prod0) (\<lambda>prod1.
       check (lift (NewInventory (prod_id prod1) (ps_stock p) (ps_reorder p))) (\<lambda>inv1.
       check (irep_Save (rp_Inventory (NewRepositories G)) inv1) (\<lambda>_.
       return True))))))"

text \<open>The loops over the seeds, counting what was made.\<close>

primrec seedEach :: "('a \<Rightarrow> ('s, bool) prog) \<Rightarrow> 'a list \<Rightarrow> ('s, nat) prog" where
  "seedEach f [] = return 0"
| "seedEach f (x # xs) = check (f x) (\<lambda>made.
     check (seedEach f xs) (\<lambda>n. return (if made then Suc n else n)))"

definition seed_users :: "userSeed list" where
  "seed_users =
    [\<lparr>us_email = ''admin@ex.com'', us_password = ''adminpass123'', us_name = ''Admin User'', us_role = RoleAdmin\<rparr>,
     \<lparr>us_email = ''cathy@ex.com'', us_password = ''custpass123'', us_name = ''Cathy Customer'', us_role = RoleCustomer\<rparr>,
     \<lparr>us_email = ''dave@ex.com'', us_password = ''custpass123'', us_name = ''Dave Customer'', us_role = RoleCustomer\<rparr>,
     \<lparr>us_email = ''erin@ex.com'', us_password = ''custpass123'', us_name = ''Erin Customer'', us_role = RoleCustomer\<rparr>]"

definition a_product :: "string \<Rightarrow> string \<Rightarrow> string \<Rightarrow> int64 \<Rightarrow> goint \<Rightarrow> goint \<Rightarrow> productSeed" where
  "a_product sku name desc price stocked reorder =
     \<lparr>ps_sku = sku, ps_name = name, ps_desc = desc, ps_price = price, ps_stock = stocked, ps_reorder = reorder\<rparr>"

definition seed_products :: "productSeed list" where
  "seed_products =
    [a_product ''SKU-1000'' ''Mechanical Keyboard'' ''Hot-swappable RGB mechanical keyboard'' 8999 50 10,
     a_product ''SKU-1001'' ''Wireless Mouse'' ''Ergonomic wireless mouse'' 2499 100 20,
     a_product ''SKU-1002'' ''27in 4K Monitor'' ''27-inch 4K IPS display'' 24999 15 5,
     a_product ''SKU-1003'' ''USB-C Hub'' ''7-in-1 USB-C hub'' 3999 3 5,
     a_product ''SKU-1004'' ''Laptop Stand'' ''Aluminium laptop stand'' 4599 0 5,
     a_product ''SKU-1005'' ''1080p Webcam'' ''Full-HD webcam with microphone'' 5999 8 10,
     a_product ''SKU-1006'' ''LED Desk Lamp'' ''Dimmable LED desk lamp'' 1999 200 25,
     a_product ''SKU-1007'' ''ANC Headphones'' ''Noise-cancelling over-ear headphones'' 19999 1 3,
     a_product ''SKU-1008'' ''Standing Desk'' ''Electric sit-stand desk'' 39999 12 4,
     a_product ''SKU-1009'' ''Ergonomic Chair'' ''Mesh ergonomic office chair'' 28999 7 6]"

definition runSeed :: "'s Gorm \<Rightarrow> PasswordHasher \<Rightarrow> time \<Rightarrow> ('s, nat \<times> nat) prog" where
  "runSeed G hasher now =
     check (seedEach (seedUser G hasher) seed_users) (\<lambda>createdUsers.
     check (seedEach (seedProduct G now) seed_products) (\<lambda>createdProducts.
     return (createdUsers, createdProducts)))"

section \<open>What the seeds do to the tables\<close>

text \<open>Rows are added, and the shop stays in order.\<close>

definition grows :: "DB \<Rightarrow> DB \<Rightarrow> bool" where
  "grows d d' \<longleftrightarrow> shop_ok d' \<and> conserves d d' \<and> (\<exists>us ps is.
     d' = d\<lparr>db_users := db_users d @ us, db_products := db_products d @ ps, db_inventories := db_inventories d @ is\<rparr>)"

lemma grows_refl: "shop_ok d \<Longrightarrow> grows d d"
  by (auto simp: grows_def intro!: exI [of _ "[]"])

lemma grows_trans:
  assumes "grows d d1" and "grows d1 d2"
  shows "grows d d2"
proof -
  obtain us ps "is" where 1: "d1 = d\<lparr>db_users := db_users d @ us, db_products := db_products d @ ps,
      db_inventories := db_inventories d @ is\<rparr>" using assms(1) by (auto simp: grows_def)
  obtain us' ps' "is'" where 2: "d2 = d1\<lparr>db_users := db_users d1 @ us', db_products := db_products d1 @ ps',
      db_inventories := db_inventories d1 @ is'\<rparr>" using assms(2) by (auto simp: grows_def)
  have "d2 = d\<lparr>db_users := db_users d @ us @ us', db_products := db_products d @ ps @ ps',
      db_inventories := db_inventories d @ is @ is'\<rparr>" by (simp add: 1 2)
  with assms conserves_trans show ?thesis unfolding grows_def by blast
qed

text \<open>A count tells whether a row with the key is there, since there is at most one.\<close>

lemma count_positive:
  assumes "distinct (map k rows)" and "n = (of_nat (length (filter (\<lambda>m. k m = x) rows)) :: int64)"
  shows "0 <s n \<longleftrightarrow> x \<in> k ` set rows"
proof -
  have few: "length (filter (\<lambda>m. k m = x) rows) \<le> 1"
    using filter_distinct_key [OF assms(1), of x "\<lambda>_. True"] by (simp split: option.splits)
  show ?thesis
  proof (cases "filter (\<lambda>m. k m = x) rows")
    case Nil
    then show ?thesis using assms(2) by (auto simp: filter_empty_conv word_sless_alt)
  next
    case (Cons m ms)
    with few assms(2) have "n = 1" by simp
    moreover have "m \<in> set rows \<and> k m = x" using Cons by (auto dest: filter_eq_ConsD)
    ultimately show ?thesis by (auto simp: word_sless_alt)
  qed
qed

lemma distinct_sku: "db_ok d \<Longrightarrow> distinct (map pm_SKU (db_products d))"
  by (rule keys_ok_distinct_column [of _ productSchema]) (auto simp: productSchema_def db_ok_def)

lemma storing_Ok:
  "storing m x s = (Ok x', s') \<longleftrightarrow> m (s, x) = (Ok (), (s', x'))"
  by (auto simp: storing_def map_outcome_Ok_iff split: prod.splits)

lemma storing_failed:
  assumes "storing m x s = (r, s')" and "\<not> is_Ok r"
  obtains r0 x' where "m (s, x) = (r0, (s', x'))" "\<not> is_Ok r0"
  using assms by (auto simp: storing_def split: prod.splits)

lemma check_cases:
  assumes "check m f s = (r, s')"
  obtains (went_on) a s1 where "m s = (Ok a, s1)" "f a s1 = (r, s')"
    | (stopped) r0 where "m s = (r0, s')" "\<not> is_Ok r0" "\<not> is_Ok r"
  using assms by (cases "m s"; cases "fst (m s)") auto

lemma check_lift_cases:
  assumes "check (lift r0) f s = (r, s')"
  obtains (went_on) a where "r0 = Ok a" "f a s = (r, s')"
    | (stopped) "s' = s" "\<not> is_Ok r" "\<not> is_Ok r0"
  using assms by (cases r0) auto

text \<open>The rest of a seed runs only where its key is not taken.\<close>

lemma unless_present:
  assumes "table_ok S view rows put T" and "distinct (map k (rows (view s)))"
    and "check (tbl_Count T (\<lambda>m. k m = x)) (\<lambda>count. if 0 <s count then return False else rest) s = (r, s')"
  obtains (there) "r = Ok False" "view s' = view s" "x \<in> k ` set (rows (view s))"
    | (absent) s1 where "x \<notin> k ` set (rows (view s))" "view s1 = view s" "rest s1 = (r, s')"
    | (failed) "\<not> is_Ok r" "view s' = view s"
proof -
  note count = table_okD(6) [OF assms(1), of s "\<lambda>m. k m = x"]
  from assms(3) show ?thesis
  proof (cases rule: check_cases)
    case (went_on n s1)
    from reads_only_Ok [OF count went_on(1)] have
      n: "n = of_nat (length (filter (\<lambda>m. k m = x) (rows (view s))))" and v1: "view s1 = view s" by simp_all
    from count_positive [OF assms(2) n] went_on(2) v1 show ?thesis
      by (cases "0 <s n") (auto intro: there absent)
  next
    case (stopped r0)
    with reads_only_view [OF count] show ?thesis by (intro failed) auto
  qed
qed

lemma seedUser_cases:
  assumes "gorm_ok G view" and "db_ok (view s)" and "seedUser G hasher u s = (r, s')"
  obtains (there) "r = Ok False" "view s' = view s" "us_email u \<in> um_Email ` set (db_users (view s))"
    | (made) m0 m where "r = Ok True" "inserts userSchema (db_users (view s)) m0 m" "us_email u \<notin> um_Email ` set (db_users (view s))"
        "um_Email m = us_email u" "view s' = put_users (db_users (view s) @ [m]) (view s)"
    | (failed) "\<not> is_Ok r" "view s' = view s"
proof -
  note t = users_table [OF assms(1)]
  from t db_ok_columns(6) [OF assms(2)] assms(3) [unfolded seedUser_def] show ?thesis
  proof (cases rule: unless_present)
    case there
    then show ?thesis by (rule that(1))
  next
    case (absent s1)
    note v1 = absent(2)
    from absent(3) show ?thesis
    proof (cases rule: check_lift_cases)
      case hash: (went_on hash)
      from hash(2) show ?thesis
      proof (cases rule: check_lift_cases)
        case entity: (went_on entity)
        from entity(2) show ?thesis
        proof (cases rule: check_cases)
          case stored: (went_on u' s2)
          from stored(1) have "urep_Create (rp_Users (NewRepositories G)) (s1, entity) = (Ok (), (s2, u'))"
            by (simp add: storing_Ok)
          from gorm_users.Create_user [OF assms(1) this] obtain m where
            m: "inserts userSchema (db_users (view s)) (userToModel entity) m"
            "view s2 = put_users (db_users (view s) @ [m]) (view s)" by (auto simp: v1)
          have "m = (userToModel entity)\<lparr>um_ID := um_ID m, um_CreatedAt := um_CreatedAt m,
              um_Role := filled_string ''customer'' (um_Role (userToModel entity))\<rparr>"
            using m(1) by (simp add: inserts_def userSchema_def)
          from arg_cong [OF this, of um_Email] have "um_Email m = um_Email (userToModel entity)" by simp
          also have "\<dots> = us_email u"
            using entity(1) by (auto simp: userToModel_def NewUser_def Record_def Let_def split: if_splits)
          finally show ?thesis using m stored(2) absent(1) by (intro made) auto
        next
          case (stopped r0)
          from stopped(1,2) obtain r1 x where
            "urep_Create (rp_Users (NewRepositories G)) (s1, entity) = (r1, (s', x))" "\<not> is_Ok r1"
            by (rule storing_failed)
          then obtain r2 where "tbl_Create (g_users G) (userToModel entity) s1 = (r2, s')" "\<not> is_Ok r2"
            by (auto simp: userRepo_Create_def split: prod.splits outcome.splits)
          from writes_failed [OF table_okD(1) [OF t] this] stopped(3) v1 show ?thesis by (intro failed) auto
        qed
      qed (use v1 failed in auto)
    qed (use v1 failed in auto)
  qed (rule failed)
qed

text \<open>A product whose stock record could not be saved stays without one.\<close>

definition seed_input :: "productSeed \<Rightarrow> CreateProductInput" where
  "seed_input p = \<lparr>cpin_SKU = ps_sku p, cpin_Name = ps_name p, cpin_Description = ps_desc p,
     cpin_PriceAmount = ps_price p, cpin_Currency = ''USD'', cpin_InitialStock = ps_stock p,
     cpin_ReorderLevel = ps_reorder p\<rparr>"

lemma seedProduct_cases:
  assumes "gorm_ok G view" and "db_ok (view s)" and "seedProduct G now p s = (r, s')"
  obtains (there) "r = Ok False" "view s' = view s" "ps_sku p \<in> pm_SKU ` set (db_products (view s))"
    | (made) prod where "r = Ok True" "product_added (seed_input p) (view s) (view s') prod" "db_ok (view s')"
    | (without_stock) m0 m where "\<not> is_Ok r" "inserts productSchema (db_products (view s)) m0 m"
        "ps_sku p \<notin> pm_SKU ` set (db_products (view s))"
        "view s' = put_products (db_products (view s) @ [m]) (view s)"
    | (failed) "\<not> is_Ok r" "view s' = view s"
proof -
  note t = products_table [OF assms(1)]
  let ?rp = "NewRepositories G"
  from t distinct_sku [OF assms(2)] assms(3) [unfolded seedProduct_def] show ?thesis
  proof (cases rule: unless_present)
    case there
    then show ?thesis by (rule that(1))
  next
    case (absent s1)
    note v1 = absent(2)
    from absent(3) show ?thesis
    proof (cases rule: check_lift_cases)
      case price: (went_on price)
      from price(2) show ?thesis
      proof (cases rule: check_lift_cases)
        case prod0: (went_on prod0)
        from prod0(2) show ?thesis
        proof (cases rule: check_cases)
          case stored: (went_on prod1 s2)
          from stored(1) have cr: "drep_Create (rp_Products ?rp) (s1, prod0) = (Ok (), (s2, prod1))"
            by (simp add: storing_Ok)
          from gorm_catalogue.Create_product [OF assms(1) cr] obtain m where
            m: "inserts productSchema (db_products (view s)) (productToModel prod0) m"
            "view s2 = put_products (db_products (view s) @ [m]) (view s)" by (auto simp: v1)
          from stored(2) show ?thesis
          proof (cases rule: check_lift_cases)
            case inv1: (went_on inv1)
            from inv1(2) show ?thesis
            proof (cases rule: check_cases)
              case saved: (went_on u s3)
              have "NewMoney (ps_price p) ''USD'' = Ok price"
                using price(1) by (auto simp: MustMoney_Ok_iff NewMoney_Ok_iff)
              moreover have "createProductTx (seed_input p) ?rp (s1, prod0) = (Ok (), (s', prod1))"
                using cr inv1(1) saved by (simp add: createProductTx_def seed_input_def)
              ultimately have "product_added (seed_input p) (view s1) (view s') prod1 \<and> db_ok (view s')"
                using prod0(1) assms(1,2) v1
                by (intro creating.createProductTx_Ok [where price = price and now = now and p = prod0])
                  (auto simp: seed_input_def)
              with saved(2) v1 show ?thesis by (intro made) auto
            next
              case (stopped r0)
              then have "tbl_Save (g_inventories G) (inventoryToModel inv1) s2 = (r0, s')"
                by (simp add: inventoryRepo_Save_def)
              from writes_failed [OF table_okD(2) [OF inventories_table [OF assms(1)]] this stopped(2)]
              show ?thesis using m stopped(3) absent(1) by (intro without_stock) auto
            qed
          qed (use m absent(1) without_stock in auto)
        next
          case (stopped r0)
          from stopped(1,2) obtain r1 x where
            "drep_Create (rp_Products ?rp) (s1, prod0) = (r1, (s', x))" "\<not> is_Ok r1"
            by (rule storing_failed)
          then obtain r2 where "tbl_Create (g_products G) (productToModel prod0) s1 = (r2, s')" "\<not> is_Ok r2"
            by (auto simp: productRepo_Create_def split: prod.splits outcome.splits)
          from writes_failed [OF table_okD(1) [OF t] this] stopped(3) v1 show ?thesis by (intro failed) auto
        qed
      qed (use v1 failed in auto)
    qed (use v1 failed in auto)
  qed (rule failed)
qed

section \<open>Seeding\<close>

definition seeded_user :: "userSeed \<Rightarrow> DB \<Rightarrow> bool" where
  "seeded_user u d \<longleftrightarrow> us_email u \<in> um_Email ` set (db_users d)"

definition seeded_product :: "productSeed \<Rightarrow> DB \<Rightarrow> bool" where
  "seeded_product p d \<longleftrightarrow> ps_sku p \<in> pm_SKU ` set (db_products d)"

lemma seeded_grows:
  "seeded_user u d \<Longrightarrow> grows d d' \<Longrightarrow> seeded_user u d'"
  "seeded_product p d \<Longrightarrow> grows d d' \<Longrightarrow> seeded_product p d'"
  by (auto simp: seeded_user_def seeded_product_def grows_def)

lemma grows_other:
  assumes "shop_ok d" and "db_ok d'"
    and "d' = d\<lparr>db_users := db_users d @ us, db_products := db_products d @ ps\<rparr>"
  shows "grows d d'"
proof -
  have "shop_ok d' \<and> conserves d d'"
    using assms by (intro shop_ok_other) auto
  with assms(3) show ?thesis unfolding grows_def
    by (intro conjI exI [of _ us] exI [of _ ps] exI [of _ "[]"]) auto
qed

lemma seedUser_grows:
  assumes "gorm_ok G view" and "shop_ok (view s)" and "seedUser G hasher u s = (r, s')"
  shows "grows (view s) (view s') \<and> (is_Ok r \<longrightarrow> seeded_user u (view s')) \<and>
    (seeded_user u (view s) \<longrightarrow> view s' = view s \<and> (is_Ok r \<longrightarrow> r = Ok False))"
proof -
  have ok: "db_ok (view s)" using assms(2) by (simp add: shop_ok_def)
  from assms(1) ok assms(3) show ?thesis
  proof (cases rule: seedUser_cases)
    case there
    with grows_refl [OF assms(2)] show ?thesis by (simp add: seeded_user_def)
  next
    case (made m0 m)
    have "db_ok (view s')"
      using ok inserts_keys_ok [OF made(2)] by (simp add: db_ok_def made(5))
    with made(5) have "grows (view s) (view s')"
      by (intro grows_other [OF assms(2), where us = "[m]" and ps = "[]"]) auto
    with made show ?thesis by (auto simp: seeded_user_def)
  next
    case failed
    with grows_refl [OF assms(2)] show ?thesis by simp
  qed
qed

lemma seedProduct_grows:
  assumes "gorm_ok G view" and "shop_ok (view s)" and "seedProduct G now p s = (r, s')"
  shows "grows (view s) (view s') \<and> (is_Ok r \<longrightarrow> seeded_product p (view s')) \<and>
    (seeded_product p (view s) \<longrightarrow> view s' = view s \<and> (is_Ok r \<longrightarrow> r = Ok False))"
proof -
  have ok: "db_ok (view s)" using assms(2) by (simp add: shop_ok_def)
  from assms(1) ok assms(3) show ?thesis
  proof (cases rule: seedProduct_cases)
    case there
    with grows_refl [OF assms(2)] show ?thesis by (simp add: seeded_product_def)
  next
    case (made prod)
    obtain m i where new: "view s' = (view s)\<lparr>db_products := db_products (view s) @ [m],
        db_inventories := db_inventories (view s) @ [i]\<rparr>" "pm_SKU m = ps_sku p"
      "ps_sku p \<notin> pm_SKU ` set (db_products (view s))"
      using made(2) by (auto simp: product_added_def seed_input_def)
    have "grows (view s) (view s')"
      using product_added_keeps [OF made(2,3) assms(2)] new(1) unfolding grows_def
      by (auto intro!: exI [of _ "[]"] exI [of _ "[m]"] exI [of _ "[i]"])
    with new show ?thesis by (simp add: seeded_product_def)
  next
    case (without_stock m0 m)
    have "db_ok (view s')"
      using ok inserts_keys_ok [OF without_stock(2)] by (simp add: db_ok_def without_stock(4))
    with without_stock(4) have "grows (view s) (view s')"
      by (intro grows_other [OF assms(2), where us = "[]" and ps = "[m]"]) auto
    with without_stock show ?thesis by (auto simp: seeded_product_def)
  next
    case failed
    with grows_refl [OF assms(2)] show ?thesis by simp
  qed
qed

text \<open>The loop over seeds of either kind.\<close>

locale seeding =
  fixes ok :: "'g \<Rightarrow> ('s \<Rightarrow> DB) \<Rightarrow> bool" and seed :: "'g \<Rightarrow> 'a \<Rightarrow> ('s, bool) prog"
    and seeded :: "'a \<Rightarrow> DB \<Rightarrow> bool"
  assumes seed_grows: "ok g view \<Longrightarrow> shop_ok (view s) \<Longrightarrow> seed g x s = (r, s') \<Longrightarrow>
      grows (view s) (view s') \<and> (is_Ok r \<longrightarrow> seeded x (view s')) \<and>
      (seeded x (view s) \<longrightarrow> view s' = view s \<and> (is_Ok r \<longrightarrow> r = Ok False))"
    and stays_seeded: "seeded x d \<Longrightarrow> grows d d' \<Longrightarrow> seeded x d'"
begin

lemma all_seeded:
  assumes "ok g view" and "shop_ok (view s)" and "seedEach (seed g) xs s = (r, s')"
  shows "grows (view s) (view s') \<and> (is_Ok r \<longrightarrow> (\<forall>x \<in> set xs. seeded x (view s')))"
  using assms(2-)
proof (induction xs arbitrary: s r s')
  case Nil
  then show ?case by (auto simp: grows_refl)
next
  case (Cons x xs)
  from Cons.prems(2) [unfolded seedEach.simps] show ?case
  proof (cases rule: check_cases)
    case (went_on made s1)
    note here = seed_grows [OF assms(1) Cons.prems(1) went_on(1)]
    have shop: "shop_ok (view s1)" using here by (simp add: grows_def)
    from went_on(2) show ?thesis
    proof (cases rule: check_cases)
      case rest: (went_on n s2)
      from Cons.IH [OF shop rest(1)] rest(2) here show ?thesis
        by (auto intro: grows_trans stays_seeded)
    next
      case (stopped r0)
      from Cons.IH [OF shop stopped(1)] here stopped(3) show ?thesis by (auto intro: grows_trans)
    qed
  next
    case (stopped r0)
    from seed_grows [OF assms(1) Cons.prems(1) stopped(1)] stopped(3) show ?thesis by simp
  qed
qed

lemma seeded_again:
  assumes "ok g view" and "shop_ok (view s)" and "\<forall>x \<in> set xs. seeded x (view s)"
    and "seedEach (seed g) xs s = (r, s')"
  shows "view s' = view s \<and> (is_Ok r \<longrightarrow> r = Ok 0)"
  using assms(2-)
proof (induction xs arbitrary: s r s')
  case (Cons x xs)
  from Cons.prems(3) [unfolded seedEach.simps] show ?case
  proof (cases rule: check_cases)
    case (went_on made s1)
    with seed_grows [OF assms(1) Cons.prems(1) went_on(1)] Cons.prems(2) have v1: "view s1 = view s" "\<not> made" by auto
    from went_on(2) show ?thesis
    proof (cases rule: check_cases)
      case rest: (went_on n s2)
      from Cons.IH [OF _ _ rest(1)] Cons.prems(1,2) rest(2) v1 show ?thesis by simp
    next
      case (stopped r0)
      from Cons.IH [OF _ _ stopped(1)] Cons.prems(1,2) stopped(3) v1 show ?thesis by simp
    qed
  next
    case (stopped r0)
    from seed_grows [OF assms(1) Cons.prems(1) stopped(1)] Cons.prems(2) stopped(3) show ?thesis by simp
  qed
qed simp

end

interpretation seeding_users: seeding "\<lambda>(G, hasher). gorm_ok G" "\<lambda>(G, hasher). seedUser G hasher" seeded_user
  by unfold_locales (auto dest: seedUser_grows intro: seeded_grows)

interpretation seeding_products: seeding "\<lambda>(G, now). gorm_ok G" "\<lambda>(G, now). seedProduct G now" seeded_product
  by unfold_locales (auto dest: seedProduct_grows intro: seeded_grows)

definition seeded :: "DB \<Rightarrow> bool" where
  "seeded d \<longleftrightarrow> (\<forall>u \<in> set seed_users. seeded_user u d) \<and> (\<forall>p \<in> set seed_products. seeded_product p d)"

lemma runSeed_grows:
  assumes "gorm_ok G view" and "shop_ok (view s)" and "runSeed G hasher now s = (r, s')"
  shows "grows (view s) (view s') \<and> (is_Ok r \<longrightarrow> seeded (view s'))"
  using assms(3) unfolding runSeed_def
proof (cases rule: check_cases)
  case (went_on n s1)
  note users = seeding_users.all_seeded [of "(G, hasher)", simplified, OF assms(1,2) went_on(1)]
  have shop: "shop_ok (view s1)" using users by (simp add: grows_def)
  from went_on(2) show ?thesis
  proof (cases rule: check_cases)
    case products: (went_on k s2)
    from seeding_products.all_seeded [of "(G, now)", simplified, OF assms(1) shop products(1)] users products(2)
    show ?thesis by (auto simp: seeded_def intro: grows_trans seeded_grows)
  next
    case (stopped r0)
    from seeding_products.all_seeded [of "(G, now)", simplified, OF assms(1) shop stopped(1)] users stopped(3)
    show ?thesis by (auto intro: grows_trans)
  qed
next
  case (stopped r0)
  from seeding_users.all_seeded [of "(G, hasher)", simplified, OF assms(1,2) stopped(1)] stopped(3)
  show ?thesis by simp
qed

lemma runSeed_again:
  assumes "gorm_ok G view" and "shop_ok (view s)" and "seeded (view s)" and "runSeed G hasher now s = (r, s')"
  shows "view s' = view s \<and> (is_Ok r \<longrightarrow> r = Ok (0, 0))"
  using assms(4) unfolding runSeed_def
proof (cases rule: check_cases)
  case (went_on n s1)
  have "view s1 = view s \<and> n = 0"
    using seeding_users.seeded_again [of "(G, hasher)", simplified, OF assms(1,2) _ went_on(1)] assms(3)
    by (simp add: seeded_def)
  then have v1: "view s1 = view s" and n: "n = 0" by simp_all
  from went_on(2) show ?thesis
  proof (cases rule: check_cases)
    case products: (went_on k s2)
    from seeding_products.seeded_again [of "(G, now)", simplified, OF assms(1) _ _ products(1)] assms(2,3) products(2)
    show ?thesis by (simp add: v1 n seeded_def)
  next
    case (stopped r0)
    from seeding_products.seeded_again [of "(G, now)", simplified, OF assms(1) _ _ stopped(1)] assms(2,3) stopped(3)
    show ?thesis by (simp add: v1 seeded_def)
  qed
next
  case (stopped r0)
  from seeding_users.seeded_again [of "(G, hasher)", simplified, OF assms(1,2) _ stopped(1)] assms(3) stopped(3)
  show ?thesis by (simp add: seeded_def)
qed

end
