(* ===== verification/Seed_Props.thy ===== *)
theory Seed_Props
  imports Seed Backoffice_Props
begin

text \<open>What running the seed program, once or again, does to a shop.\<close>

text \<open>C38: the seed program only adds users, products and stock records, each at the end of its
  table, and keeps the shop's books, wherever it stops. If it ends without an error every seed user
  and product is there; and run again then - with whatever clock, hasher and faults of the
  database - it changes no table, and reports that it made nothing.\<close>

theorem seed_repeatable:
  assumes "gorm_ok G view" and "shop_ok (view s)" and "runSeed G hasher now s = (r, s')"
  shows "shop_ok (view s') \<and> conserves (view s) (view s') \<and>
    (\<exists>us ps is. view s' = (view s)\<lparr>db_users := db_users (view s) @ us,
       db_products := db_products (view s) @ ps, db_inventories := db_inventories (view s) @ is\<rparr>) \<and>
    (is_Ok r \<longrightarrow> seeded (view s') \<and>
      (\<forall>hasher2 later r2 s2. runSeed G hasher2 later s' = (r2, s2) \<longrightarrow>
         view s2 = view s' \<and> (is_Ok r2 \<longrightarrow> r2 = Ok (0, 0))))"
proof -
  note grown = runSeed_grows [OF assms]
  then have shop: "shop_ok (view s')" by (simp add: grows_def)
  from runSeed_again [OF assms(1) shop] grown show ?thesis by (auto simp: grows_def)
qed

lemma empty_shop_ok: "shop_ok empty_db"
  by (simp add: shop_ok_def db_ok_def accounted_def held_def units_of_def stock_def inv_row_def empty_db_def)

text \<open>A user and two products of the ten, in an empty shop.\<close>

lemma seed_run:
  "\<exists>d. runSeed memGorm demo_hasher 5 empty_db = (Ok (4, 10), d)"
  by (simp add: runSeed_def seed_users_def seedUser_def command_eval empty_db_def userRepo_Create_def storing_def
      NewUser_def demo_hasher_def userToModel_def User_AssignID_def Record_def RoleAdmin_def RoleCustomer_def
      Role_Valid_def word_sless_alt Let_def seed_products_def a_product_def seedProduct_def MustMoney_def
      NewMoney_def NewProduct_def productRepo_Create_def productToModel_def Product_AssignID_def
      NewInventory_def inventoryRepo_Save_def inventoryToModel_def)

text \<open>The second run of the program over the tables the first run left.\<close>

theorem seed_repeatable_witness:
  "\<exists>d. runSeed memGorm demo_hasher 5 empty_db = (Ok (4, 10), d) \<and> seeded d \<and> shop_ok d \<and>
     snd (runSeed memGorm demo_hasher 9 d) = d"
proof -
  obtain d where run: "runSeed memGorm demo_hasher 5 empty_db = (Ok (4, 10), d)" using seed_run by blast
  have shop: "shop_ok (id empty_db)" by (simp add: empty_shop_ok)
  obtain r2 s2 where again: "runSeed memGorm demo_hasher 9 d = (r2, s2)" by force
  from seed_repeatable [OF memGorm_ok shop run] again run show ?thesis by simp
qed

end
