(* ===== verification/Races.thy ===== *)
theory Races
  imports CancelOrder_Props
begin

text \<open>
  A cancellation in its two steps: the order is read outside the transaction (cancel_order.go:26),
  and what follows works with that copy. Between the two, other requests change the tables.
\<close>

definition cancelFinish :: "'s CancelOrder \<Rightarrow> CancelOrderInput \<Rightarrow> Order \<Rightarrow> ('s, 'g) World
    \<Rightarrow> Order outcome \<times> ('s, 'g) World" where
  "cancelFinish h inp ord w =
     (let wasReserved = (ord_status ord = StatusReserved);
          wasPaid = (ord_status ord = StatusPaid)
      in case co_uow h (cancelTx wasReserved wasPaid (coin_Reason inp)) (w_store w, ord) of
           (Ok _, (s2, ord')) \<Rightarrow>
             (Ok (ord'\<lparr>pending := []\<rparr>), publish (map EvOrder (pending ord')) (w\<lparr>w_store := s2\<rparr>))
         | (Err e, (s2, _)) \<Rightarrow> (Err e, w\<lparr>w_store := s2\<rparr>)
         | (Panic p, (s2, _)) \<Rightarrow> (Panic p, w\<lparr>w_store := s2\<rparr>))"

lemma Cancel_read_finish:
  assumes "orep_FindByID (rp_Orders (co_reads h)) (coin_OrderID inp) (w_store w) = (Ok ord, s1)"
  shows "CancelOrder_Handle h inp w = cancelFinish h inp ord (w\<lparr>w_store := s1\<rparr>)"
  using assms by (auto simp: CancelOrder_Handle_def cancelFinish_def Let_def split: prod.split outcome.split)

context cancel_ports
begin

lemma finish_cancels:
  assumes "uok c view" and "co_uow h = uow c" and "db_ok (view (w_store w))"
    and "cancelFinish h inp o1 w = (Ok o2, w')"
  shows "\<exists>o3. order_cancelled (coin_Reason inp) o1 (view (w_store w)) (view (w_store w')) o3"
proof -
  let ?F = "cancelTx (ord_status o1 = StatusReserved) (ord_status o1 = StatusPaid) (coin_Reason inp)"
  from Do_transaction [OF assms(1)] obtain g txn where
    g: "ok g view" "transactional view txn" "uow c ?F = txn (?F (rp g))" by blast
  from assms(2,4) g(3) obtain o3 s2 where
    run: "txn (?F (rp g)) (w_store w, o1) = (Ok (), (s2, o3))" and s2: "w_store w' = s2"
    by (auto simp: cancelFinish_def Let_def publish_def split: prod.splits outcome.splits)
  from g(2) run obtain s0 s1 where
    s: "view s0 = view (w_store w)" "?F (rp g) (s0, o1) = (Ok (), (s1, o3))" "view s2 = view s1"
    by (rule transactional_Ok)
  from cancelTx_Ok [OF g(1) _ s(2)] s assms(3) s2 show ?thesis by auto
qed

end

text \<open>C11: a cancellation decides by the copy of the order it read before its transaction, whatever
  became of the order since: when it succeeds, the order is stored as cancelled, even if it is
  cancelled, failed or fulfilled by now, and the units of a copy that was open are given back again.
  So two cancellations that both read a reserved order and run one after the other release its stock
  twice, out of the stock that other orders hold, and the books are wrong.\<close>

theorem cancel_stale_read:
  assumes "cancel_wired G u view h" and "db_ok (view (w_store w))"
    and "orep_FindByID (rp_Orders (co_reads h)) (coin_OrderID inp) s0 = (Ok o1, s1)"
    and "x \<in> set (db_orders (view (w_store w)))" and "om_ID x = coin_OrderID inp"
    and "cancelFinish h inp o1 w = (Ok o2, w')"
  shows "(\<exists>y \<in> set (db_orders (view (w_store w'))). om_ID y = coin_OrderID inp \<and> om_Status y = StatusCancelled) \<and>
    (ord_status o1 \<noteq> StatusPending \<longrightarrow>
      stock_shift 1 (-1) (moves (ord_items o1)) (view (w_store w)) (view (w_store w'))) \<and>
    (\<not> open_row x \<and> ord_status o1 \<noteq> StatusPending \<and> accounted (view (w_store w)) \<longrightarrow>
      (\<forall>pid. stock (view (w_store w)) pid \<noteq> None \<and> units pid (moves (ord_items o1)) \<noteq> 0 \<longrightarrow>
         \<not> accounted (view (w_store w'))))"
proof -
  let ?d = "view (w_store w)" and ?d' = "view (w_store w')"
  note wd = cancel_wiredD [OF assms(1)]
  from cancelling.finish_cancels [OF wd(3,4) assms(2,6)] obtain o3 where
    c: "order_cancelled (coin_Reason inp) o1 ?d ?d' o3" by blast
  from shop.Find_order [OF wd(1) assms(3) [unfolded wd(2)]] have id1: "ord_id o1 = coin_OrderID inp"
    by (auto dest: orderToDomain_fields(2))
  then have id3: "ord_id o3 = om_ID x" and st3: "ord_status o3 = StatusCancelled"
    using c assms(5) by (simp_all add: order_cancelled_def cancelled_order_def)
  have rows: "db_orders ?d' = db_orders (order_updated o3 ?d)" using c by (simp add: order_cancelled_def)
  have "order_columns o3 x \<in> set (db_orders ?d')"
    using assms(4) id3 by (auto simp: rows order_updated_def)
  then have "\<exists>y \<in> set (db_orders ?d'). om_ID y = coin_OrderID inp \<and> om_Status y = StatusCancelled"
    using assms(5) st3 by (intro bexI [of _ "order_columns o3 x"]) (auto simp: order_columns_def)
  moreover have shift: "ord_status o1 \<noteq> StatusPending \<Longrightarrow> stock_shift 1 (-1) (moves (ord_items o1)) ?d ?d'"
    using c by (simp add: order_cancelled_def)
  moreover have "\<not> accounted ?d'"
    if "\<not> open_row x" "ord_status o1 \<noteq> StatusPending" "accounted ?d" "stock ?d pid \<noteq> None"
      "units pid (moves (ord_items o1)) \<noteq> 0" for pid
  proof -
    note prem = that
    obtain a where a: "stock ?d pid = Some (a, held ?d pid)"
      using prem(3,4) by (auto simp: accounted_def)
    have "held ?d' pid = held ?d pid"
      using order_updated_rows(1) [OF assms(2,4) id3, of pid] prem(1) st3 by (simp add: rows held_def)
    moreover have "stock ?d' pid = Some (a + units pid (moves (ord_items o1)), held ?d pid - units pid (moves (ord_items o1)))"
      using shift [OF that(2)] a by (simp add: stock_shift_def)
    ultimately show ?thesis using that(5) by (auto simp: accounted_def)
  qed
  ultimately show ?thesis by blast
qed

text \<open>Two reserved orders of the same customer; the first is cancelled twice at once.\<close>

definition second_row :: OrderModel where
  "second_row = (demo_open_row StatusReserved)\<lparr>om_ID := 2, om_IdempotencyKey := ''k2'',
     om_Items := map (\<lambda>i. i\<lparr>oim_ID := 2, oim_OrderID := 2\<rparr>) (om_Items (demo_open_row StatusReserved))\<rparr>"

definition race_db :: "OrderStatus \<Rightarrow> int64 \<Rightarrow> int64 \<Rightarrow> DB" where
  "race_db st available reserved = demo_db\<lparr>
     db_inventories := [demo_stock\<lparr>im_Available := available, im_Reserved := reserved\<rparr>],
     db_orders := [demo_open_row st, second_row]\<rparr>"

lemma race_db_ok: "db_ok (race_db st a r)"
  by (simp add: db_ok_def race_db_def demo_db_def schema_defs demo_stock_def demo_product_def
      demo_open_row_def second_row_def)

lemma race_accounted: "accounted (race_db StatusCancelled 3 2)"
  by (auto simp: accounted_def race_db_def stock_def inv_row_def demo_stock_def held_def units_of_def
      open_row_def demo_open_row_def second_row_def row_moves_def)

lemma race_read:
  "orep_FindByID (rp_Orders (co_reads demo_cancel)) 1 (race_db StatusReserved 1 4) =
     (orderToDomain (demo_open_row StatusReserved), race_db StatusReserved 1 4)"
  by (simp add: cancel_eval race_db_def second_row_def)

lemma race_order:
  "\<exists>o1. orderToDomain (demo_open_row StatusReserved) = Ok o1 \<and> ord_status o1 = StatusReserved \<and>
     units 7 (moves (ord_items o1)) = 2 \<and>
     is_Ok (fst (cancelFinish demo_cancel \<lparr>coin_OrderID = 1, coin_Reason = ''late''\<rparr> o1
       (demo_world (race_db StatusReserved 1 4)))) \<and>
     w_store (snd (cancelFinish demo_cancel \<lparr>coin_OrderID = 1, coin_Reason = ''late''\<rparr> o1
       (demo_world (race_db StatusReserved 1 4)))) = race_db StatusCancelled 3 2 \<and>
     is_Ok (fst (cancelFinish demo_cancel \<lparr>coin_OrderID = 1, coin_Reason = ''late''\<rparr> o1
       (demo_world (race_db StatusCancelled 3 2))))"
  by (simp add: cancel_eval cancelFinish_def race_db_def second_row_def moves_def)

text \<open>The second cancellation, on the tables the first one left: the books are wrong.\<close>

theorem cancel_stale_read_witness:
  "\<exists>o1 w1 w2. orderToDomain (demo_open_row StatusReserved) = Ok o1 \<and>
     snd (cancelFinish demo_cancel \<lparr>coin_OrderID = 1, coin_Reason = ''late''\<rparr> o1
       (demo_world (race_db StatusReserved 1 4))) = (w1 :: (DB, nat) World) \<and>
     snd (cancelFinish demo_cancel \<lparr>coin_OrderID = 1, coin_Reason = ''late''\<rparr> o1
       (demo_world (w_store w1))) = (w2 :: (DB, nat) World) \<and>
     accounted (w_store w1) \<and> \<not> accounted (w_store w2) \<and> stock (w_store w2) 7 = Some (5, 0)"
proof -
  let ?inp = "\<lparr>coin_OrderID = 1, coin_Reason = ''late''\<rparr>"
  let ?w = "demo_world (race_db StatusCancelled 3 2)"
  obtain o1 where o1: "orderToDomain (demo_open_row StatusReserved) = Ok o1" "ord_status o1 = StatusReserved"
    "units 7 (moves (ord_items o1)) = 2" "is_Ok (fst (cancelFinish demo_cancel ?inp o1 ?w))"
    "w_store (snd (cancelFinish demo_cancel ?inp o1 (demo_world (race_db StatusReserved 1 4)))) = race_db StatusCancelled 3 2"
    using race_order by blast
  obtain o2 w2 where run: "cancelFinish demo_cancel ?inp o1 ?w = (Ok o2, w2)"
    using o1(4) by (auto simp: is_Ok_iff prod_eq_iff)
  have read: "orep_FindByID (rp_Orders (co_reads demo_cancel)) (coin_OrderID ?inp) (race_db StatusReserved 1 4) =
      (Ok o1, race_db StatusReserved 1 4)" using race_read o1(1) by simp
  have ok: "db_ok (id (w_store ?w))" by (simp add: demo_world_def race_db_ok)
  have row: "demo_open_row StatusCancelled \<in> set (db_orders (id (w_store ?w)))"
    "om_ID (demo_open_row StatusCancelled) = coin_OrderID ?inp" "\<not> open_row (demo_open_row StatusCancelled)"
    by (simp_all add: demo_world_def race_db_def demo_open_row_def open_row_def)
  have st: "stock (race_db StatusCancelled 3 2) 7 = Some (3, 2)"
    by (simp add: stock_def inv_row_def race_db_def demo_stock_def)
  have w: "id (w_store ?w) = race_db StatusCancelled 3 2" by (simp add: demo_world_def)
  note wrong = cancel_stale_read [OF demo_cancel_wired ok read row(1,2) run, unfolded w]
  have shifted: "stock_shift 1 (-1) (moves (ord_items o1)) (race_db StatusCancelled 3 2) (w_store w2)"
    using wrong o1(2) by simp
  have "\<not> accounted (w_store w2)"
    using wrong row(3) o1(2,3) race_accounted st
    by (metis id_apply option.distinct(1) status_distinct(2) zero_neq_numeral)
  moreover from shifted o1(3) st
  have "stock (w_store w2) 7 = Some (5, 0)"
    by (simp add: stock_shift_def)
  ultimately show ?thesis using o1(1,5) run race_accounted by (metis snd_conv)
qed

end
