(* ===== verification/Conform.thy ===== *)
theory Conform
  imports Books
begin

text \<open>
  The types of the tables. Go's string types admit any text and the schema has no foreign keys,
  so that a status is one of the named ones, and that a reference leads to a row, are invariants
  of the code: \<open>conforms\<close> states them, \<open>evolves\<close> what no request can undo. Both are kept by every
  command of the service, the administrator's included.
\<close>

section \<open>Rows that conform\<close>

definition order_statuses :: "OrderStatus set" where
  "order_statuses = {StatusPending, StatusReserved, StatusPaid, StatusFulfilled, StatusCancelled, StatusFailed}"

text \<open>A payment is stored when it is settled, so none is pending.\<close>

definition settled_statuses :: "PaymentStatus set" where
  "settled_statuses = {PaySucceeded, PayFailed, PayRefunded}"

definition order_conforms :: "DB \<Rightarrow> OrderModel \<Rightarrow> bool" where
  "order_conforms d m \<longleftrightarrow> om_Status m \<in> order_statuses \<and> (\<forall>i \<in> set (om_Items m).
     oim_OrderID i = om_ID m \<and> 0 < sint (oim_Quantity i) \<and> oim_ProductID i \<in> pm_ID ` set (db_products d))"

definition payment_conforms :: "DB \<Rightarrow> PaymentModel \<Rightarrow> bool" where
  "payment_conforms d p \<longleftrightarrow> pym_Status p \<in> settled_statuses \<and> pym_OrderID p \<in> om_ID ` set (db_orders d)"

definition conforms :: "DB \<Rightarrow> bool" where
  "conforms d \<longleftrightarrow> db_ok d \<and> (\<forall>u \<in> set (db_users d). Role_Valid (um_Role u)) \<and>
     (\<forall>m \<in> set (db_orders d). order_conforms d m) \<and> (\<forall>p \<in> set (db_payments d). payment_conforms d p) \<and>
     im_ProductID ` set (db_inventories d) \<subseteq> pm_ID ` set (db_products d)"

lemma order_edge_statuses: "order_edge st st' \<Longrightarrow> st' \<in> order_statuses"
  by (auto simp: order_edge_iff order_statuses_def)

text \<open>Rewriting rows without touching a column keeps its values.\<close>

lemma column_map: "(\<And>r. k (f r) = k r) \<Longrightarrow> k ` set (map f rows) = k ` set rows"
  by (simp only: set_map image_image)

text \<open>Which products have a stock row, by the stock.\<close>

lemma stocked_products: "im_ProductID ` set (db_inventories d) = {pid. stock d pid \<noteq> None}"
  by (auto simp: stock_def inv_row_def find_None_iff image_iff)

lemma priced_product:
  assumes "priced d line item"
  shows "item_productID item \<in> pm_ID ` set (db_products d)"
proof -
  from assms obtain m where "m \<in> set (db_products d)" "item_productID item = pm_ID m"
    by (auto simp: priced_def)
  then show ?thesis by (rule rev_image_eqI)
qed

lemma stored_items_conform:
  assumes "list_all2 (priced d) lines items"
    and "list_all2 (stored_item oid) (map itemToModel items) rs" and "i \<in> set rs"
  shows "oim_OrderID i = oid \<and> 0 < sint (oim_Quantity i) \<and> oim_ProductID i \<in> pm_ID ` set (db_products d)"
proof -
  have "pid \<in> pm_ID ` set (db_products d)" if "(pid, q) \<in> set (moves items)" for pid q
    using assms(1) that
    by (induction rule: list_all2_induct) (auto dest: priced_product)
  moreover have "(oim_ProductID i, sint (oim_Quantity i)) \<in> set (moves items)"
    unfolding stored_items_moves [OF assms(2), symmetric] using assms(3) by auto
  moreover have "oim_OrderID r' = oid" if "stored_item oid r r'" for r r'
    using arg_cong [OF conjunct2 [OF that [unfolded stored_item_def]], of oim_OrderID] by simp
  then have "oim_OrderID i = oid"
    using assms(2,3) by (auto simp: list_all2_conv_all_nth in_set_conv_nth)
  ultimately show ?thesis using priced_positive [OF assms(1,2)] assms(3) by blast
qed

section \<open>Tables that only evolve\<close>

text \<open>Every row is still there, changed as \<open>E\<close> allows.\<close>

definition grown :: "('r \<Rightarrow> 'r \<Rightarrow> bool) \<Rightarrow> 'r list \<Rightarrow> 'r list \<Rightarrow> bool" where
  "grown E rows rows' \<longleftrightarrow> (\<forall>r \<in> set rows. \<exists>r' \<in> set rows'. E r r')"

lemma grown_append: "(\<And>r. E r r) \<Longrightarrow> grown E rows (rows @ new)"
  by (auto simp: grown_def)

lemma grown_refl: "(\<And>r. E r r) \<Longrightarrow> grown E rows rows"
  by (auto simp: grown_def)

lemma grown_map: "(\<And>r. r \<in> set rows \<Longrightarrow> E r (f r)) \<Longrightarrow> grown E rows (map f rows)"
  by (auto simp: grown_def)

lemma grown_trans:
  assumes "\<And>r r1 r2. E r r1 \<Longrightarrow> E r1 r2 \<Longrightarrow> E r r2" and "grown E xs ys" and "grown E ys zs"
  shows "grown E xs zs"
  using assms unfolding grown_def by meson

definition user_evolves :: "UserModel \<Rightarrow> UserModel \<Rightarrow> bool" where
  "user_evolves u u' \<longleftrightarrow> um_ID u' = um_ID u \<and> um_Email u' = um_Email u \<and>
     um_PasswordHash u' = um_PasswordHash u \<and> um_Role u' = um_Role u"

definition product_evolves :: "ProductModel \<Rightarrow> ProductModel \<Rightarrow> bool" where
  "product_evolves p p' \<longleftrightarrow> pm_ID p' = pm_ID p \<and> pm_SKU p' = pm_SKU p"

definition order_evolves :: "OrderModel \<Rightarrow> OrderModel \<Rightarrow> bool" where
  "order_evolves m m' \<longleftrightarrow> om_ID m' = om_ID m \<and> om_UserID m' = om_UserID m \<and>
     om_IdempotencyKey m' = om_IdempotencyKey m \<and> om_Items m' = om_Items m \<and>
     om_TotalAmount m' = om_TotalAmount m \<and> om_Currency m' = om_Currency m \<and>
     order_edge\<^sup>*\<^sup>* (om_Status m) (om_Status m')"

definition payment_evolves :: "PaymentModel \<Rightarrow> PaymentModel \<Rightarrow> bool" where
  "payment_evolves p p' \<longleftrightarrow> pym_ID p' = pym_ID p \<and> pym_OrderID p' = pym_OrderID p \<and>
     pym_Amount p' = pym_Amount p \<and> pym_ProviderRef p' = pym_ProviderRef p \<and>
     (pym_Status p' = pym_Status p \<or> pym_Status p = PaySucceeded \<and> pym_Status p' = PayRefunded)"

definition evolves :: "DB \<Rightarrow> DB \<Rightarrow> bool" where
  "evolves d d' \<longleftrightarrow> grown user_evolves (db_users d) (db_users d') \<and>
     grown product_evolves (db_products d) (db_products d') \<and>
     grown order_evolves (db_orders d) (db_orders d') \<and>
     grown payment_evolves (db_payments d) (db_payments d')"

lemmas row_evolves_defs = user_evolves_def product_evolves_def order_evolves_def payment_evolves_def

lemma row_evolves_refl [simp]:
  "user_evolves u u" "product_evolves p p" "order_evolves m m" "payment_evolves q q"
  by (simp_all add: row_evolves_defs)

lemma row_evolves_trans:
  "user_evolves u u1 \<Longrightarrow> user_evolves u1 u2 \<Longrightarrow> user_evolves u u2"
  "product_evolves p p1 \<Longrightarrow> product_evolves p1 p2 \<Longrightarrow> product_evolves p p2"
  "order_evolves m m1 \<Longrightarrow> order_evolves m1 m2 \<Longrightarrow> order_evolves m m2"
  "payment_evolves q q1 \<Longrightarrow> payment_evolves q1 q2 \<Longrightarrow> payment_evolves q q2"
  by (auto simp: row_evolves_defs)

lemma evolves_refl [simp]: "evolves d d"
  by (simp add: evolves_def grown_refl)

lemma evolves_trans: "evolves d d1 \<Longrightarrow> evolves d1 d2 \<Longrightarrow> evolves d d2"
  unfolding evolves_def by (blast intro: grown_trans row_evolves_trans)

definition conform_kept :: "DB \<Rightarrow> DB \<Rightarrow> bool" where
  "conform_kept d d' \<longleftrightarrow> (conforms d \<longrightarrow> conforms d' \<and> evolves d d')"

interpretation types: keeping conform_kept
  by unfold_locales (auto simp: conform_kept_def intro: evolves_trans)

section \<open>A new order\<close>

lemma order_added_conforms:
  assumes "conforms d" and "db_ok d'" and "rest_kept d d'"
    and "db_orders d' = db_orders d @ [m]" and "om_Status m \<in> order_statuses"
    and "list_all2 (priced d) lines items"
    and "list_all2 (stored_item (om_ID m)) (map itemToModel items) (om_Items m)"
    and "db_payments d' = db_payments d @ ps"
    and "\<forall>p \<in> set ps. pym_Status p \<in> settled_statuses \<and> pym_OrderID p = om_ID m"
    and "\<forall>pid. stock d' pid = None \<longleftrightarrow> stock d pid = None"
  shows "conforms d' \<and> evolves d d'"
proof -
  have same: "db_users d' = db_users d" "db_products d' = db_products d" using assms(3) by (simp_all add: rest_kept_def)
  have "im_ProductID ` set (db_inventories d') = im_ProductID ` set (db_inventories d)"
    using assms(10) by (simp add: stocked_products)
  then have "im_ProductID ` set (db_inventories d') \<subseteq> pm_ID ` set (db_products d')"
    using assms(1) same(2) by (simp add: conforms_def)
  moreover have "order_conforms d' m"
    using assms(5) stored_items_conform [OF assms(6,7)] same(2) by (simp add: order_conforms_def)
  then have "\<forall>x \<in> set (db_orders d'). order_conforms d' x"
    using assms(1,4) same(2) by (simp add: conforms_def order_conforms_def)
  moreover have "\<forall>p \<in> set (db_payments d'). payment_conforms d' p"
    using assms(1,4,8,9) by (auto simp: conforms_def payment_conforms_def)
  ultimately have "conforms d'"
    using assms(1,2) same by (simp add: conforms_def)
  moreover have "evolves d d'"
    using assms(4,8) same by (simp add: evolves_def grown_refl grown_append)
  ultimately show ?thesis ..
qed

lemma place_conforms:
  assumes "wired G u view h" and "conforms (view (w_store w))" and "PlaceOrder_Handle h t1 t2 inp w = (res, w')"
  shows "conforms (view (w_store w')) \<and> evolves (view (w_store w)) (view (w_store w'))"
proof -
  have db: "db_ok (view (w_store w))" using assms(2) by (simp add: conforms_def)
  note added = order_added_conforms [OF assms(2), of "view (w_store w')"]
  from assms(1) db assms(3) show ?thesis
  proof (cases rule: handle_outcomes)
    case unchanged
    with assms(2) show ?thesis by simp
  next
    case (completed o1 cr k)
    from completed(3) [unfolded order_completed_def] obtain m p where
      "db_orders (view (w_store w')) = db_orders (view (w_store w)) @ [m]" "om_Status m = StatusFulfilled"
      "list_all2 (stored_item (om_ID m)) (map itemToModel (ord_items o1)) (om_Items m)"
      "db_payments (view (w_store w')) = db_payments (view (w_store w)) @ [p]"
      "pym_OrderID p = om_ID m" "pym_Status p = PaySucceeded" by auto
    with completed(3) [unfolded order_completed_def] show ?thesis
      by (intro added [of m "poin_Items inp" "ord_items o1" "[p]"])
        (auto simp: order_statuses_def settled_statuses_def stock_shift_def)
  next
    case (refused e o1 k)
    from refused(3) [unfolded order_refused_def] obtain m items p where
      "db_orders (view (w_store w')) = db_orders (view (w_store w)) @ [m]" "om_Status m = StatusFailed"
      "list_all2 (priced (view (w_store w))) (poin_Items inp) items"
      "list_all2 (stored_item (om_ID m)) (map itemToModel items) (om_Items m)"
      "db_payments (view (w_store w')) = db_payments (view (w_store w)) @ [p]"
      "pym_OrderID p = om_ID m" "pym_Status p = PayFailed" by auto
    with refused(3) [unfolded order_refused_def] show ?thesis
      by (intro added [of m "poin_Items inp" items "[p]"]) (auto simp: order_statuses_def settled_statuses_def)
  next
    case (held o1)
    from held(2) [unfolded order_held_def] obtain m where
      "db_orders (view (w_store w')) = db_orders (view (w_store w)) @ [m]" "om_Status m = StatusReserved"
      "list_all2 (stored_item (om_ID m)) (map itemToModel (ord_items o1)) (om_Items m)" by auto
    with held(2) [unfolded order_held_def] show ?thesis
      by (intro added [of m "poin_Items inp" "ord_items o1" "[]"])
        (auto simp: order_statuses_def stock_shift_def)
  qed
qed

section \<open>A status that moves\<close>

definition payments_follow :: "uint64 \<Rightarrow> DB \<Rightarrow> DB \<Rightarrow> bool" where
  "payments_follow oid d d' \<longleftrightarrow> db_payments d' = db_payments d \<or>
     db_payments d' = refunded_rows oid (db_payments d) \<and>
       (\<exists>p \<in> set (db_payments d). pym_OrderID p = oid \<and> pym_Status p = PaySucceeded)"

lemma payments_follow_evolve:
  assumes "db_ok d" and "payments_follow oid d d'"
  shows "grown payment_evolves (db_payments d) (db_payments d')"
proof -
  have "pym_Status q = PaySucceeded" if "p \<in> set (db_payments d)" "q \<in> set (db_payments d)"
    "pym_OrderID p = oid" "pym_OrderID q = oid" "pym_Status p = PaySucceeded" for p q
    using distinct_key_unique [OF db_ok_columns(4) [OF assms(1)] that(1,2)] that(3-5) by simp
  with assms(2) show ?thesis
    by (auto simp: payments_follow_def refunded_rows_def payment_evolves_def intro!: grown_refl grown_map)
qed

lemma status_moved_conforms:
  assumes "conforms d" and "m \<in> set (db_orders d)" and "orderToDomain m = Ok o1"
    and "ord_id o2 = ord_id o1" and "ord_total o2 = ord_total o1"
    and "order_edge (ord_status o1) (ord_status o2)"
    and "db_orders d' = db_orders (order_updated o2 d)" and "db_ok d'" and "rest_kept d d'"
    and "payments_follow (om_ID m) d d'" and "\<forall>pid. stock d' pid = None \<longleftrightarrow> stock d pid = None"
  shows "conforms d' \<and> evolves d d'"
proof -
  have db: "db_ok d" using assms(1) by (simp add: conforms_def)
  have same: "db_users d' = db_users d" "db_products d' = db_products d" using assms(9) by (simp_all add: rest_kept_def)
  let ?f = "\<lambda>x. if om_ID x = om_ID m
    then x\<lparr>om_Status := ord_status o2, om_FailureReason := ord_failureReason o2\<rparr> else x"
  have rows: "db_orders d' = map ?f (db_orders d)"
    using order_updated_from_row(1) [OF db assms(2,3,4,5)] assms(7) by simp
  have ids: "om_ID ` set (db_orders d') = om_ID ` set (db_orders d)"
    unfolding rows by (rule column_map) simp
  have edge: "order_edge (om_Status m) (ord_status o2)"
    using assms(6) orderToDomain_fields(3) [OF assms(3)] by simp
  have "im_ProductID ` set (db_inventories d') = im_ProductID ` set (db_inventories d)"
    using assms(11) by (simp add: stocked_products)
  then have "im_ProductID ` set (db_inventories d') \<subseteq> pm_ID ` set (db_products d')"
    using assms(1) same(2) by (simp add: conforms_def)
  moreover have "\<forall>x \<in> set (db_orders d'). order_conforms d' x"
    using assms(1) order_edge_statuses [OF edge] same(2) by (auto simp: rows conforms_def order_conforms_def)
  moreover have "\<forall>p \<in> set (db_payments d'). payment_conforms d' p"
    using assms(1,10) ids imageI [OF assms(2), of om_ID]
    by (auto simp: conforms_def payment_conforms_def payments_follow_def refunded_rows_def settled_statuses_def)
  moreover have "order_evolves x (?f x)" if "x \<in> set (db_orders d)" for x
    using distinct_key_unique [OF db_ok_columns(2) [OF db] that assms(2)] edge by (auto simp: order_evolves_def)
  then have "grown order_evolves (db_orders d) (db_orders d')" unfolding rows by (rule grown_map)
  ultimately show ?thesis
    using assms(1,8) same payments_follow_evolve [OF db assms(10)]
    by (simp add: conforms_def evolves_def grown_refl)
qed

lemma cancel_conforms:
  assumes "cancel_wired G u view h" and "conforms (view (w_store w))" and "CancelOrder_Handle h inp w = (res, w')"
  shows "conforms (view (w_store w')) \<and> evolves (view (w_store w)) (view (w_store w'))"
proof -
  have db: "db_ok (view (w_store w))" using assms(2) by (simp add: conforms_def)
  from cancel_wiredD [OF assms(1)] db assms(3) show ?thesis
  proof (cases rule: cancelling.Cancel_cases)
    case (cancelled m o1 o2)
    note c = cancelled(4) [unfolded order_cancelled_def]
    have o2: "o2 = cancelled_order (coin_Reason inp) o1" "Order_CanCancel o1" using c by simp_all
    have "payments_follow (om_ID m) (view (w_store w)) (view (w_store w'))"
      using c orderToDomain_fields(2) [OF cancelled(3)] by (auto simp: payments_follow_def split: if_splits)
    moreover have "\<forall>pid. stock (view (w_store w')) pid = None \<longleftrightarrow> stock (view (w_store w)) pid = None"
      using c by (auto simp: stock_shift_def split: if_splits)
    ultimately show ?thesis
      using c o2 by (intro status_moved_conforms [OF assms(2) cancelled(1,3), of o2])
        (auto simp: cancelled_order_def order_edge_iff Order_CanCancel_def)
  next
    case refused
    with assms(2) show ?thesis by simp
  qed
qed

lemma status_conforms:
  assumes "uow_ok u view" and "conforms (view s)"
    and "UpdateOrderStatus_Handle (unitOfWork_Do u) i target s = (r, s')"
  shows "conforms (view s') \<and> evolves (view s) (view s')"
  using assms(1,3)
proof (cases rule: updating.Status_cases)
  case (updated m o1 o2)
  have db: "db_ok (view s)" using assms(2) by (simp add: conforms_def)
  from transition_Ok [OF updated(5)] updated(6) db_ok_order_updated [OF db] show ?thesis
    by (intro status_moved_conforms [OF assms(2) updated(2,4), of o2]) (auto simp: payments_follow_def)
next
  case refused
  with assms(2) show ?thesis by simp
qed

section \<open>The other commands\<close>

lemma conform_keepsI:
  "(\<And>s r s'. conforms (view s) \<Longrightarrow> m s = (r, s') \<Longrightarrow> conforms (view s') \<and> evolves (view s) (view s'))
     \<Longrightarrow> keeps conform_kept view m"
  by (auto simp: conform_kept_def intro: keepsI)

lemma registered_conforms:
  assumes "conforms d" and "user_added hasher inp d d' u"
  shows "conforms d' \<and> evolves d d'"
proof -
  from assms(2) obtain m where d': "d' = d\<lparr>db_users := db_users d @ [m]\<rparr>" and ok: "db_ok d'"
    and m: "userToDomain m = u\<lparr>pending := [], usr_createdAt := um_CreatedAt m\<rparr>" "Role_Valid (usr_role u)"
    by (auto simp: user_added_def)
  have "um_Role m = usr_role u"
    using arg_cong [OF m(1), of usr_role] by (simp add: userToDomain_def ReconstituteUser_def)
  with assms(1) ok m(2) show ?thesis
    by (simp add: d' conforms_def evolves_def order_conforms_def payment_conforms_def grown_append grown_refl)
qed

lemma renamed_conforms:
  assumes "conforms d" and "d' = d\<lparr>db_users := map (\<lambda>x. if um_ID x = i then renamed_row name x else x) (db_users d)\<rparr>"
  shows "conforms d' \<and> evolves d d'"
proof -
  have "keys_ok userSchema (map (\<lambda>x. if um_ID x = i then renamed_row name x else x) rows) = keys_ok userSchema rows" for rows
    by (rule keys_ok_map) (auto simp: userSchema_def renamed_row_def)
  with assms(1) have "conforms d'"
    by (auto simp: assms(2) conforms_def db_ok_def order_conforms_def payment_conforms_def renamed_row_def)
  moreover have "grown user_evolves (db_users d) (db_users d')"
    unfolding assms(2) by (auto simp: user_evolves_def renamed_row_def intro!: grown_map)
  ultimately show ?thesis by (simp add: assms(2) evolves_def grown_refl)
qed

lemma product_added_conforms:
  assumes "conforms d" and "product_added inp d d' p" and "db_ok d'"
  shows "conforms d' \<and> evolves d d'"
proof -
  from assms(2) obtain m i where
    d': "d' = d\<lparr>db_products := db_products d @ [m], db_inventories := db_inventories d @ [i]\<rparr>"
      "pm_ID m = im_ProductID i"
    by (auto simp: product_added_def)
  with assms(1,3) show ?thesis
    by (auto simp: conforms_def evolves_def order_conforms_def payment_conforms_def intro: grown_append grown_refl)
qed

lemma product_revised_conforms:
  assumes "conforms d" and "product_revised i inp d d' p"
  shows "conforms d' \<and> evolves d d'"
proof -
  let ?f = "\<lambda>x. if pm_ID x = i then revised_row inp x else x"
  have d': "d' = d\<lparr>db_products := map ?f (db_products d)\<rparr>" using assms(2) by (simp add: product_revised_def)
  have f: "pm_ID (?f x) = pm_ID x" "pm_SKU (?f x) = pm_SKU x" for x by (simp_all add: revised_row_def)
  have "keys_ok productSchema (map ?f rows) = keys_ok productSchema rows" for rows
    by (rule keys_ok_map) (auto simp: productSchema_def revised_row_def)
  moreover have rows: "db_products d' = map ?f (db_products d)" by (simp add: d')
  have "pm_ID ` set (db_products d') = pm_ID ` set (db_products d)"
    unfolding rows by (rule column_map) (simp add: revised_row_def)
  ultimately have "conforms d'"
    using assms(1) by (simp add: d' conforms_def db_ok_def order_conforms_def payment_conforms_def)
  moreover have "grown product_evolves (db_products d) (db_products d')"
    unfolding d' by (simp, rule grown_map) (simp add: product_evolves_def f)
  ultimately show ?thesis by (simp add: d' evolves_def grown_refl)
qed

lemma conform_commands:
  assumes "app_ok A view"
  shows "commands_keep conform_kept view A" and "status_keeps conform_kept view A"
proof -
  note w = app_wired [OF assms]
  have "keeps conform_kept (tables view) (oh_place (orderHandler A) inp)" for inp
    using place_conforms [OF w(1)] by (intro conform_keepsI) (simp add: orderHandler_def)
  moreover have "keeps conform_kept (tables view) (oh_cancel (orderHandler A) inp)" for inp
    using cancel_conforms [OF w(2)] by (intro conform_keepsI) (simp add: orderHandler_def)
  moreover have "keeps conform_kept view (RegisterUser_Handle (unitOfWork_Do (app_gorm A, app_txRegister A)) (app_hasher A) inp)" for inp
  proof (rule conform_keepsI)
    fix s r s' assume s: "conforms (view s)" and run:
      "RegisterUser_Handle (unitOfWork_Do (app_gorm A, app_txRegister A)) (app_hasher A) inp s = (r, s')"
    have db: "db_ok (view s)" using s by (simp add: conforms_def)
    from w(3) run db show "conforms (view s') \<and> evolves (view s) (view s')"
      by (cases rule: registering.Register_cases) (use s registered_conforms in auto)
  qed
  moreover have "keeps conform_kept view (UpdateUser_Handle (unitOfWork_Do (app_gorm A, app_txProfile A)) i name)" for i name
  proof (rule conform_keepsI)
    fix s r s' assume s: "conforms (view s)" and run:
      "UpdateUser_Handle (unitOfWork_Do (app_gorm A, app_txProfile A)) i name s = (r, s')"
    have db: "db_ok (view s)" using s by (simp add: conforms_def)
    from w(4) run db show "conforms (view s') \<and> evolves (view s) (view s')"
      by (cases rule: profile.Profile_cases) (use s renamed_conforms in auto)
  qed
  moreover have "keeps conform_kept view (CreateProduct_Handle (unitOfWork_Do (app_gorm A, app_txCreate A)) now inp)" for now inp
  proof (rule conform_keepsI)
    fix s r s' assume s: "conforms (view s)" and run:
      "CreateProduct_Handle (unitOfWork_Do (app_gorm A, app_txCreate A)) now inp s = (r, s')"
    have db: "db_ok (view s)" using s by (simp add: conforms_def)
    from w(5) run db show "conforms (view s') \<and> evolves (view s) (view s')"
      by (cases rule: creating.Create_cases) (use s product_added_conforms in auto)
  qed
  moreover have "keeps conform_kept view (UpdateProduct_Handle (unitOfWork_Do (app_gorm A, app_txRevise A)) i inp)" for i inp
  proof (rule conform_keepsI)
    fix s r s' assume s: "conforms (view s)" and run:
      "UpdateProduct_Handle (unitOfWork_Do (app_gorm A, app_txRevise A)) i inp s = (r, s')"
    have db: "db_ok (view s)" using s by (simp add: conforms_def)
    from w(6) run db show "conforms (view s') \<and> evolves (view s) (view s')"
      by (cases rule: revising.Revise_cases) (use s product_revised_conforms in auto)
  qed
  ultimately show "commands_keep conform_kept view A" by (simp add: commands_keep_def)
  show "status_keeps conform_kept view A"
    using status_conforms [OF w(7)] by (auto simp: status_keeps_def intro!: conform_keepsI)
qed

text \<open>Every history of requests, of any kind.\<close>

lemma conform_run:
  assumes "\<forall>(A, b, path, c) \<in> set reqs. app_ok A view" and "conforms (tables view w)"
  shows "conforms (tables view (snd (serve_run L reqs (t, w)))) \<and>
    evolves (tables view w) (tables view (snd (serve_run L reqs (t, w))))"
proof -
  have "\<forall>(A, b, path, c) \<in> set reqs. gorm_ok (app_gorm A) view \<and> commands_keep conform_kept view A \<and>
      (route_of (c_Method c) path = Some AdminStatus \<longrightarrow> status_keeps conform_kept view A)"
    using assms(1) conform_commands by (fastforce simp: app_ok_def)
  from types.serve_run_keeps [OF this, of "(t, w)" L] assms(2) show ?thesis by (simp add: conform_kept_def)
qed

end
