(* ===== verification/Conform_Props.thy ===== *)
theory Conform_Props
  imports Conform Web_Props
begin

text \<open>
  What holds of the tables after any history of requests, whoever sends them.
\<close>

text \<open>C5: whatever requests the service serves one at a time, the administrator's included, in any
  order and however each ends, the tables keep their types: keys are unique, every user has one of the two roles,
  every order one of the six statuses, every payment is settled, item quantities are positive,
  and every item, payment and stock record refers to a product or an order that exists. The
  schema declares no foreign keys and its columns admit any text, so this is the code's doing.\<close>

theorem service_conforms:
  assumes "\<forall>(A, b, path, c) \<in> set reqs. app_ok A view" and "conforms (tables view w)"
    and "serve_run L reqs (t, w) = (t', w')"
  shows "conforms (tables view w')"
  using conform_run [OF assms(1,2), of L t] assms(3) by simp

text \<open>C4: no history of requests served one at a time deletes a user, a product, an order or a
  payment, or takes away what they are: a user keeps e-mail, password and role, a product its SKU,
  an order its owner, key, items and total, a payment its order, amount and reference. The status
  of an order has moved along the state machine of the domain only, that of a payment from succeeded
  to refunded at most. (Of concurrent requests this is not true: a cancellation that read the order
  before its settlement overwrites the status, see Races.)\<close>

theorem service_evolves:
  assumes "\<forall>(A, b, path, c) \<in> set reqs. app_ok A view" and "conforms (tables view w)"
    and "serve_run L reqs (t, w) = (t', w')"
  shows "evolves (tables view w) (tables view w')"
  using conform_run [OF assms(1,2), of L t] assms(3) by simp

section \<open>Witnesses\<close>

lemma demo_db2_conforms: "conforms demo_db2"
  using demo_db2_ok
  by (simp add: conforms_def demo_db2_def demo_db_def demo_row_def demo_product_def demo_stock_def
      order_conforms_def order_statuses_def)

text \<open>An attempt to set order 1 to a status there is not, and a registration that asks for the role root.\<close>

definition demo_history :: "(DB, nat) Request list" where
  "demo_history =
     [(demo_app, demo_binding, [''admin'', ''orders'', ''1'', ''status''],
        demo_request ''PUT'' ''nine'' ''''\<lparr>c_Body := ''lost''\<rparr>),
      (demo_app, demo_binding, [''auth'', ''register''], demo_request ''POST'' '''' ''''\<lparr>c_Body := ''root''\<rparr>)]"

lemma demo_history_ok: "\<forall>(A, b, path, c) \<in> set demo_history. app_ok A id"
  by (simp add: demo_history_def demo_app_ok)

theorem service_conforms_witness:
  "list_all (\<lambda>u. um_Role u = ''customer'' \<or> um_Role u = ''admin'')
     (db_users (w_store (snd (serve_run no_limits demo_history (NewRateTable 0, demo_world demo_db2)))))"
proof -
  have c: "conforms (tables id (demo_world demo_db2))" by (simp add: demo_world_def demo_db2_conforms)
  obtain t w where run: "serve_run no_limits demo_history (NewRateTable 0, demo_world demo_db2) = (t, w)" by force
  from service_conforms [OF demo_history_ok c run] run show ?thesis
    by (simp add: conforms_def list_all_iff Role_Valid_def RoleCustomer_def RoleAdmin_def)
qed

theorem service_evolves_witness:
  "\<exists>m \<in> set (db_orders (w_store (snd (serve_run no_limits demo_history (NewRateTable 0, demo_world demo_db2))))).
     om_ID m = 1 \<and> om_UserID m = 3 \<and> om_TotalAmount m = 500 \<and> om_Status m = StatusFulfilled"
proof -
  have c: "conforms (tables id (demo_world demo_db2))" by (simp add: demo_world_def demo_db2_conforms)
  obtain t w where run: "serve_run no_limits demo_history (NewRateTable 0, demo_world demo_db2) = (t, w)" by force
  from service_evolves [OF demo_history_ok c run] run obtain m where
    m: "m \<in> set (db_orders (w_store w))" "order_evolves demo_row m"
    by (auto simp: evolves_def grown_def demo_world_def demo_db2_def)
  then have "order_edge\<^sup>*\<^sup>* StatusFulfilled (om_Status m)" by (simp add: order_evolves_def demo_row_def)
  then have "om_Status m = StatusFulfilled"
    by (rule converse_rtranclpE) (auto simp: order_edge_iff)
  with m run show ?thesis by (intro bexI [of _ m]) (simp_all add: order_evolves_def demo_row_def)
qed

end
