(* ===== verification/Rabbit.thy ===== *)
theory Rabbit
  imports DomainEvents Settings
begin

text \<open>
  internal/infrastructure/messaging/rabbitmq.go and its use in internal/bootstrap/bootstrap.go: the
  optional publication of the events to a broker. The client library amqp091-go is a parameter: a
  record of its calls over the state \<open>'s\<close> of the client and the broker; connections and channels
  are numbers.
\<close>

record Publishing =
  pub_ContentType :: string
  pub_DeliveryMode :: nat
  pub_Body :: string

record 's Amqp =
  amqp_Dial :: "string \<Rightarrow> ('s, nat) prog"
  amqp_Channel :: "nat \<Rightarrow> ('s, nat) prog"
  amqp_ExchangeDeclare :: "nat \<Rightarrow> string \<Rightarrow> ('s, unit) prog"
  amqp_QueueDeclare :: "nat \<Rightarrow> ('s, string) prog"
  amqp_QueueBind :: "nat \<Rightarrow> string \<Rightarrow> string \<Rightarrow> string \<Rightarrow> ('s, unit) prog"
  amqp_Publish :: "nat \<Rightarrow> string \<Rightarrow> string \<Rightarrow> Publishing \<Rightarrow> ('s, unit) prog"
  amqp_Consume :: "nat \<Rightarrow> string \<Rightarrow> ('s, unit) prog"
  amqp_CloseChannel :: "nat \<Rightarrow> ('s, unit) prog"
  amqp_CloseConn :: "nat \<Rightarrow> ('s, unit) prog"

text \<open>\<open>_ = m()\<close>, and \<open>if err != nil { cleanup(); return nil, err }\<close>.\<close>

definition ignored :: "('s, 'a) prog \<Rightarrow> ('s, unit) prog" where
  "ignored m s = (case m s of (Panic p, s') \<Rightarrow> (Panic p, s') | (_, s') \<Rightarrow> (Ok (), s'))"

definition onError :: "('s, 'a) prog \<Rightarrow> ('s, unit) prog \<Rightarrow> ('s, 'a) prog" where
  "onError m cleanup s = (case m s of (Err e, s') \<Rightarrow> check cleanup (\<lambda>_. fail e) s' | res \<Rightarrow> res)"

section \<open>The publisher\<close>

record RabbitPublisher =
  rbp_conn :: nat
  rbp_channel :: nat
  rbp_exchange :: string

definition closeBoth :: "'s Amqp \<Rightarrow> nat \<Rightarrow> nat \<Rightarrow> ('s, unit) prog" where
  "closeBoth lib channel conn = check (ignored (amqp_CloseChannel lib channel)) (\<lambda>_. ignored (amqp_CloseConn lib conn))"

definition NewRabbitPublisher :: "'s Amqp \<Rightarrow> string \<Rightarrow> string \<Rightarrow> ('s, RabbitPublisher) prog" where
  "NewRabbitPublisher lib url exchange =
     check (amqp_Dial lib url) (\<lambda>conn.
     check (onError (amqp_Channel lib conn) (ignored (amqp_CloseConn lib conn))) (\<lambda>channel.
     check (onError (amqp_ExchangeDeclare lib channel exchange) (closeBoth lib channel conn)) (\<lambda>_.
     return \<lparr>rbp_conn = conn, rbp_channel = channel, rbp_exchange = exchange\<rparr>)))"

text \<open>\<open>json.Marshal\<close> of the envelope; the event names have no character that JSON escapes.\<close>

definition rabbitEnvelope :: "Event \<Rightarrow> string" where
  "rabbitEnvelope e = ''{'' @ [CHR 0x22] @ ''name'' @ [CHR 0x22] @ '':'' @ [CHR 0x22] @ EventName e @ [CHR 0x22]
     @ '','' @ [CHR 0x22] @ ''aggregate_id'' @ [CHR 0x22] @ '':'' @ dec (unat (AggregateID e)) @ ''}''"

definition rabbitMessage :: "Event \<Rightarrow> Publishing" where
  "rabbitMessage e = \<lparr>pub_ContentType = ''application/json'', pub_DeliveryMode = 2, pub_Body = rabbitEnvelope e\<rparr>"

fun Rabbit_Publish :: "'s Amqp \<Rightarrow> RabbitPublisher \<Rightarrow> Event list \<Rightarrow> ('s, unit) prog" where
  "Rabbit_Publish lib p [] = return ()"
| "Rabbit_Publish lib p (e # es) =
     check (amqp_Publish lib (rbp_channel p) (rbp_exchange p) (EventName e) (rabbitMessage e)) (\<lambda>_.
     Rabbit_Publish lib p es)"

definition Rabbit_Close :: "'s Amqp \<Rightarrow> RabbitPublisher \<Rightarrow> ('s, unit) prog" where
  "Rabbit_Close lib p = check (ignored (amqp_CloseChannel lib (rbp_channel p))) (\<lambda>_. amqp_CloseConn lib (rbp_conn p))"

section \<open>The consumer\<close>

record RabbitConsumer =
  rbc_conn :: nat
  rbc_channel :: nat
  rbc_exchange :: string
  rbc_queue :: string

definition NewRabbitConsumer :: "'s Amqp \<Rightarrow> string \<Rightarrow> string \<Rightarrow> ('s, RabbitConsumer) prog" where
  "NewRabbitConsumer lib url exchange =
     check (amqp_Dial lib url) (\<lambda>conn.
     check (onError (amqp_Channel lib conn) (ignored (amqp_CloseConn lib conn))) (\<lambda>channel.
     check (onError (amqp_ExchangeDeclare lib channel exchange) (closeBoth lib channel conn)) (\<lambda>_.
     check (onError (amqp_QueueDeclare lib channel) (closeBoth lib channel conn)) (\<lambda>queue.
     check (onError (amqp_QueueBind lib channel queue ''#'' exchange) (closeBoth lib channel conn)) (\<lambda>_.
     return \<lparr>rbc_conn = conn, rbc_channel = channel, rbc_exchange = exchange, rbc_queue = queue\<rparr>)))))"

definition Consumer_Start :: "'s Amqp \<Rightarrow> RabbitConsumer \<Rightarrow> ('s, unit) prog" where
  "Consumer_Start lib c = amqp_Consume lib (rbc_channel c) (rbc_queue c)"

text \<open>
  The goroutine of the consumer: what it finds ready, one after the other, and the names and ids it
  logs. \<open>decode\<close> is \<open>json.Unmarshal\<close> on an envelope; a message that is no envelope is skipped.
\<close>

datatype arrival = ContextDone | StopClosed | Delivery string | DeliveriesClosed

fun consume :: "(string \<Rightarrow> (string \<times> uint64) option) \<Rightarrow> arrival list \<Rightarrow> (string \<times> uint64) list" where
  "consume decode [] = []"
| "consume decode (Delivery body # as) =
     (case decode body of Some env \<Rightarrow> env # consume decode as | None \<Rightarrow> consume decode as)"
| "consume decode (_ # as) = []"

definition Consumer_Stop :: "'s Amqp \<Rightarrow> RabbitConsumer \<Rightarrow> ('s, unit) prog" where
  "Consumer_Stop lib c = closeBoth lib (rbc_channel c) (rbc_conn c)"

section \<open>The composite bus\<close>

type_synonym 's EventPublisher = "Event list \<Rightarrow> ('s, unit) prog"

record ('s, 'h) lifecycleBus =
  lb_Publish :: "'s EventPublisher"
  lb_Subscribe :: "'h \<Rightarrow> 's \<Rightarrow> 's"
  lb_Start :: "'s \<Rightarrow> 's"
  lb_Stop :: "'s \<Rightarrow> 's"

definition noopLifecycle :: "'s EventPublisher \<Rightarrow> ('h \<Rightarrow> 's \<Rightarrow> 's) \<Rightarrow> ('s, 'h) lifecycleBus" where
  "noopLifecycle pub sub = \<lparr>lb_Publish = pub, lb_Subscribe = sub, lb_Start = (\<lambda>s. s), lb_Stop = (\<lambda>s. s)\<rparr>"

record ('s, 'b, 'h) CompositeBus =
  cb_primary :: "('s, 'h) lifecycleBus"
  cb_alsoPublish :: "'b EventPublisher"

definition NewCompositeBus :: "('s, 'h) lifecycleBus \<Rightarrow> 'b EventPublisher \<Rightarrow> ('s, 'b, 'h) CompositeBus" where
  "NewCompositeBus primary alsoPublish = \<lparr>cb_primary = primary, cb_alsoPublish = alsoPublish\<rparr>"

text \<open>The broker's error is logged and dropped.\<close>

definition Composite_Publish :: "('s, 'b, 'h) CompositeBus \<Rightarrow> ('s \<times> 'b) EventPublisher" where
  "Composite_Publish c events = (\<lambda>(s, b).
     case lb_Publish (cb_primary c) events s of
       (Panic p, s') \<Rightarrow> (Panic p, (s', b))
     | (err, s') \<Rightarrow> (case cb_alsoPublish c events b of
           (Panic p, b') \<Rightarrow> (Panic p, (s', b'))
         | (_, b') \<Rightarrow> (err, (s', b'))))"

definition Composite_Subscribe :: "('s, 'b, 'h) CompositeBus \<Rightarrow> 'h \<Rightarrow> 's \<Rightarrow> 's" where
  "Composite_Subscribe c h = lb_Subscribe (cb_primary c) h"

definition Composite_Start :: "('s, 'b, 'h) CompositeBus \<Rightarrow> 's \<Rightarrow> 's" where
  "Composite_Start c = lb_Start (cb_primary c)"

definition Composite_Stop :: "('s, 'b, 'h) CompositeBus \<Rightarrow> 's \<Rightarrow> 's" where
  "Composite_Stop c = lb_Stop (cb_primary c)"

section \<open>The broker at start-up and shut-down\<close>

record Brokers =
  bk_publisher :: "RabbitPublisher option"
  bk_consumer :: "RabbitConsumer option"

text \<open>A step whose error is logged, and the two ways to go on.\<close>

definition attempt :: "('s, 'a) prog \<Rightarrow> ('a \<Rightarrow> ('s, 'b) prog) \<Rightarrow> ('s, 'b) prog \<Rightarrow> ('s, 'b) prog" where
  "attempt m f g s = (case m s of (Ok a, s') \<Rightarrow> f a s' | (Err e, s') \<Rightarrow> g s' | (Panic p, s') \<Rightarrow> (Panic p, s'))"

definition connectBroker :: "'s Amqp \<Rightarrow> RabbitMQSettings \<Rightarrow> ('s, Brokers) prog" where
  "connectBroker lib cfg =
     (if \<not> rmq_Enabled cfg then return \<lparr>bk_publisher = None, bk_consumer = None\<rparr>
      else attempt (NewRabbitPublisher lib (RabbitMQ_URL cfg) (rmq_Exchange cfg))
        (\<lambda>publisher. attempt (NewRabbitConsumer lib (RabbitMQ_URL cfg) (rmq_Exchange cfg))
          (\<lambda>consumer. attempt (Consumer_Start lib consumer)
            (\<lambda>_. return \<lparr>bk_publisher = Some publisher, bk_consumer = Some consumer\<rparr>)
            (check (Consumer_Stop lib consumer) (\<lambda>_.
              return \<lparr>bk_publisher = Some publisher, bk_consumer = None\<rparr>)))
          (return \<lparr>bk_publisher = Some publisher, bk_consumer = None\<rparr>))
        (return \<lparr>bk_publisher = None, bk_consumer = None\<rparr>))"

definition disconnectBroker :: "'s Amqp \<Rightarrow> Brokers \<Rightarrow> ('s, unit) prog" where
  "disconnectBroker lib bk =
     check (case bk_consumer bk of Some c \<Rightarrow> Consumer_Stop lib c | None \<Rightarrow> return ()) (\<lambda>_.
     case bk_publisher bk of Some p \<Rightarrow> ignored (Rabbit_Close lib p) | None \<Rightarrow> return ())"

text \<open>The bus the use cases publish to: the in-process bus, with the broker beside it if there is one.\<close>

definition servicePublish :: "'s Amqp \<Rightarrow> Brokers \<Rightarrow> ('p, 'h) lifecycleBus \<Rightarrow> ('p \<times> 's) EventPublisher" where
  "servicePublish lib bk inproc = (case bk_publisher bk of
      None \<Rightarrow> (\<lambda>events (s, b). case lb_Publish inproc events s of (r, s') \<Rightarrow> (r, (s', b)))
    | Some publisher \<Rightarrow> Composite_Publish (NewCompositeBus inproc (Rabbit_Publish lib publisher)))"

section \<open>The contract of the client library\<close>

text \<open>
  \<open>conns\<close> are the open connections, \<open>sent\<close> what was handed to the exchange, with its routing key. A
  call returns or fails, it does not panic; only \<open>Dial\<close> opens a connection and \<open>Close\<close> closes its
  own, whatever it returns; a failed publication sends nothing.
\<close>

definition keeps_conns :: "('s \<Rightarrow> nat set) \<Rightarrow> ('s \<Rightarrow> (string \<times> Publishing) list) \<Rightarrow> ('s, 'a) prog \<Rightarrow> bool" where
  "keeps_conns conns sent m \<longleftrightarrow> (\<forall>s r s'. m s = (r, s') \<longrightarrow>
     (\<forall>p. r \<noteq> Panic p) \<and> conns s' = conns s \<and> sent s' = sent s)"

definition amqp_ok :: "'s Amqp \<Rightarrow> ('s \<Rightarrow> nat set) \<Rightarrow> ('s \<Rightarrow> (string \<times> Publishing) list) \<Rightarrow> bool" where
  "amqp_ok lib conns sent \<longleftrightarrow>
     (\<forall>url s r s'. amqp_Dial lib url s = (r, s') \<longrightarrow> sent s' = sent s \<and> (case r of
        Ok c \<Rightarrow> c \<notin> conns s \<and> conns s' = insert c (conns s) | Err e \<Rightarrow> conns s' = conns s | Panic p \<Rightarrow> False)) \<and>
     (\<forall>c s r s'. amqp_CloseConn lib c s = (r, s') \<longrightarrow>
        sent s' = sent s \<and> conns s' = conns s - {c} \<and> (\<forall>p. r \<noteq> Panic p)) \<and>
     (\<forall>c ex key msg s r s'. amqp_Publish lib c ex key msg s = (r, s') \<longrightarrow> conns s' = conns s \<and> (case r of
        Ok _ \<Rightarrow> sent s' = sent s @ [(key, msg)] | Err e \<Rightarrow> sent s' = sent s | Panic p \<Rightarrow> False)) \<and>
     (\<forall>c. keeps_conns conns sent (amqp_Channel lib c)) \<and>
     (\<forall>c ex. keeps_conns conns sent (amqp_ExchangeDeclare lib c ex)) \<and>
     (\<forall>c. keeps_conns conns sent (amqp_QueueDeclare lib c)) \<and>
     (\<forall>c q k ex. keeps_conns conns sent (amqp_QueueBind lib c q k ex)) \<and>
     (\<forall>c q. keeps_conns conns sent (amqp_Consume lib c q)) \<and>
     (\<forall>c. keeps_conns conns sent (amqp_CloseChannel lib c))"

lemma amqp_okD:
  assumes "amqp_ok lib conns sent"
  shows "amqp_Dial lib url s = (dialled, s') \<Longrightarrow> sent s' = sent s \<and> (case dialled of
      Ok c \<Rightarrow> c \<notin> conns s \<and> conns s' = insert c (conns s) | Err e \<Rightarrow> conns s' = conns s | Panic p \<Rightarrow> False)"
    and "amqp_CloseConn lib c s = (r, s') \<Longrightarrow> sent s' = sent s \<and> conns s' = conns s - {c} \<and> (\<forall>p. r \<noteq> Panic p)"
    and "amqp_Publish lib c ex key msg s = (r, s') \<Longrightarrow> conns s' = conns s \<and> (case r of
      Ok _ \<Rightarrow> sent s' = sent s @ [(key, msg)] | Err e \<Rightarrow> sent s' = sent s | Panic p \<Rightarrow> False)"
    and "keeps_conns conns sent (amqp_Channel lib c)" and "keeps_conns conns sent (amqp_ExchangeDeclare lib c ex)"
    and "keeps_conns conns sent (amqp_QueueDeclare lib c)" and "keeps_conns conns sent (amqp_QueueBind lib c q k ex)"
    and "keeps_conns conns sent (amqp_Consume lib c q)" and "keeps_conns conns sent (amqp_CloseChannel lib c)"
proof -
  note dial = assms [unfolded amqp_ok_def, THEN conjunct1]
    and rest = assms [unfolded amqp_ok_def, THEN conjunct2]
  note close = rest [THEN conjunct1] and rest = rest [THEN conjunct2]
  note publish = rest [THEN conjunct1] and keep = rest [THEN conjunct2]
  show "amqp_Dial lib url s = (dialled, s') \<Longrightarrow> sent s' = sent s \<and> (case dialled of
      Ok c \<Rightarrow> c \<notin> conns s \<and> conns s' = insert c (conns s) | Err e \<Rightarrow> conns s' = conns s | Panic p \<Rightarrow> False)"
    by (rule dial [rule_format])
  show "amqp_CloseConn lib c s = (r, s') \<Longrightarrow> sent s' = sent s \<and> conns s' = conns s - {c} \<and> (\<forall>p. r \<noteq> Panic p)"
    by (rule close [rule_format])
  show "amqp_Publish lib c ex key msg s = (r, s') \<Longrightarrow> conns s' = conns s \<and> (case r of
      Ok _ \<Rightarrow> sent s' = sent s @ [(key, msg)] | Err e \<Rightarrow> sent s' = sent s | Panic p \<Rightarrow> False)"
    by (rule publish [rule_format])
qed (use assms in \<open>simp_all add: amqp_ok_def\<close>)

section \<open>Connections are closed\<close>

text \<open>A program that has the connection open, and closes it when it fails; and one that closes it.\<close>

definition holding :: "('s \<Rightarrow> nat set) \<Rightarrow> ('s \<Rightarrow> (string \<times> Publishing) list) \<Rightarrow> nat \<Rightarrow> ('s, 'a) prog \<Rightarrow> bool" where
  "holding conns sent conn m \<longleftrightarrow> (\<forall>s r s'. m s = (r, s') \<longrightarrow> sent s' = sent s \<and> (case r of
     Ok _ \<Rightarrow> conns s' = conns s | Err _ \<Rightarrow> conns s' = conns s - {conn} | Panic _ \<Rightarrow> False))"

definition closing :: "('s \<Rightarrow> nat set) \<Rightarrow> ('s \<Rightarrow> (string \<times> Publishing) list) \<Rightarrow> nat \<Rightarrow> ('s, unit) prog \<Rightarrow> bool" where
  "closing conns sent conn m \<longleftrightarrow> (\<forall>s r s'. m s = (r, s') \<longrightarrow>
     r = Ok () \<and> sent s' = sent s \<and> conns s' = conns s - {conn})"

named_theorems broker_rules \<open>rules on what programs do to the connections\<close>

lemma closing_ignored [broker_rules]:
  "amqp_ok lib conns sent \<Longrightarrow> closing conns sent conn (ignored (amqp_CloseConn lib conn))"
  using amqp_okD(2) [of lib conns sent conn]
  by (fastforce simp: closing_def ignored_def split: prod.splits outcome.splits)

lemma keeps_then_closing:
  assumes "keeps_conns conns sent m" and "closing conns sent conn n"
  shows "closing conns sent conn (check (ignored m) (\<lambda>_. n))"
  unfolding closing_def
proof (intro allI impI)
  fix s r s' assume run: "check (ignored m) (\<lambda>_. n) s = (r, s')"
  obtain r1 s1 where m: "m s = (r1, s1)" by force
  with assms(1) have s1: "conns s1 = conns s" "sent s1 = sent s" and "\<forall>p. r1 \<noteq> Panic p"
    by (auto simp: keeps_conns_def)
  then have "ignored m s = (Ok (), s1)" using m by (cases r1) (auto simp: ignored_def)
  with run have "n s1 = (r, s')" by simp
  with assms(2) s1 show "r = Ok () \<and> sent s' = sent s \<and> conns s' = conns s - {conn}"
    by (auto simp: closing_def)
qed

lemma closing_both [broker_rules]:
  "amqp_ok lib conns sent \<Longrightarrow> closing conns sent conn (closeBoth lib channel conn)"
  unfolding closeBoth_def by (intro keeps_then_closing closing_ignored amqp_okD(9))

lemma holding_onError [broker_rules]:
  assumes "keeps_conns conns sent m" and "closing conns sent conn n"
  shows "holding conns sent conn (onError m n)"
  unfolding holding_def
proof (intro allI impI)
  fix s r s' assume run: "onError m n s = (r, s')"
  obtain r1 s1 where m: "m s = (r1, s1)" by force
  with assms(1) have s1: "conns s1 = conns s" "sent s1 = sent s" "\<forall>p. r1 \<noteq> Panic p"
    by (auto simp: keeps_conns_def)
  obtain r2 s2 where n: "n s1 = (r2, s2)" by force
  with assms(2) s1 have "r2 = Ok ()" "sent s2 = sent s" "conns s2 = conns s - {conn}"
    by (auto simp: closing_def)
  with run m n s1 show "sent s' = sent s \<and> (case r of Ok _ \<Rightarrow> conns s' = conns s
      | Err _ \<Rightarrow> conns s' = conns s - {conn} | Panic _ \<Rightarrow> False)"
    by (cases r1) (auto simp: onError_def)
qed

lemma holding_return [broker_rules]: "holding conns sent conn (return a)"
  by (simp add: holding_def)

lemma holding_check [broker_rules]:
  assumes "holding conns sent conn m" and "\<And>a. holding conns sent conn (f a)"
  shows "holding conns sent conn (check m f)"
  unfolding holding_def
proof (intro allI impI)
  fix s r s' assume run: "check m f s = (r, s')"
  obtain r1 s1 where m: "m s = (r1, s1)" by force
  note h = assms(1) [unfolded holding_def, rule_format, OF m]
  show "sent s' = sent s \<and> (case r of Ok _ \<Rightarrow> conns s' = conns s
      | Err _ \<Rightarrow> conns s' = conns s - {conn} | Panic _ \<Rightarrow> False)"
  proof (cases r1)
    case (Ok a)
    with run m have "f a s1 = (r, s')" by simp
    from assms(2) [unfolded holding_def, rule_format, OF this] h Ok show ?thesis by (cases r) auto
  next
    case (Err e)
    with run m have "r = Err e" "s' = s1" by simp_all
    with h Err show ?thesis by simp
  next
    case (Panic p)
    with h show ?thesis by simp
  qed
qed

text \<open>What a program leaves open is what its result owns.\<close>

definition opens :: "('s \<Rightarrow> nat set) \<Rightarrow> ('s \<Rightarrow> (string \<times> Publishing) list) \<Rightarrow> ('a \<Rightarrow> nat) \<Rightarrow> ('s, 'a) prog \<Rightarrow> bool" where
  "opens conns sent own m \<longleftrightarrow> (\<forall>s r s'. m s = (r, s') \<longrightarrow> sent s' = sent s \<and> (case r of
     Ok a \<Rightarrow> own a \<notin> conns s \<and> conns s' = insert (own a) (conns s) | Err _ \<Rightarrow> conns s' = conns s | Panic _ \<Rightarrow> False))"

lemma dial_opens:
  assumes "amqp_ok lib conns sent" and "\<And>c. holding conns sent c (f c)"
    and "\<And>c s a s'. f c s = (Ok a, s') \<Longrightarrow> own a = c"
  shows "opens conns sent own (check (amqp_Dial lib url) f)"
  unfolding opens_def
proof (intro allI impI)
  fix s r s' assume run: "check (amqp_Dial lib url) f s = (r, s')"
  obtain r1 s1 where d: "amqp_Dial lib url s = (r1, s1)" by force
  note dial = amqp_okD(1) [OF assms(1) d]
  show "sent s' = sent s \<and> (case r of Ok a \<Rightarrow> own a \<notin> conns s \<and> conns s' = insert (own a) (conns s)
      | Err _ \<Rightarrow> conns s' = conns s | Panic _ \<Rightarrow> False)"
  proof (cases r1)
    case (Ok c)
    with run d have f: "f c s1 = (r, s')" by simp
    note h = assms(2) [unfolded holding_def, rule_format, OF f]
    from dial Ok have c: "c \<notin> conns s" "conns s1 = insert c (conns s)" "sent s1 = sent s" by simp_all
    show ?thesis
    proof (cases r)
      case (Ok a)
      with assms(3) [of c s1 a s'] f have "own a = c" by simp
      with Ok h c show ?thesis by simp
    qed (use h c in simp_all)
  next
    case (Err e)
    with run d have "r = Err e" "s' = s1" by simp_all
    with dial Err show ?thesis by simp
  next
    case (Panic p)
    with dial show ?thesis by simp
  qed
qed

lemma publisher_opens:
  assumes "amqp_ok lib conns sent"
  shows "opens conns sent rbp_conn (NewRabbitPublisher lib url exchange)"
  unfolding NewRabbitPublisher_def
proof (rule dial_opens [OF assms])
  note lib = amqp_okD(4,5) [OF assms]
  show "holding conns sent c (check (onError (amqp_Channel lib c) (ignored (amqp_CloseConn lib c))) (\<lambda>channel.
      check (onError (amqp_ExchangeDeclare lib channel exchange) (closeBoth lib channel c)) (\<lambda>_.
      return \<lparr>rbp_conn = c, rbp_channel = channel, rbp_exchange = exchange\<rparr>)))" for c
    by (intro broker_rules lib assms)
qed (elim check_OkD, auto)

lemma consumer_opens:
  assumes "amqp_ok lib conns sent"
  shows "opens conns sent rbc_conn (NewRabbitConsumer lib url exchange)"
  unfolding NewRabbitConsumer_def
proof (rule dial_opens [OF assms])
  note lib = amqp_okD(4,5,6,7) [OF assms]
  show "holding conns sent c (check (onError (amqp_Channel lib c) (ignored (amqp_CloseConn lib c))) (\<lambda>channel.
      check (onError (amqp_ExchangeDeclare lib channel exchange) (closeBoth lib channel c)) (\<lambda>_.
      check (onError (amqp_QueueDeclare lib channel) (closeBoth lib channel c)) (\<lambda>queue.
      check (onError (amqp_QueueBind lib channel queue ''#'' exchange) (closeBoth lib channel c)) (\<lambda>_.
      return \<lparr>rbc_conn = c, rbc_channel = channel, rbc_exchange = exchange, rbc_queue = queue\<rparr>)))))" for c
    by (intro broker_rules lib assms)
qed (elim check_OkD, auto)

section \<open>Start-up, shut-down, publication\<close>

definition owned :: "Brokers \<Rightarrow> nat set" where
  "owned bk = (case bk_publisher bk of Some p \<Rightarrow> {rbp_conn p} | None \<Rightarrow> {}) \<union>
     (case bk_consumer bk of Some c \<Rightarrow> {rbc_conn c} | None \<Rightarrow> {})"

lemma opens_cases:
  assumes "opens conns sent own m" and "m s = (r, s')"
  obtains (opened) a where "r = Ok a" "own a \<notin> conns s" "conns s' = insert (own a) (conns s)" "sent s' = sent s"
    | (refused) e where "r = Err e" "conns s' = conns s" "sent s' = sent s"
  using assms(1) [unfolded opens_def, rule_format, OF assms(2)] by (cases r) auto

lemma connected:
  assumes "amqp_ok lib conns sent" and "connectBroker lib cfg b = (r, b')"
  obtains bk where "r = Ok bk" "conns b' = conns b \<union> owned bk" "conns b \<inter> owned bk = {}" "sent b' = sent b"
    "\<not> rmq_Enabled cfg \<Longrightarrow> bk_publisher bk = None" "bk_publisher bk = None \<Longrightarrow> bk_consumer bk = None"
proof (cases "rmq_Enabled cfg")
  case False
  with assms(2) have "r = Ok \<lparr>bk_publisher = None, bk_consumer = None\<rparr>" "b' = b"
    by (simp_all add: connectBroker_def)
  with that [of "\<lparr>bk_publisher = None, bk_consumer = None\<rparr>"] show ?thesis by (simp add: owned_def)
next
  case enabled: True
  obtain pr b1 where pub: "NewRabbitPublisher lib (RabbitMQ_URL cfg) (rmq_Exchange cfg) b = (pr, b1)" by force
  from publisher_opens [OF assms(1)] pub show ?thesis
  proof (cases rule: opens_cases)
    case p: (opened p)
    obtain cr b2 where con: "NewRabbitConsumer lib (RabbitMQ_URL cfg) (rmq_Exchange cfg) b1 = (cr, b2)" by force
    from consumer_opens [OF assms(1)] con show ?thesis
    proof (cases rule: opens_cases)
      case c: (opened c)
      obtain sr b3 where st: "Consumer_Start lib c b2 = (sr, b3)" by force
      with amqp_okD(8) [OF assms(1), of "rbc_channel c" "rbc_queue c"] have
        b3: "conns b3 = conns b2" "sent b3 = sent b2" "\<forall>q. sr \<noteq> Panic q"
        by (auto simp: Consumer_Start_def keeps_conns_def)
      show ?thesis
      proof (cases "is_Ok sr")
        case started: True
        with enabled assms(2) pub p con c st have "r = Ok \<lparr>bk_publisher = Some p, bk_consumer = Some c\<rparr>" "b' = b3"
          by (auto simp: connectBroker_def attempt_def is_Ok_iff)
        with p c b3 enabled that show ?thesis by (auto simp: owned_def)
      next
        case False
        obtain e where e: "sr = Err e" using False b3(3) by (cases sr) auto
        obtain b4 where stop: "Consumer_Stop lib c b3 = (Ok (), b4)" "sent b4 = sent b3"
          "conns b4 = conns b3 - {rbc_conn c}"
          using closing_both [OF assms(1), of "rbc_conn c" "rbc_channel c"]
          by (metis Consumer_Stop_def closing_def prod.collapse)
        with enabled assms(2) pub p con c st e have "r = Ok \<lparr>bk_publisher = Some p, bk_consumer = None\<rparr>" "b' = b4"
          by (auto simp: connectBroker_def attempt_def)
        with p c b3 stop enabled that show ?thesis by (auto simp: owned_def)
      qed
    next
      case (refused e)
      with enabled assms(2) pub p con have "r = Ok \<lparr>bk_publisher = Some p, bk_consumer = None\<rparr>" "b' = b2"
        by (auto simp: connectBroker_def attempt_def)
      with p refused enabled that show ?thesis by (auto simp: owned_def)
    qed
  next
    case (refused e)
    with enabled assms(2) pub have "r = Ok \<lparr>bk_publisher = None, bk_consumer = None\<rparr>" "b' = b1"
      by (auto simp: connectBroker_def attempt_def)
    with refused enabled that show ?thesis by (auto simp: owned_def)
  qed
qed

lemma disconnected:
  assumes "amqp_ok lib conns sent" and "disconnectBroker lib bk b = (r, b')"
  shows "r = Ok () \<and> conns b' = conns b - owned bk \<and> sent b' = sent b"
proof -
  let ?stop = "case bk_consumer bk of Some c \<Rightarrow> Consumer_Stop lib c | None \<Rightarrow> return ()"
  obtain r1 b1 where st: "?stop b = (r1, b1)" by force
  then have b1: "r1 = Ok () \<and> sent b1 = sent b \<and>
      conns b1 = conns b - (case bk_consumer bk of Some c \<Rightarrow> {rbc_conn c} | None \<Rightarrow> {})"
    using closing_both [OF assms(1)]
    by (auto simp: Consumer_Stop_def closing_def split: option.splits)
  with assms(2) st have run: "(case bk_publisher bk of Some p \<Rightarrow> ignored (Rabbit_Close lib p) | None \<Rightarrow> return ()) b1 = (r, b')"
    by (simp add: disconnectBroker_def)
  show ?thesis
  proof (cases "bk_publisher bk")
    case None
    with run b1 show ?thesis by (auto simp: owned_def)
  next
    case (Some p)
    let ?close = "check (ignored (amqp_CloseChannel lib (rbp_channel p))) (\<lambda>_. ignored (amqp_CloseConn lib (rbp_conn p)))"
    have "ignored (Rabbit_Close lib p) s = ?close s" for s
      by (auto simp: Rabbit_Close_def ignored_def check_def split: prod.splits outcome.splits)
    with run Some have "?close b1 = (r, b')" by simp
    moreover have "closing conns sent (rbp_conn p) ?close"
      using closing_both [OF assms(1)] by (simp add: closeBoth_def)
    ultimately have "r = Ok () \<and> sent b' = sent b1 \<and> conns b' = conns b1 - {rbp_conn p}"
      by (simp add: closing_def)
    with b1 Some show ?thesis by (auto simp: owned_def)
  qed
qed

lemma broker_published:
  assumes "amqp_ok lib conns sent" and "Rabbit_Publish lib p es b = (r, b')"
  shows "conns b' = conns b \<and> (\<forall>q. r \<noteq> Panic q) \<and> (\<exists>n \<le> length es.
     sent b' = sent b @ map (\<lambda>e. (EventName e, rabbitMessage e)) (take n es) \<and> (is_Ok r \<longrightarrow> n = length es))"
  using assms(2)
proof (induction es arbitrary: b)
  case Nil
  then show ?case by auto
next
  case (Cons e es)
  obtain r1 b1 where one: "amqp_Publish lib (rbp_channel p) (rbp_exchange p) (EventName e) (rabbitMessage e) b = (r1, b1)"
    by force
  note lib = amqp_okD(3) [OF assms(1) one]
  show ?case
  proof (cases r1)
    case (Ok u)
    with Cons.prems one have "Rabbit_Publish lib p es b1 = (r, b')" by simp
    from Cons.IH [OF this] lib Ok obtain n where "n \<le> length es" "conns b' = conns b" "\<forall>q. r \<noteq> Panic q"
      "sent b' = sent b @ map (\<lambda>e. (EventName e, rabbitMessage e)) (take (Suc n) (e # es))" "is_Ok r \<longrightarrow> n = length es"
      by auto
    then show ?thesis by (intro conjI exI [of _ "Suc n"]) auto
  next
    case (Err e')
    with Cons.prems one have "r = Err e'" "b' = b1" by simp_all
    with lib Err show ?thesis by (intro conjI exI [of _ 0]) auto
  next
    case (Panic q)
    with lib show ?thesis by simp
  qed
qed

text \<open>C39: the broker is optional. Whatever it does at start-up, the service starts, and holds no other
  connection than those of the publisher and the consumer it kept - none if the broker is not
  enabled - which shut-down closes. Publishing answers what the in-process bus answers, on the same
  state, whether the broker takes the events or not; the broker gets a beginning of the events, in
  their order, each under its name with its name and aggregate.\<close>

theorem broker_optional:
  assumes "amqp_ok lib conns sent" and "connectBroker lib cfg b = (r, b1)"
  shows "\<exists>bk. r = Ok bk \<and> conns b1 = conns b \<union> owned bk \<and> conns b \<inter> owned bk = {} \<and> sent b1 = sent b \<and>
    (\<not> rmq_Enabled cfg \<longrightarrow> owned bk = {}) \<and>
    (\<forall>(inproc :: ('p, 'h) lifecycleBus) events s b2 answer s' b3.
       servicePublish lib bk inproc events (s, b2) = (answer, (s', b3)) \<longrightarrow>
       lb_Publish inproc events s = (answer, s') \<and> conns b3 = conns b2 \<and> (\<exists>n \<le> length events.
         sent b3 = sent b2 @ map (\<lambda>e. (EventName e, rabbitMessage e)) (take n events))) \<and>
    (\<forall>b2 r2 b3. disconnectBroker lib bk b2 = (r2, b3) \<longrightarrow>
       r2 = Ok () \<and> conns b3 = conns b2 - owned bk \<and> sent b3 = sent b2)"
proof -
  from connected [OF assms] obtain bk where
    bk: "r = Ok bk" "conns b1 = conns b \<union> owned bk" "conns b \<inter> owned bk = {}" "sent b1 = sent b"
      "\<not> rmq_Enabled cfg \<Longrightarrow> bk_publisher bk = None" "bk_publisher bk = None \<Longrightarrow> bk_consumer bk = None" by blast
  have published: "lb_Publish inproc events s = (answer, s') \<and> conns b3 = conns b2 \<and> (\<exists>n \<le> length events.
      sent b3 = sent b2 @ map (\<lambda>e. (EventName e, rabbitMessage e)) (take n events))"
    if run: "servicePublish lib bk inproc events (s, b2) = (answer, (s', b3))"
    for inproc :: "('p, 'h) lifecycleBus" and events s b2 answer s' b3
  proof (cases "bk_publisher bk")
    case None
    with run show ?thesis by (auto simp: servicePublish_def intro!: exI [of _ 0] split: prod.splits)
  next
    case (Some p)
    obtain r1 s1 where prim: "lb_Publish inproc events s = (r1, s1)" by force
    obtain r2 b4 where also_pub: "Rabbit_Publish lib p events b2 = (r2, b4)" by force
    note sent = broker_published [OF assms(1) also_pub]
    show ?thesis
    proof (cases "\<exists>q. r1 = Panic q")
      case True
      with run Some prim show ?thesis
        by (auto simp: servicePublish_def Composite_Publish_def NewCompositeBus_def intro!: exI [of _ 0])
    next
      case False
      with run Some prim also_pub sent have "answer = r1" "s' = s1" "b3 = b4"
        by (auto simp: servicePublish_def Composite_Publish_def NewCompositeBus_def split: outcome.splits)
      with prim sent show ?thesis by auto
    qed
  qed
  show ?thesis
    using bk published disconnected [OF assms(1), of bk]
    by (intro exI [of _ bk]) (auto simp: owned_def)
qed

text \<open>A broker that accepts one connection, numbered by the calls so far, and then no more.\<close>

record DemoBroker =
  dm_conns :: "nat set"
  dm_sent :: "(string \<times> Publishing) list"

definition demo_amqp :: "DemoBroker Amqp" where
  "demo_amqp = \<lparr>
     amqp_Dial = (\<lambda>url s. if dm_conns s = {} then (Ok 7, s\<lparr>dm_conns := {7}\<rparr>) else (Err (Plain ''connection refused''), s)),
     amqp_Channel = (\<lambda>c. return 1), amqp_ExchangeDeclare = (\<lambda>c ex. return ()),
     amqp_QueueDeclare = (\<lambda>c. return ''amq.gen''), amqp_QueueBind = (\<lambda>c q k ex. return ()),
     amqp_Publish = (\<lambda>c ex key msg s. if length (dm_sent s) < 1 then (Ok (), s\<lparr>dm_sent := dm_sent s @ [(key, msg)]\<rparr>)
        else (Err (Plain ''channel closed''), s)),
     amqp_Consume = (\<lambda>c q. return ()), amqp_CloseChannel = (\<lambda>c. return ()),
     amqp_CloseConn = (\<lambda>c s. (Ok (), s\<lparr>dm_conns := dm_conns s - {c}\<rparr>))\<rparr>"

lemma demo_amqp_ok: "amqp_ok demo_amqp dm_conns dm_sent"
  by (auto simp: amqp_ok_def demo_amqp_def keeps_conns_def split: if_splits)

definition demo_rabbit :: RabbitMQSettings where
  "demo_rabbit = \<lparr>rmq_Enabled = True, rmq_Host = ''rabbitmq'', rmq_Port = 5672, rmq_User = ''guest'',
     rmq_Password = ''guest'', rmq_VHost = ''/'', rmq_Exchange = ''orders.events''\<rparr>"

lemma demo_connect:
  "\<exists>bk. connectBroker demo_amqp demo_rabbit \<lparr>dm_conns = {}, dm_sent = []\<rparr> = (Ok bk, \<lparr>dm_conns = {7}, dm_sent = []\<rparr>)"
  by (simp add: connectBroker_def demo_rabbit_def attempt_def NewRabbitPublisher_def NewRabbitConsumer_def
      demo_amqp_def onError_def check_def)

theorem broker_optional_witness:
  "\<exists>bk. connectBroker demo_amqp demo_rabbit \<lparr>dm_conns = {}, dm_sent = []\<rparr> = (Ok bk, \<lparr>dm_conns = {7}, dm_sent = []\<rparr>) \<and>
     owned bk = {7} \<and> dm_conns (snd (disconnectBroker demo_amqp bk \<lparr>dm_conns = {7}, dm_sent = []\<rparr>)) = {}"
proof -
  let ?b = "\<lparr>dm_conns = {7 :: nat}, dm_sent = []\<rparr>"
  obtain bk where run: "connectBroker demo_amqp demo_rabbit \<lparr>dm_conns = {}, dm_sent = []\<rparr> = (Ok bk, ?b)"
    using demo_connect by blast
  obtain r2 b3 where stop: "disconnectBroker demo_amqp bk ?b = (r2, b3)" by force
  from broker_optional [OF demo_amqp_ok run] stop show ?thesis using run by auto
qed

end
