(* ===== verification/Startup.thy ===== *)
theory Startup
  imports Rabbit Http
begin

text \<open>
  The process: opening the database (persistence/gormrepo/db.go, migrate.go), the construction and the
  shut-down of the application (bootstrap.go), the HTTP server (platform/server/server.go), the main
  program (cmd/server/main.go) and the health endpoints (handler/health.go). The database library,
  the network and the signals are parameters.
\<close>

section \<open>The database\<close>

text \<open>The library: connecting, the handle of the pool of connections, its limits, ping, migration.\<close>

record ('s, 'd, 'q) DBLib =
  dbl_Open :: "string \<Rightarrow> ('s, 'd) prog"
  dbl_DB :: "'d \<Rightarrow> ('s, 'q) prog"
  dbl_SetLimits :: "'q \<Rightarrow> goint \<Rightarrow> goint \<Rightarrow> duration \<Rightarrow> duration \<Rightarrow> 's \<Rightarrow> 's"
  dbl_Ping :: "'q \<Rightarrow> ('s, unit) prog"
  dbl_AutoMigrate :: "'d \<Rightarrow> ('s, unit) prog"
  dbl_Close :: "'q \<Rightarrow> ('s, unit) prog"

text \<open>\<open>fmt.Errorf("text: %w", err)\<close>.\<close>

definition errorf :: "string \<Rightarrow> goerror \<Rightarrow> goerror" where
  "errorf prefix err = Wrapped (prefix @ ErrorText err) err"

definition wrapErr :: "string \<Rightarrow> ('s, 'a) prog \<Rightarrow> ('s, 'a) prog" where
  "wrapErr prefix m s = (case m s of (Err e, s') \<Rightarrow> (Err (errorf prefix e), s') | res \<Rightarrow> res)"

text \<open>With no attempt made \<open>lastErr\<close> is nil, which \<open>%w\<close> prints as below.\<close>

definition unreachable :: "goint \<Rightarrow> goerror option \<Rightarrow> goerror" where
  "unreachable retries lastErr =
     (let prefix = ''database unreachable after '' @ dec_int (sint retries) @ '' attempts: ''
      in case lastErr of Some e \<Rightarrow> errorf prefix e | None \<Rightarrow> Plain (prefix @ ''%!w(<nil>)''))"

text \<open>The loop, on the attempts left; the state carries the time slept between them.\<close>

fun waitLoop :: "('s, unit) prog \<Rightarrow> duration \<Rightarrow> goint \<Rightarrow> nat \<Rightarrow> goerror option \<Rightarrow> ('s \<times> duration list, unit) prog" where
  "waitLoop ping backoff retries 0 lastErr = fail (unreachable retries lastErr)"
| "waitLoop ping backoff retries (Suc n) lastErr = (\<lambda>(s, slept). case ping s of
      (Ok _, s') \<Rightarrow> (Ok (), (s', slept))
    | (Err e, s') \<Rightarrow> waitLoop ping backoff retries n (Some e) (s', slept @ [backoff])
    | (Panic p, s') \<Rightarrow> (Panic p, (s', slept)))"

definition waitForDB :: "('s, unit) prog \<Rightarrow> DBSettings \<Rightarrow> ('s \<times> duration list, unit) prog" where
  "waitForDB ping cfg = waitLoop ping (dbs_ConnectBackoff cfg) (dbs_ConnectRetries cfg)
     (nat (sint (dbs_ConnectRetries cfg))) None"

definition onFirst :: "('s, 'a) prog \<Rightarrow> ('s \<times> 't, 'a) prog" where
  "onFirst m = (\<lambda>(s, t). case m s of (r, s') \<Rightarrow> (r, (s', t)))"

definition DB_Open :: "('s, 'd, 'q) DBLib \<Rightarrow> DBSettings \<Rightarrow> ('s \<times> duration list, 'd) prog" where
  "DB_Open lib cfg =
     check (onFirst (wrapErr ''open gorm: '' (dbl_Open lib (DB_DSN cfg)))) (\<lambda>db.
     check (onFirst (wrapErr ''resolve sql db: '' (dbl_DB lib db))) (\<lambda>sqlDB.
     check (onFirst (\<lambda>s. (Ok (), dbl_SetLimits lib sqlDB (dbs_MaxOpenConns cfg) (dbs_MaxIdleConns cfg)
       (dbs_ConnMaxLifetime cfg) (dbs_ConnMaxIdleTime cfg) s))) (\<lambda>_.
     check (waitForDB (dbl_Ping lib sqlDB) cfg) (\<lambda>_.
     return db))))"

definition AutoMigrate :: "('s, 'd, 'q) DBLib \<Rightarrow> 'd \<Rightarrow> ('s \<times> duration list, unit) prog" where
  "AutoMigrate lib db = onFirst (dbl_AutoMigrate lib db)"

section \<open>The application\<close>

text \<open>
  \<open>bootstrap.New\<close>: the database, then the optional broker; what it builds besides cannot fail. The
  state is that of the database library with the sleeps, and of the broker's.
\<close>

definition onSecond :: "('t, 'a) prog \<Rightarrow> ('s \<times> 't, 'a) prog" where
  "onSecond m = (\<lambda>(s, t). case m t of (r, t') \<Rightarrow> (r, (s, t')))"

definition bootstrap_New :: "('s, 'd, 'q) DBLib \<Rightarrow> 'b Amqp \<Rightarrow> Config
    \<Rightarrow> (('s \<times> duration list) \<times> 'b, 'd \<times> Brokers) prog" where
  "bootstrap_New lib amqp cfg =
     check (onFirst (DB_Open lib (cfg_DB cfg))) (\<lambda>db.
     check (onFirst (AutoMigrate lib db)) (\<lambda>_.
     check (onSecond (connectBroker amqp (cfg_RabbitMQ cfg))) (\<lambda>bk.
     return (db, bk))))"

text \<open>\<open>App.Stop\<close>: the parts in the order they are stopped, the broker and the database last.\<close>

datatype Part = OrderPool | InProcessEvents | NotificationDispatcher | WebsocketHub

definition stop_order :: "Part list" where
  "stop_order = [OrderPool, InProcessEvents, NotificationDispatcher, WebsocketHub]"

primrec stopParts :: "(Part \<Rightarrow> ('p, unit) prog) \<Rightarrow> Part list \<Rightarrow> ('p, unit) prog" where
  "stopParts stop [] = return ()"
| "stopParts stop (part # parts) = check (stop part) (\<lambda>_. stopParts stop parts)"

definition App_Stop :: "('s, 'd, 'q) DBLib \<Rightarrow> 'b Amqp \<Rightarrow> (Part \<Rightarrow> ('p, unit) prog) \<Rightarrow> 'd \<times> Brokers
    \<Rightarrow> ('p \<times> ('s \<times> duration list) \<times> 'b, unit) prog" where
  "App_Stop lib amqp stop app =
     check (onFirst (stopParts stop stop_order)) (\<lambda>_.
     check (onSecond (onSecond (disconnectBroker amqp (snd app)))) (\<lambda>_.
     onSecond (onFirst (onFirst (\<lambda>s. case dbl_DB lib (fst app) s of
         (Ok sqlDB, s') \<Rightarrow> ignored (dbl_Close lib sqlDB) s'
       | (Err _, s') \<Rightarrow> (Ok (), s')
       | (Panic p, s') \<Rightarrow> (Panic p, s'))))))"

section \<open>The server and the main program\<close>

text \<open>What \<open>Server.Run\<close> waits for: the listener fails, or a signal asks to stop.\<close>

datatype server_event = ListenerFailed goerror | ShutdownSignal

definition Server_Run :: "('s, unit) prog \<Rightarrow> server_event \<Rightarrow> ('s, unit) prog" where
  "Server_Run shutdown ev = (case ev of ListenerFailed err \<Rightarrow> fail err | ShutdownSignal \<Rightarrow> shutdown)"

text \<open>\<open>defer app.Stop()\<close>: it runs when the server has returned or panicked.\<close>

definition deferred :: "('s, 'a) prog \<Rightarrow> ('s, unit) prog \<Rightarrow> ('s, 'a) prog" where
  "deferred m later s = (case m s of (r, s') \<Rightarrow> (case later s' of
      (Panic p, s'') \<Rightarrow> (Panic p, s'')
    | (_, s'') \<Rightarrow> (r, s'')))"

definition server_run :: "Std \<Rightarrow> Env \<Rightarrow> (Config \<Rightarrow> ('s, 'a) prog) \<Rightarrow> ('a \<Rightarrow> ('s, unit) prog)
    \<Rightarrow> (Config \<Rightarrow> ('s, unit) prog) \<Rightarrow> server_event \<Rightarrow> ('s, unit) prog" where
  "server_run std env new stop shutdown ev =
     (case LoadConfig std env of
        (_, Some err) \<Rightarrow> fail err
      | (cfg, None) \<Rightarrow> check (new cfg) (\<lambda>app. deferred (Server_Run (shutdown cfg) ev) (stop app)))"

text \<open>The exit code of \<open>healthcheck\<close>; \<open>get\<close> is the HTTP client, with the status it got.\<close>

definition healthcheck :: "Env \<Rightarrow> (string \<Rightarrow> nat outcome) \<Rightarrow> int" where
  "healthcheck env get =
     (let port = (case env ''HTTP_PORT'' of Some v \<Rightarrow> if v = '''' then ''8080'' else v | None \<Rightarrow> ''8080'')
      in case get (''http://127.0.0.1:'' @ port @ ''/health'') of Ok status \<Rightarrow> if status = 200 then 0 else 1 | _ \<Rightarrow> 1)"

text \<open>The exit code of \<open>main\<close>, given its arguments.\<close>

definition server_main :: "string list \<Rightarrow> int \<Rightarrow> 'a outcome \<Rightarrow> int" where
  "server_main args health result =
     (if 1 < length args \<and> args ! 1 = ''healthcheck'' then health
      else (case result of Ok _ \<Rightarrow> 0 | Err _ \<Rightarrow> 1 | Panic _ \<Rightarrow> 2))"

section \<open>The health endpoints\<close>

type_synonym HealthAnswer = "nat \<times> (string \<times> string) list"

definition Health_Live :: "string \<Rightarrow> HealthAnswer" where
  "Health_Live version = (200, [(''status'', ''ok''), (''version'', version)])"

definition Health_Ready :: "('s, 'd, 'q) DBLib \<Rightarrow> 'd option \<Rightarrow> ('s, HealthAnswer) prog" where
  "Health_Ready lib db s = (case db of
      None \<Rightarrow> (Ok (503, [(''status'', ''unavailable''), (''reason'', ''database not configured'')]), s)
    | Some d \<Rightarrow> (case dbl_DB lib d s of
        (Panic p, s') \<Rightarrow> (Panic p, s')
      | (Err _, s') \<Rightarrow> (Ok (503, [(''status'', ''unavailable''), (''reason'', ''database handle error'')]), s')
      | (Ok sqlDB, s') \<Rightarrow> (case dbl_Ping lib sqlDB s' of
          (Panic p, s'') \<Rightarrow> (Panic p, s'')
        | (Err _, s'') \<Rightarrow> (Ok (503, [(''status'', ''unavailable''), (''reason'', ''database unreachable'')]), s'')
        | (Ok _, s'') \<Rightarrow> (Ok (200, [(''status'', ''ready'')]), s''))))"

section \<open>Waiting for the database\<close>

text \<open>The answers of \<open>n\<close> pings in a row, up to the first that is not an error.\<close>

fun pings :: "('s, unit) prog \<Rightarrow> nat \<Rightarrow> 's \<Rightarrow> unit outcome list \<times> 's" where
  "pings ping 0 s = ([], s)"
| "pings ping (Suc n) s = (case ping s of
      (Err e, s') \<Rightarrow> (case pings ping n s' of (rs, s'') \<Rightarrow> (Err e # rs, s''))
    | (r, s') \<Rightarrow> ([r], s'))"

definition last_error :: "unit outcome list \<Rightarrow> goerror option \<Rightarrow> goerror option" where
  "last_error rs lastErr = (if rs = [] then lastErr else case last rs of Err e \<Rightarrow> Some e | _ \<Rightarrow> None)"

lemma waitLoop_pings:
  assumes "pings ping n s = (rs, s')"
  shows "waitLoop ping backoff retries n lastErr (s, slept) =
     (case (if rs = [] then None else Some (last rs)) of
        Some (Ok _) \<Rightarrow> (Ok (), (s', slept @ replicate (length rs - 1) backoff))
      | Some (Panic p) \<Rightarrow> (Panic p, (s', slept @ replicate (length rs - 1) backoff))
      | _ \<Rightarrow> (Err (unreachable retries (last_error rs lastErr)), (s', slept @ replicate (length rs) backoff)))"
  using assms
proof (induction n arbitrary: s rs lastErr slept)
  case 0
  then show ?case by (simp add: last_error_def)
next
  case (Suc n)
  obtain r1 s1 where one: "ping s = (r1, s1)" by force
  show ?case
  proof (cases r1)
    case (Err e)
    obtain rs1 s2 where rest: "pings ping n s1 = (rs1, s2)" by force
    with Suc.prems one Err have rs: "rs = Err e # rs1" "s' = s2" by auto
    from Suc.IH [of s1 rs1, OF rest [folded rs(2)]] one Err rs show ?thesis
      by (cases rs1) (auto simp: last_error_def replicate_app_Cons_same split: outcome.split)
  qed (use Suc.prems one in auto)
qed

lemma length_pings: "pings ping n s = (rs, s') \<Longrightarrow> length rs \<le> n"
  by (induction n arbitrary: s rs) (auto split: prod.splits outcome.splits)

end
