(* ===== verification/Observed.thy ===== *)
theory Observed
  imports Web_Props
begin

text \<open>
  The engine with the middleware that observes it: \<open>Logger\<close> and \<open>Metrics\<close> of
  internal/interfaces/http/middleware/middleware.go, with the collectors of
  internal/infrastructure/observability/metrics.go they move. Latencies are left out.
\<close>

record LogLine =
  ll_Error :: bool
  ll_RequestID :: string
  ll_Method :: string
  ll_Path :: string
  ll_Status :: nat
  ll_ClientIP :: string

record Obs =
  HTTPInFlight :: int
  HTTPRequests :: "(string \<times> string \<times> string) list"
  HTTPDuration :: "(string \<times> string) list"
  http_log :: "LogLine list"

definition NewMetrics :: Obs where
  "NewMetrics = \<lparr>HTTPInFlight = 0, HTTPRequests = [], HTTPDuration = [], http_log = []\<rparr>"

text \<open>What a middleware does after \<open>c.Next()\<close> it does not do when the chain panics: neither defers it.\<close>

definition Logger :: "string \<Rightarrow> (Headers \<times> Obs \<times> 's) HandlerFunc \<Rightarrow> (Headers \<times> Obs \<times> 's) HandlerFunc" where
  "Logger urlPath next_handler c s = (case next_handler c s of
      (Ok resp, (wr, ob, s')) \<Rightarrow> (Ok resp, (wr, ob\<lparr>http_log := http_log ob @
        [\<lparr>ll_Error = (500 \<le> rs_Status resp), ll_RequestID = RequestIDFrom c, ll_Method = c_Method c,
          ll_Path = urlPath, ll_Status = rs_Status resp, ll_ClientIP = c_ClientIP c\<rparr>]\<rparr>, s'))
    | res \<Rightarrow> res)"

definition Metrics :: "string \<Rightarrow> (Headers \<times> Obs \<times> 's) HandlerFunc \<Rightarrow> (Headers \<times> Obs \<times> 's) HandlerFunc" where
  "Metrics fullPath next_handler c = (\<lambda>(wr, ob, s).
     case next_handler c (wr, ob\<lparr>HTTPInFlight := HTTPInFlight ob + 1\<rparr>, s) of
       (Ok resp, (wr', ob', s')) \<Rightarrow>
         (let path = (if fullPath = '''' then ''unmatched'' else fullPath)
          in (Ok resp, (wr', ob'\<lparr>HTTPInFlight := HTTPInFlight ob' - 1,
            HTTPRequests := HTTPRequests ob' @ [(c_Method c, path, dec (rs_Status resp))],
            HTTPDuration := HTTPDuration ob' @ [(c_Method c, path)]\<rparr>, s')))
     | res \<Rightarrow> res)"

text \<open>\<open>c.FullPath()\<close>: the pattern of the route, or empty.\<close>

definition full_path :: "string \<Rightarrow> string list \<Rightarrow> string" where
  "full_path httpMethod path =
     (case find (\<lambda>(m, pattern, _). m = httpMethod \<and> matches pattern path) routes of
        Some (_, pattern, _) \<Rightarrow> ''/api/v1'' @ concat (map (\<lambda>seg. CHR ''/'' # seg) pattern)
      | None \<Rightarrow> '''')"

definition url_path :: "string list \<Rightarrow> string" where
  "url_path path = ''/api/v1'' @ concat (map (\<lambda>seg. CHR ''/'' # seg) path)"

definition belowObs :: "'s HandlerFunc \<Rightarrow> (Headers \<times> Obs \<times> 's) HandlerFunc" where
  "belowObs h c = (\<lambda>(wr, ob, s). case h c s of (r, s') \<Rightarrow> (r, (wr, ob, s')))"

text \<open>The global middleware in the order of \<open>engine.Use\<close>; a redirect comes before all of it.\<close>

definition observed_chain :: "('s, 'g) App \<Rightarrow> Binding \<Rightarrow> 'l Limits \<Rightarrow> string list
    \<Rightarrow> (Headers \<times> Obs \<times> 'l RateTable \<times> ('s, 'g) World) HandlerFunc" where
  "observed_chain A b L path c =
     RequestID (uuid_request b) (Recovery (Logger (url_path path) (Metrics (full_path (c_Method c) path) (CORS
       (case route_of (c_Method c) path of
          None \<Rightarrow> (\<lambda>_. return (answer 404 NoBody))
        | Some route \<Rightarrow> belowObs (limited L (app_now A)
            (guarded (app_verify A) (group_of route) (endpoint A b route))))))))
     (c\<lparr>c_Param := (\<lambda>k. if k = ''id'' then path_id (c_Method c) path else '''')\<rparr>)"

definition engine :: "('s, 'g) App \<Rightarrow> Binding \<Rightarrow> 'l Limits \<Rightarrow> string list
    \<Rightarrow> (Headers \<times> Obs \<times> 'l RateTable \<times> ('s, 'g) World) HandlerFunc" where
  "engine A b L path c =
     (if redirected b (c_Method c) path then redirect_slash b path c else observed_chain A b L path c)"

section \<open>Observation changes nothing\<close>

text \<open>The headers the outer middleware sets, and the answer from the middle of the chain.\<close>

definition response_headers :: "Binding \<Rightarrow> string list \<Rightarrow> Context \<Rightarrow> Headers \<Rightarrow> Headers" where
  "response_headers b path c wr =
     (case c_requestID (arrived b path c) of Some i \<Rightarrow> wr(''X-Request-ID'' \<mapsto> i) | None \<Rightarrow> wr)
       (''Access-Control-Allow-Origin'' \<mapsto> ''*'',
        ''Access-Control-Allow-Methods'' \<mapsto> ''GET,POST,PUT,PATCH,DELETE,OPTIONS'',
        ''Access-Control-Allow-Headers'' \<mapsto> ''Authorization,Content-Type,X-Request-ID,Idempotency-Key'')"

definition middle :: "('s, 'g) App \<Rightarrow> Binding \<Rightarrow> 'l Limits \<Rightarrow> string list \<Rightarrow> Context
    \<Rightarrow> ('l RateTable \<times> ('s, 'g) World, Response) prog" where
  "middle A b L path c = (if c_Method c = ''OPTIONS'' then return (answer 204 NoBody)
     else inner A b L path (arrived b path c))"

definition recovered :: Response where
  "recovered = answer 500 (ErrorBody \<lparr>ep_Code = ''internal_error'', ep_Message = ''internal server error''\<rparr>)"

lemma chain_middle:
  "chain A b L path c (wr, t, w) = (case middle A b L path c (t, w) of
      (Panic _, tw') \<Rightarrow> (Ok recovered, (response_headers b path c wr, tw'))
    | (r, tw') \<Rightarrow> (r, (response_headers b path c wr, tw')))"
  unfolding chain_unfold middle_def response_headers_def recovered_def
  by (auto simp: Let_def split: prod.splits outcome.splits)

lemma cors_middle:
  "CORS (case route_of (c_Method c) path of
       None \<Rightarrow> (\<lambda>_. return (answer 404 NoBody))
     | Some route \<Rightarrow> belowObs (limited L (app_now A) (guarded (app_verify A) (group_of route) (endpoint A b route))))
     (arrived b path c) (case c_requestID (arrived b path c) of Some i \<Rightarrow> wr(''X-Request-ID'' \<mapsto> i) | None \<Rightarrow> wr, ob, tw) =
   (case middle A b L path c tw of (r, tw') \<Rightarrow> (r, (response_headers b path c wr, ob, tw')))"
proof -
  have meth: "c_Method (arrived b path c) = c_Method c" by (simp add: arrived_def)
  show ?thesis
    by (cases "route_of (c_Method c) path"; cases tw)
      (simp_all add: CORS_def setHeader_def belowObs_def inner_def middle_def meth response_headers_def)
qed

text \<open>
  What becomes of a request: redirected before the middleware, answered by its chain, or the chain
  panics and \<open>Recovery\<close> answers; and what the client gets.
\<close>

datatype fate = Redirected | Answered Response | Panicked

definition fate_of :: "('s, 'g) App \<Rightarrow> Binding \<Rightarrow> 'l Limits \<Rightarrow> string list \<Rightarrow> Context
    \<Rightarrow> 'l RateTable \<times> ('s, 'g) World \<Rightarrow> fate \<times> 'l RateTable \<times> ('s, 'g) World" where
  "fate_of A b L path c tw = (if redirected b (c_Method c) path then (Redirected, tw)
     else (case middle A b L path c tw of
         (Ok resp, tw') \<Rightarrow> (Answered resp, tw')
       | (_, tw') \<Rightarrow> (Panicked, tw')))"

definition client_gets :: "Binding \<Rightarrow> string list \<Rightarrow> Context \<Rightarrow> Headers \<Rightarrow> fate \<Rightarrow> Response outcome \<times> Headers" where
  "client_gets b path c wr f = (case f of
      Redirected \<Rightarrow> (Ok (answer (if c_Method c = ''GET'' then 301 else 307) NoBody),
        wr(''Location'' \<mapsto> gin_location b c (other_slash path)))
    | Answered resp \<Rightarrow> (Ok resp, response_headers b path c wr)
    | Panicked \<Rightarrow> (Ok recovered, response_headers b path c wr))"

text \<open>The log lines and the labels a request leaves: one if its chain answered it.\<close>

definition log_lines :: "Binding \<Rightarrow> string list \<Rightarrow> Context \<Rightarrow> fate \<Rightarrow> LogLine list" where
  "log_lines b path c f = (case f of
      Answered resp \<Rightarrow> [\<lparr>ll_Error = (500 \<le> rs_Status resp),
        ll_RequestID = (if c_Header c ''X-Request-ID'' = '''' then uuid_request b else c_Header c ''X-Request-ID''),
        ll_Method = c_Method c, ll_Path = url_path path, ll_Status = rs_Status resp, ll_ClientIP = c_ClientIP c\<rparr>]
    | _ \<Rightarrow> [])"

definition label_of :: "string list \<Rightarrow> Context \<Rightarrow> string" where
  "label_of path c =
     (if route_of (c_Method c) path = None then ''unmatched'' else full_path (c_Method c) path)"

definition counts :: "string list \<Rightarrow> Context \<Rightarrow> fate \<Rightarrow> (string \<times> string \<times> string) list" where
  "counts path c f = (case f of
      Answered resp \<Rightarrow> [(c_Method c, label_of path c, dec (rs_Status resp))] | _ \<Rightarrow> [])"

definition durations :: "string list \<Rightarrow> Context \<Rightarrow> fate \<Rightarrow> (string \<times> string) list" where
  "durations path c f = (case f of Answered resp \<Rightarrow> [(c_Method c, label_of path c)] | _ \<Rightarrow> [])"

definition observe :: "Binding \<Rightarrow> string list \<Rightarrow> Context \<Rightarrow> fate \<Rightarrow> Obs \<Rightarrow> Obs" where
  "observe b path c f ob =
     \<lparr>HTTPInFlight = HTTPInFlight ob + (if f = Panicked then 1 else 0),
      HTTPRequests = HTTPRequests ob @ counts path c f,
      HTTPDuration = HTTPDuration ob @ durations path c f,
      http_log = http_log ob @ log_lines b path c f\<rparr>"

lemma full_path_label:
  "(if full_path (c_Method c) path = '''' then ''unmatched'' else full_path (c_Method c) path) = label_of path c"
  by (simp add: label_of_def full_path_def route_of_def split: option.splits prod.splits)

lemma observed_arrived:
  "observed_chain A b L path c (wr, ob, tw) =
     Recovery (Logger (url_path path) (Metrics (full_path (c_Method c) path) (CORS
       (case route_of (c_Method c) path of
          None \<Rightarrow> (\<lambda>_. return (answer 404 NoBody))
        | Some route \<Rightarrow> belowObs (limited L (app_now A)
            (guarded (app_verify A) (group_of route) (endpoint A b route))))))) (arrived b path c)
       (case c_requestID (arrived b path c) of Some i \<Rightarrow> wr(''X-Request-ID'' \<mapsto> i) | None \<Rightarrow> wr, ob, tw)"
  unfolding observed_chain_def RequestID_def setHeader_def Let_def arrived_def by simp

lemma middle_answers: "middle A b L path c tw \<noteq> (Err e, tw')"
  using inner_answers [of A b L path "arrived b path c" tw e]
  by (cases "c_Method c = ''OPTIONS''") (auto simp: middle_def)

text \<open>One request, without and with the observers.\<close>

lemma serve_fate:
  assumes "fate_of A b L path c tw = (f, tw')"
  shows "serve A b L path c (wr, tw) =
    (fst (client_gets b path c wr f), (snd (client_gets b path c wr f), tw'))"
proof (cases "redirected b (c_Method c) path")
  case True
  with assms show ?thesis by (auto simp: fate_of_def client_gets_def serve_outside(1))
next
  case False
  obtain t w where tw: "tw = (t, w)" by force
  obtain r tw1 where m: "middle A b L path c tw = (r, tw1)" by (metis surj_pair)
  then have "r \<noteq> Err e" for e using middle_answers [of A b L path c tw e tw1] by simp
  with False assms m show ?thesis
    by (cases r) (auto simp: fate_of_def client_gets_def serve_unfold chain_middle tw)
qed

lemma engine_fate:
  assumes "fate_of A b L path c tw = (f, tw')"
  shows "engine A b L path c (wr, ob, tw) =
    (fst (client_gets b path c wr f), (snd (client_gets b path c wr f), observe b path c f ob, tw'))"
proof (cases "redirected b (c_Method c) path")
  case True
  with assms show ?thesis
    by (auto simp: fate_of_def client_gets_def engine_def redirect_slash_def observe_def counts_def
        durations_def log_lines_def)
next
  case False
  obtain r tw1 where m: "middle A b L path c tw = (r, tw1)" by (metis surj_pair)
  then have no_err: "r \<noteq> Err e" for e using middle_answers [of A b L path c tw e tw1] by simp
  have from_c: "c_Method (arrived b path c) = c_Method c" "c_ClientIP (arrived b path c) = c_ClientIP c"
    "RequestIDFrom (arrived b path c) =
      (if c_Header c ''X-Request-ID'' = '''' then uuid_request b else c_Header c ''X-Request-ID'')"
    by (simp_all add: arrived_def RequestIDFrom_def)
  have "engine A b L path c (wr, ob, tw) = observed_chain A b L path c (wr, ob, tw)"
    using False by (simp add: engine_def)
  then show ?thesis
    unfolding observed_arrived Recovery_def Logger_def Metrics_def prod.case cors_middle m from_c full_path_label
    using assms False m no_err
    by (cases r) (auto simp: fate_of_def client_gets_def observe_def counts_def durations_def log_lines_def
        recovered_def Let_def)
qed

section \<open>Histories\<close>

fun engine_run :: "'l Limits \<Rightarrow> ('s, 'g) Request list \<Rightarrow> Obs \<times> 'l RateTable \<times> ('s, 'g) World
    \<Rightarrow> Obs \<times> 'l RateTable \<times> ('s, 'g) World" where
  "engine_run L [] otw = otw"
| "engine_run L ((A, b, path, c) # rest) otw =
     engine_run L rest (snd (snd (engine A b L path c (Map.empty, otw))))"

text \<open>What the clients get, with the observers and without.\<close>

fun engine_answers :: "'l Limits \<Rightarrow> ('s, 'g) Request list \<Rightarrow> Obs \<times> 'l RateTable \<times> ('s, 'g) World
    \<Rightarrow> (Response outcome \<times> Headers) list" where
  "engine_answers L [] otw = []"
| "engine_answers L ((A, b, path, c) # rest) otw =
     (case engine A b L path c (Map.empty, otw) of (r, (wr, otw')) \<Rightarrow> (r, wr) # engine_answers L rest otw')"

fun serve_answers :: "'l Limits \<Rightarrow> ('s, 'g) Request list \<Rightarrow> 'l RateTable \<times> ('s, 'g) World
    \<Rightarrow> (Response outcome \<times> Headers) list" where
  "serve_answers L [] tw = []"
| "serve_answers L ((A, b, path, c) # rest) tw =
     (case serve A b L path c (Map.empty, tw) of (r, (wr, tw')) \<Rightarrow> (r, wr) # serve_answers L rest tw')"

text \<open>The requests of a history with what becomes of each.\<close>

fun fates :: "'l Limits \<Rightarrow> ('s, 'g) Request list \<Rightarrow> 'l RateTable \<times> ('s, 'g) World
    \<Rightarrow> (Binding \<times> string list \<times> Context \<times> fate) list" where
  "fates L [] tw = []"
| "fates L ((A, b, path, c) # rest) tw =
     (case fate_of A b L path c tw of (f, tw') \<Rightarrow> (b, path, c, f) # fates L rest tw')"

definition panics :: "(Binding \<times> string list \<times> Context \<times> fate) list \<Rightarrow> nat" where
  "panics fs = length (filter (\<lambda>(b, path, c, f). f = Panicked) fs)"

lemma run_Cons:
  assumes "fate_of A b L path c tw = (f, tw')"
  shows "engine_run L ((A, b, path, c) # rest) (ob, tw) = engine_run L rest (observe b path c f ob, tw')"
    and "serve_run L ((A, b, path, c) # rest) tw = serve_run L rest tw'"
    and "engine_answers L ((A, b, path, c) # rest) (ob, tw) =
      client_gets b path c Map.empty f # engine_answers L rest (observe b path c f ob, tw')"
    and "serve_answers L ((A, b, path, c) # rest) tw =
      client_gets b path c Map.empty f # serve_answers L rest tw'"
    and "fates L ((A, b, path, c) # rest) tw = (b, path, c, f) # fates L rest tw'"
  by (simp_all add: engine_fate [OF assms] serve_fate [OF assms] assms)

text \<open>C40: observing the service does not change what it does: over any history the engine with
  the logger and the metrics gives every client the answer and the headers it gets without them, and
  leaves the tables and the limiters the same. Each request that its chain answers leaves exactly one
  log line, with its id, method, path, client and the status answered, and one count and one duration
  under its method and the pattern of its route (''unmatched'' without one); a redirected request
  leaves none, and neither does one whose chain panics, which stays in the gauge of requests in
  flight for ever: the gauge is the number of panics since the start, not of requests in flight.\<close>

theorem observed_requests:
  assumes "engine_run L reqs (ob, tw) = (ob', tw')" and "fates L reqs tw = fs"
  shows "tw' = serve_run L reqs tw \<and>
    engine_answers L reqs (ob, tw) = serve_answers L reqs tw \<and>
    serve_answers L reqs tw = map (\<lambda>(b, path, c, f). client_gets b path c Map.empty f) fs \<and>
    HTTPInFlight ob' = HTTPInFlight ob + int (panics fs) \<and>
    HTTPRequests ob' = HTTPRequests ob @ concat (map (\<lambda>(b, path, c, f). counts path c f) fs) \<and>
    HTTPDuration ob' = HTTPDuration ob @ concat (map (\<lambda>(b, path, c, f). durations path c f) fs) \<and>
    http_log ob' = http_log ob @ concat (map (\<lambda>(b, path, c, f). log_lines b path c f) fs)"
  using assms
proof (induction reqs arbitrary: ob tw fs)
  case Nil
  then show ?case by (simp add: panics_def)
next
  case (Cons req reqs)
  obtain A b path c where req: "req = (A, b, path, c)" by (metis prod_cases4)
  obtain f tw1 where one: "fate_of A b L path c tw = (f, tw1)" by (metis surj_pair)
  note steps = run_Cons [OF one]
  from Cons.prems(1) have "engine_run L reqs (observe b path c f ob, tw1) = (ob', tw')"
    by (simp add: req steps(1) del: engine_run.simps)
  note IH = Cons.IH [OF this refl]
  have fs: "fs = (b, path, c, f) # fates L reqs tw1"
    using Cons.prems(2) by (simp add: req steps(5) del: fates.simps)
  have "panics fs = panics (fates L reqs tw1) + (if f = Panicked then 1 else 0)"
    by (simp add: panics_def fs)
  with IH show ?case
    by (simp add: req steps(2-4) fs observe_def
        del: serve_run.simps engine_answers.simps serve_answers.simps)
qed

text \<open>
  A token verifier that panics: the gauge says one for ever, though nothing is counted; a path that
  is no route is counted as unmatched and logged, and one with a slash too many is neither.
\<close>

definition broken_app :: "(DB, nat) App" where
  "broken_app = demo_app\<lparr>app_verify := (\<lambda>_. Panic ''nil pointer'')\<rparr>"

definition broken_requests :: "(DB, nat) Request list" where
  "broken_requests = [
     (broken_app, demo_binding, [''orders''], demo_request ''POST'' ''three'' ''''),
     (broken_app, demo_binding, [''order''], demo_request ''GET'' ''three'' ''''),
     (broken_app, demo_binding, [''orders'', ''''], demo_request ''POST'' ''three'' '''')]"

lemma demo_fates:
  "fate_of broken_app demo_binding no_limits [''orders''] (demo_request ''POST'' ''three'' '''') tw = (Panicked, tw)"
  "fate_of broken_app demo_binding no_limits [''order''] (demo_request ''GET'' ''three'' '''') tw =
    (Answered (answer 404 NoBody), tw)"
  "fate_of broken_app demo_binding no_limits [''orders'', ''''] (demo_request ''POST'' ''three'' '''') tw = (Redirected, tw)"
proof -
  have meth: "c_Method (arrived demo_binding path (demo_request m ''three'' '''')) = m" for m path
    by (simp add: arrived_def demo_request_def)
  have route: "route_of ''POST'' [''orders''] = Some OrdersPlace" "route_of ''GET'' [''order''] = None"
    "\<not> redirected demo_binding ''GET'' [''order'']" "redirected demo_binding ''POST'' [''orders'', '''']"
    by (simp_all add: redirected_def other_slash_def route_eval demo_binding_def)
  have m: "c_Method (demo_request m ''three'' '''') = m" for m by (simp add: demo_request_def)
  show "fate_of broken_app demo_binding no_limits [''orders''] (demo_request ''POST'' ''three'' '''') tw = (Panicked, tw)"
    by (cases tw) (simp add: fate_of_def middle_def m meth route inner_unlimited guarded_def group_of_def
        Auth_def broken_app_def arrived_def demo_request_def EqualFold_def Let_def)
  show "fate_of broken_app demo_binding no_limits [''order''] (demo_request ''GET'' ''three'' '''') tw =
    (Answered (answer 404 NoBody), tw)"
    by (cases tw) (simp add: fate_of_def middle_def m meth route inner_def return_def)
  show "fate_of broken_app demo_binding no_limits [''orders'', ''''] (demo_request ''POST'' ''three'' '''') tw = (Redirected, tw)"
    by (simp add: fate_of_def m route)
qed

theorem observed_requests_witness:
  "\<exists>ob'. fst (engine_run no_limits broken_requests (NewMetrics, NewRateTable 0, demo_world demo_db)) = ob' \<and>
     HTTPInFlight ob' = 1 \<and> HTTPRequests ob' = [(''GET'', ''unmatched'', dec 404)] \<and>
     map (\<lambda>l. (ll_Path l, ll_RequestID l, ll_Error l)) (http_log ob') = [(''/api/v1/order'', ''req-1'', False)]"
proof -
  obtain ob' tw' where run: "engine_run no_limits broken_requests
      (NewMetrics, NewRateTable 0, demo_world demo_db) = (ob', tw')" by (metis surj_pair)
  have "fates no_limits broken_requests (NewRateTable 0, demo_world demo_db) =
      [(demo_binding, [''orders''], demo_request ''POST'' ''three'' '''', Panicked),
       (demo_binding, [''order''], demo_request ''GET'' ''three'' '''', Answered (answer 404 NoBody)),
       (demo_binding, [''orders'', ''''], demo_request ''POST'' ''three'' '''', Redirected)]"
    by (simp add: broken_requests_def demo_fates)
  from observed_requests [OF run this] run show ?thesis
    by (simp add: NewMetrics_def panics_def counts_def log_lines_def label_of_def route_eval answer_def
        url_path_def demo_binding_def)
qed

end
