(* ===== verification/Outer.thy ===== *)
theory Outer
  imports Startup Observed Messaging_Props Pool_Props
begin

text \<open>
  What the engine of router.go serves outside /api/v1: the probes, the service card, the metrics,
  the documentation (handler/docs.go) and the websocket; the route table as a whole; and the
  collectors that NewMetrics registers (observability/metrics.go).
\<close>

section \<open>Documentation\<close>

text \<open>An answer outside the API: a JSON object of strings, data with its content type, or the
  connection handed over to another protocol.\<close>

datatype OuterAnswer = JSONAnswer nat "(string \<times> string) list" | DataAnswer nat string string | HandedOver

record Docs =
  specPath :: string

definition NewDocs :: "string \<Rightarrow> Docs" where
  "NewDocs path = \<lparr>specPath = path\<rparr>"

text \<open>\<open>read\<close> is \<open>os.ReadFile\<close>.\<close>

definition Docs_Spec :: "(string \<Rightarrow> string outcome) \<Rightarrow> Docs \<Rightarrow> OuterAnswer" where
  "Docs_Spec read d = (case read (specPath d) of
      Ok data \<Rightarrow> DataAnswer 200 ''application/yaml'' data
    | _ \<Rightarrow> JSONAnswer 404 [(''error'', ''openapi specification not found'')])"

text \<open>The page, line by line.\<close>

definition swaggerUIPage :: "string list" where
  \<open>swaggerUIPage = [
     ''<!DOCTYPE html>'',
     ''<html lang="en">'',
     ''<head>'',
     ''<meta charset="UTF-8">'',
     ''<title>Order Processing API Docs</title>'',
     ''<link rel="stylesheet" href="https://unpkg.com/swagger-ui-dist/swagger-ui.css">'',
     ''</head>'',
     ''<body>'',
     ''<div id="swagger-ui"></div>'',
     ''<script src="https://unpkg.com/swagger-ui-dist/swagger-ui-bundle.js"></script>'',
     ''<script src="https://unpkg.com/swagger-ui-dist/swagger-ui-standalone-preset.js"></script>'',
     ''<script>'',
     ''window.onload = function () {'',
     ''  window.ui = SwaggerUIBundle({'',
     ''    url: "/openapi.yaml",'',
     ''    dom_id: "#swagger-ui",'',
     ''    deepLinking: true,'',
     ''    presets: [SwaggerUIBundle.presets.apis, SwaggerUIStandalonePreset],'',
     ''    layout: "StandaloneLayout"'',
     ''  });'',
     ''};'',
     ''</script>'',
     ''</body>'',
     ''</html>'']\<close>

fun unlines :: "string list \<Rightarrow> string" where
  "unlines [] = ''''"
| "unlines [l] = l"
| "unlines (l # ls) = l @ [CHR 0x0A] @ unlines ls"

definition Docs_UI :: OuterAnswer where
  "Docs_UI = DataAnswer 200 ''text/html; charset=utf-8'' (unlines swaggerUIPage)"

section \<open>The routes outside the API\<close>

datatype OuterRoute = HealthRoute | ReadyRoute | MetricsRoute | RootRoute | SpecRoute | UIRoute | WSRoute

text \<open>All are GET; the documentation and the websocket only where the dependency is there.\<close>

definition outer_routes :: "bool \<Rightarrow> bool \<Rightarrow> (string list \<times> OuterRoute) list" where
  "outer_routes docs ws =
     [([''health''], HealthRoute), ([''ready''], ReadyRoute), ([''metrics''], MetricsRoute), ([], RootRoute)] @
     (if docs then [([''openapi.yaml''], SpecRoute), ([''docs''], UIRoute)] else []) @
     (if ws then [([''ws''], WSRoute)] else [])"

text \<open>
  What the handlers outside the API use: the version, the database library, the handler of the
  collectors' library and that of the websocket, the file system.
\<close>

record ('s, 'd, 'q) Outer =
  out_Version :: string
  out_lib :: "('s, 'd, 'q) DBLib"
  out_DB :: "'d option"
  out_metrics :: "('s, OuterAnswer) prog"
  out_ws :: "('s, OuterAnswer) prog option"
  out_Docs :: "Docs option"
  out_readFile :: "string \<Rightarrow> string outcome"

definition service_card :: "string \<Rightarrow> OuterAnswer" where
  "service_card version = JSONAnswer 200
     [(''service'', ''order-processing''), (''version'', version), (''health'', ''/health''),
      (''ready'', ''/ready''), (''metrics'', ''/metrics''), (''docs'', ''/docs''), (''api'', ''/api/v1'')]"

definition health_answer :: "HealthAnswer \<Rightarrow> OuterAnswer" where
  "health_answer ha = JSONAnswer (fst ha) (snd ha)"

fun outer_endpoint :: "('s, 'd, 'q) Outer \<Rightarrow> OuterRoute \<Rightarrow> ('s, OuterAnswer) prog" where
  "outer_endpoint deps HealthRoute = return (health_answer (Health_Live (out_Version deps)))"
| "outer_endpoint deps ReadyRoute =
     check (Health_Ready (out_lib deps) (out_DB deps)) (\<lambda>ha. return (health_answer ha))"
| "outer_endpoint deps MetricsRoute = out_metrics deps"
| "outer_endpoint deps RootRoute = return (service_card (out_Version deps))"
| "outer_endpoint deps SpecRoute = (case out_Docs deps of
      Some d \<Rightarrow> return (Docs_Spec (out_readFile deps) d) | None \<Rightarrow> lift (Panic ''nil dereference''))"
| "outer_endpoint deps UIRoute = return Docs_UI"
| "outer_endpoint deps WSRoute = (case out_ws deps of
      Some h \<Rightarrow> h | None \<Rightarrow> lift (Panic ''nil dereference''))"

definition outer_route_of :: "('s, 'd, 'q) Outer \<Rightarrow> string \<Rightarrow> string list \<Rightarrow> OuterRoute option" where
  "outer_route_of deps httpMethod path = (if httpMethod = ''GET''
     then map_of (outer_routes (out_Docs deps \<noteq> None) (out_ws deps \<noteq> None)) path else None)"

text \<open>A handler is mounted only where the dependency it needs is there.\<close>

lemma outer_never_nil:
  assumes "outer_route_of deps httpMethod path = Some route"
  shows "(route = SpecRoute \<longrightarrow> out_Docs deps \<noteq> None) \<and> (route = WSRoute \<longrightarrow> out_ws deps \<noteq> None)"
  using assms by (auto simp: outer_route_of_def outer_routes_def split: if_splits)

text \<open>Readiness is answered with 200 exactly when the database can be reached through its handle.\<close>

lemma ready_answer:
  assumes "\<And>d s p s'. dbl_DB lib d s \<noteq> (Panic p, s')" and "\<And>q s p s'. dbl_Ping lib q s \<noteq> (Panic p, s')"
  shows "\<exists>status body s'. Health_Ready lib db s = (Ok (status, body), s') \<and>
    (if \<exists>d q s1 s2. db = Some d \<and> dbl_DB lib d s = (Ok q, s1) \<and> dbl_Ping lib q s1 = (Ok (), s2)
     then status = 200 else status = 503)"
proof (cases db)
  case None
  then show ?thesis by (simp add: Health_Ready_def)
next
  case (Some d)
  obtain r s1 where handle: "dbl_DB lib d s = (r, s1)" by force
  show ?thesis
  proof (cases r)
    case (Ok q)
    obtain pr s2 where "dbl_Ping lib q s1 = (pr, s2)" by (metis surj_pair)
    with assms(2) Some handle Ok show ?thesis by (cases pr) (auto simp: Health_Ready_def)
  next
    case (Panic p)
    with assms(1) handle show ?thesis by simp
  qed (simp add: Some handle Health_Ready_def)
qed

section \<open>The route table\<close>

text \<open>The routes of the service as an enumeration.\<close>

instantiation Route :: enum
begin

definition enum_Route :: "Route list" where
  "enum_Route = [Ping, AuthRegister, AuthLogin, UsersCreate, ProductsList, ProductsGet, UsersGet, UsersUpdate,
     ProductsInventory, OrdersPlace, OrdersList, OrdersGet, OrdersCancel, OrdersStatus, ProductsCreate,
     ProductsUpdate, AdminOrders, AdminStatus, AdminReport, AdminLowStock]"

definition enum_all_Route :: "(Route \<Rightarrow> bool) \<Rightarrow> bool" where
  "enum_all_Route P = list_all P enum_class.enum"

definition enum_ex_Route :: "(Route \<Rightarrow> bool) \<Rightarrow> bool" where
  "enum_ex_Route P = list_ex P enum_class.enum"

instance
proof
  show univ: "(UNIV :: Route set) = set enum_class.enum"
  proof (rule set_eqI)
    fix route :: Route
    show "route \<in> UNIV \<longleftrightarrow> route \<in> set enum_class.enum" by (cases route) (simp_all add: enum_Route_def)
  qed
  show "distinct (enum_class.enum :: Route list)" by (simp add: enum_Route_def)
  fix P :: "Route \<Rightarrow> bool"
  show "enum_class.enum_all P \<longleftrightarrow> Ball UNIV P" by (simp add: univ enum_all_Route_def list_all_iff)
  show "enum_class.enum_ex P \<longleftrightarrow> Bex UNIV P" by (simp add: univ enum_ex_Route_def list_ex_iff)
qed

end

text \<open>Every pattern of the engine, with its method.\<close>

definition mounted :: "bool \<Rightarrow> bool \<Rightarrow> (string \<times> string list) list" where
  "mounted docs ws = map (\<lambda>(pattern, _). (''GET'', pattern)) (outer_routes docs ws) @
     map (\<lambda>(m, pattern, _). (m, ''api'' # ''v1'' # pattern)) routes"

text \<open>Two patterns that some path could match both.\<close>

definition overlap :: "string \<times> string list \<Rightarrow> string \<times> string list \<Rightarrow> bool" where
  "overlap x y \<longleftrightarrow> fst x = fst y \<and> list_all2 (\<lambda>a b. a = b \<or> a = '':id'' \<or> b = '':id'') (snd x) (snd y)"

lemma matches_overlap: "matches p path \<Longrightarrow> matches q path \<Longrightarrow> overlap (m, p) (m, q)"
  unfolding matches_def overlap_def list_all2_conv_all_nth fst_conv snd_conv by metis

lemma mounted_apart: "sorted_wrt (\<lambda>x y. \<not> overlap x y) (mounted docs ws)"
  by (cases docs; cases ws) (simp_all add: mounted_def outer_routes_def routes_def overlap_def)

lemma filter_apart: "sorted_wrt (\<lambda>x y. \<not> (P x \<and> P y)) xs \<Longrightarrow> length (filter P xs) \<le> 1"
proof (induction xs)
  case (Cons x xs)
  then have "filter P xs = []" if "P x" using that by (auto simp: filter_empty_conv)
  with Cons show ?case by auto
qed simp

text \<open>
  No request has two handlers in the engine, whatever optional parts are mounted: the order of
  registration does not matter. Every route of the API is mounted at one place.
\<close>

theorem routes_exclusive:
  "length (filter (\<lambda>(m, pattern). m = httpMethod \<and> matches pattern path) (mounted docs ws)) \<le> 1"
  by (rule filter_apart, rule sorted_wrt_mono_rel [OF _ mounted_apart]) (auto dest: matches_overlap)

theorem routes_complete: "list_all (\<lambda>route. length (filter (\<lambda>(_, _, r). r = route) routes) = 1) enum_class.enum"
  by (simp add: enum_Route_def routes_def)

text \<open>\<open>Admin.Register\<close> mounts the last routes of the table, under a group of the path /admin.\<close>

definition Admin_Register :: "string list \<Rightarrow> (string \<times> string list \<times> Route) list" where
  "Admin_Register rg = map (\<lambda>(m, pattern, route). (m, rg @ ''admin'' # pattern, route))
     [(''GET'', [''orders''], AdminOrders),
      (''PUT'', [''orders'', '':id'', ''status''], AdminStatus),
      (''GET'', [''reports'', ''daily''], AdminReport),
      (''GET'', [''inventory'', ''low-stock''], AdminLowStock)]"

lemma routes_admin: "\<exists>api. routes = api @ Admin_Register []"
  by (rule exI [of _ "take 16 routes"]) (simp add: routes_def Admin_Register_def)

section \<open>The collectors\<close>

datatype CollectorKind = CounterVec | HistogramVec | Histogram | Gauge | GaugeVec

record Collector =
  col_kind :: CollectorKind
  col_Namespace :: string
  col_Subsystem :: string
  col_Name :: string
  col_labels :: "string list"

definition new_collectors :: "string \<Rightarrow> Collector list" where
  "new_collectors namespace = map (\<lambda>(k, sub, name, labels). \<lparr>col_kind = k, col_Namespace = namespace,
       col_Subsystem = sub, col_Name = name, col_labels = labels\<rparr>)
     [(CounterVec, ''http'', ''requests_total'', [''method'', ''path'', ''status'']),
      (HistogramVec, ''http'', ''request_duration_seconds'', [''method'', ''path'']),
      (Gauge, ''http'', ''in_flight_requests'', []),
      (CounterVec, ''orders'', ''processed_total'', [''status'']),
      (Histogram, ''orders'', ''processing_duration_seconds'', []),
      (CounterVec, ''inventory'', ''reservations_total'', [''result'']),
      (CounterVec, ''payment'', ''attempts_total'', [''result'']),
      (CounterVec, ''notification'', ''dispatched_total'', [''status'']),
      (GaugeVec, ''worker'', ''queue_depth'', [''queue''])]"

text \<open>
  \<open>MustRegister\<close> panics on a collector it has already; \<open>same\<close> is the library's test, on the
  names and labels of both.
\<close>

primrec mustRegister :: "(Collector \<Rightarrow> Collector \<Rightarrow> bool) \<Rightarrow> Collector list \<Rightarrow> (Collector list, unit) prog" where
  "mustRegister same [] = return ()"
| "mustRegister same (col # cols) = (\<lambda>reg. if \<exists>r \<in> set reg. same r col
      then (Panic ''duplicate metrics collector registration attempted'', reg)
      else mustRegister same cols (reg @ [col]))"

lemma mustRegister_fresh:
  assumes "sorted_wrt (\<lambda>c1 c2. \<not> same c1 c2) (reg @ cols)"
  shows "mustRegister same cols reg = (Ok (), reg @ cols)"
  using assms by (induction cols arbitrary: reg) (auto simp: sorted_wrt_append)

text \<open>If the library takes for equal only what has the same name, the registration ends without a panic.\<close>

theorem collectors_register:
  assumes "\<And>c1 c2. same c1 c2 \<Longrightarrow> col_Subsystem c1 = col_Subsystem c2 \<and> col_Name c1 = col_Name c2"
  shows "mustRegister same (new_collectors namespace) [] = (Ok (), new_collectors namespace)"
proof -
  have "sorted_wrt (\<lambda>c1 c2. \<not> (col_Subsystem c1 = col_Subsystem c2 \<and> col_Name c1 = col_Name c2))
      (new_collectors namespace)"
    by (simp add: new_collectors_def)
  then have "sorted_wrt (\<lambda>c1 c2. \<not> same c1 c2) ([] @ new_collectors namespace)"
    unfolding append_Nil by (rule sorted_wrt_mono_rel [rotated]) (use assms in blast)
  from mustRegister_fresh [OF this] show ?thesis by simp
qed

section \<open>The parts at work\<close>

text \<open>
  What \<open>bootstrap.New\<close> starts besides the database and the broker: the gateway, the event bus with
  its subscriptions, the hub's loop, the notification workers and the order workers.
\<close>

record ('t, 's) Parts =
  prt_gateway :: MockGateway
  prt_bus :: "'s funcHandler InProcessBus"
  prt_hub :: HubRun
  prt_dispatcher :: Dispatcher
  prt_pool :: "'t Pool"

definition bootstrap_parts :: "Config \<Rightarrow> time \<Rightarrow> 's RepositoryProvider \<Rightarrow> ('t, 's) Parts" where
  "bootstrap_parts cfg now reads = (let wk = cfg_Worker cfg; pay = cfg_Payment cfg in \<lparr>
     prt_gateway = NewMockGateway (pys_MinLatency pay) (pys_MaxLatency pay),
     prt_bus = subscribeAll now reads (NewInProcessBus (wks_EventWorkers wk) (wks_EventQueueSize wk)),
     prt_hub = Hub_Run,
     prt_dispatcher = Dispatcher_Start (NewDispatcher (wks_NotificationWorkers wk) (wks_NotificationQueueSize wk)),
     prt_pool = started_pool (wks_OrderWorkers wk) (wks_OrderQueueSize wk)\<rparr>)"

lemma at_least_one: "0 < nat (sint (if n <s 1 then 1 else n :: goint))"
  by (auto simp: word_sless_alt)

text \<open>
  Whatever the numbers in the configuration, each part starts in a state its invariants hold of,
  with a worker for every queue, and the subscriptions of the bus are those of \<open>subscribed\<close>.
\<close>

theorem parts_start_well:
  fixes cfg :: Config and now :: time and reads :: "'s RepositoryProvider"
  defines "parts \<equiv> bootstrap_parts cfg now reads :: ('t, 's) Parts"
  shows "pool_up (prt_pool parts) \<and> bus_inv (bus_started (prt_bus parts)) \<and> hub_inv (prt_hub parts) \<and>
    0 < dsp_idle (prt_dispatcher parts) \<and> mg_results (prt_gateway parts) = Map.empty"
proof -
  have bus: "bus_workers (subscribeAll now reads b) = bus_workers b" "bus_jobs (subscribeAll now reads b) = bus_jobs b"
    "bus_closed (subscribeAll now reads b) = bus_closed b" for b
    by (simp_all add: subscribeAll_def Bus_Subscribe_def)
  have "bus_inv (bus_started (prt_bus parts))"
    by (rule bus_started_inv)
      (simp_all add: parts_def bootstrap_parts_def Let_def bus NewInProcessBus_def at_least_one del: zero_less_nat_eq)
  moreover have "0 < dsp_idle (prt_dispatcher parts)"
    by (simp add: parts_def bootstrap_parts_def Let_def Dispatcher_Start_def NewDispatcher_def at_least_one
        del: zero_less_nat_eq)
  ultimately show ?thesis
    by (simp add: parts_def bootstrap_parts_def Let_def started_pool_up hub_inv_start NewMockGateway_def)
qed

end
