(* ===== verification/SeedProgram.thy ===== *)
theory SeedProgram
  imports Seed_Props Startup
begin

text \<open>
  The seed program as a whole (cmd/seed/main.go): it loads the configuration, opens the database,
  migrates it and stores the seeds. \<open>gorm\<close> is the driver of an opened database.
\<close>

definition seed_program :: "Std \<Rightarrow> Env \<Rightarrow> ('s, 'd, 'q) DBLib \<Rightarrow> ('d \<Rightarrow> 's Gorm) \<Rightarrow> PasswordHasher \<Rightarrow> time
    \<Rightarrow> ('s \<times> duration list, nat \<times> nat) prog" where
  "seed_program std env lib gorm hasher now =
     (case LoadConfig std env of
        (_, Some err) \<Rightarrow> fail err
      | (cfg, None) \<Rightarrow>
          check (DB_Open lib (cfg_DB cfg)) (\<lambda>db.
          check (wrapErr ''migrate: '' (AutoMigrate lib db)) (\<lambda>_.
          onFirst (runSeed (gorm db) hasher now))))"

text \<open>The exit code; a panic ends a Go program with 2.\<close>

definition seed_main :: "'a outcome \<Rightarrow> int" where
  "seed_main result = (case result of Ok _ \<Rightarrow> 0 | Err _ \<Rightarrow> 1 | Panic _ \<Rightarrow> 2)"

section \<open>What it leaves in the tables\<close>

text \<open>Connecting and migrating leave the rows of the tables alone.\<close>

definition db_lib_ok :: "('s, 'd, 'q) DBLib \<Rightarrow> ('s \<Rightarrow> DB) \<Rightarrow> bool" where
  "db_lib_ok lib view \<longleftrightarrow> (\<forall>dsn. quiet view (dbl_Open lib dsn)) \<and> (\<forall>d. quiet view (dbl_DB lib d)) \<and>
     (\<forall>q. quiet view (dbl_Ping lib q)) \<and> (\<forall>d. quiet view (dbl_AutoMigrate lib d)) \<and>
     (\<forall>q a b l i s. view (dbl_SetLimits lib q a b l i s) = view s)"

lemma quiet_onFirst [quiet_intros]: "quiet view m \<Longrightarrow> quiet (\<lambda>x. view (fst x)) (onFirst m)"
  by (auto simp: quiet_def onFirst_def split: prod.split) (metis snd_conv)

lemma quiet_wrapErr [quiet_intros]: "quiet view m \<Longrightarrow> quiet view (wrapErr txt m)"
  unfolding quiet_def wrapErr_def by (auto split: prod.split outcome.split) (metis snd_conv)+

lemma quiet_waitLoop:
  assumes "quiet view ping"
  shows "quiet (\<lambda>x. view (fst x)) (waitLoop ping backoff retries n lastErr)"
proof (induction n arbitrary: lastErr)
  case 0
  then show ?case by (simp add: quiet_def)
next
  case (Suc n)
  show ?case
    unfolding quiet_def
  proof
    fix x :: "'a \<times> duration list"
    obtain s slept where x: "x = (s, slept)" by force
    obtain r s1 where one: "ping s = (r, s1)" by (metis surj_pair)
    have "view s1 = view s" by (rule quietD [OF assms one])
    moreover have "view (fst (snd (waitLoop ping backoff retries n (Some e) (s1, sl)))) = view s1" for e sl
      using Suc.IH [of "Some e"] unfolding quiet_def by simp
    ultimately show "view (fst (snd (waitLoop ping backoff retries (Suc n) lastErr x))) = view (fst x)"
      by (cases r) (simp_all add: x one)
  qed
qed

lemma quiet_DB_Open:
  assumes "db_lib_ok lib view"
  shows "quiet (\<lambda>x. view (fst x)) (DB_Open lib cfg)"
proof -
  note lib = assms [unfolded db_lib_ok_def]
  have "quiet view (\<lambda>s. (Ok (), dbl_SetLimits lib q a b l i s))" for q a b l i
    using lib by (simp add: quiet_def)
  with lib show ?thesis
    unfolding DB_Open_def waitForDB_def by (intro quiet_intros quiet_waitLoop) auto
qed

text \<open>Whatever fails, the program only adds the rows of its seeds, and the books stay in order.\<close>

theorem seed_program_keeps_books:
  assumes "db_lib_ok lib view" and "\<And>db. gorm_ok (gorm db) view" and "shop_ok (view s)"
    and "seed_program std env lib gorm hasher now (s, slept) = (r, (s', slept'))"
  shows "shop_ok (view s') \<and> conserves (view s) (view s')"
proof (cases "LoadConfig std env")
  case (Pair cfg err)
  show ?thesis
  proof (cases err)
    case (Some e)
    with assms(3,4) Pair show ?thesis by (simp add: seed_program_def fail_def)
  next
    case None
    obtain r1 s1 sl1 where op: "DB_Open lib (cfg_DB cfg) (s, slept) = (r1, (s1, sl1))" by (metis surj_pair)
    have v1: "view s1 = view s" using quietD [OF quiet_DB_Open [OF assms(1)] op] by simp
    note run = assms(4) [unfolded seed_program_def Pair None prod.case option.case]
    show ?thesis
    proof (cases r1)
      case (Ok db)
      obtain r2 s2 sl2 where mig: "wrapErr ''migrate: '' (AutoMigrate lib db) (s1, sl1) = (r2, (s2, sl2))"
        by (metis surj_pair)
      have "quiet (\<lambda>x. view (fst x)) (wrapErr ''migrate: '' (AutoMigrate lib db))"
        using assms(1) unfolding AutoMigrate_def db_lib_ok_def by (intro quiet_intros) simp
      from quietD [OF this mig] v1 have v2: "view s2 = view s" by simp
      show ?thesis
      proof (cases r2)
        case (Ok u)
        obtain r3 s3 where sd: "runSeed (gorm db) hasher now s2 = (r3, s3)" by force
        have "s' = s3" using run op mig sd \<open>r1 = Ok db\<close> Ok by (simp add: check_def onFirst_def)
        moreover have "shop_ok (view s2)" using assms(3) v2 by simp
        from conjunct1 [OF runSeed_grows [OF assms(2) this sd]] have "shop_ok (view s3) \<and> conserves (view s2) (view s3)"
          by (simp add: grows_def)
        ultimately show ?thesis using v2 by simp
      qed (use run op mig \<open>r1 = Ok db\<close> v2 assms(3) in \<open>auto simp: check_def\<close>)
    qed (use run op v1 assms(3) in \<open>auto simp: check_def\<close>)
  qed
qed

end
