(* ===== verification/Spec2Isabelle.thy ===== *)
theory Spec2Isabelle
  imports PlaceOrder_Props CancelOrder_Props Domain_Props Repo_Props Pool_Props Backoffice_Props
    Query_Props Messaging_Props Web_Props Settings_Props Session_Props Seed_Props Races Conform_Props
    Outer SeedProgram
begin

text \<open>
  Verification of the order-processing service.

  The program is a Go HTTP service in layers: aggregates (internal/domain), use cases
  (internal/application) over ports, adapters (internal/infrastructure: SQL repositories, payment
  gateway, event bus, notification dispatcher), the HTTP interface (internal/interfaces), a worker
  pool (pkg/concurrency) and the wiring (internal/bootstrap, router). A request passes the
  middleware and an HTTP handler, calls a use case, which runs transactions over the repositories
  and publishes the events of the aggregates; the bus hands them to handlers that audit, notify and
  broadcast.

  \<^bold>\<open>Conventions (GoPrelude, Errs).\<close> A Go function with results \<open>(v, error)\<close> is a state
  transformer \<open>('s, 'a) prog = 's \<Rightarrow> 'a outcome \<times> 's\<close>, where an \<open>outcome\<close> is \<open>Ok\<close>, \<open>Err\<close> (an error
  value as pkg/errs builds it, wrapping included) or \<open>Panic\<close>. \<open>if err != nil { return ..., err }\<close> is
  \<open>check\<close>. Go's \<open>int\<close> and \<open>int64\<close> are signed readings of 64-bit words, ids are unsigned ones; SQL
  columns reject an update that leaves the range (\<open>sql_add\<close>, \<open>sql_sub\<close>) where Go wraps. Times are
  integers of nanoseconds. A pointer receiver is a record that is passed and returned.

  \<^bold>\<open>Domain.\<close> Shared (event.go, money.go), Inventory_Agg, Order_Agg, Payment_Agg, Product_Agg,
  User_Agg, Notification_Agg, Audit_Agg: one record per aggregate, one function per method, with the
  events it records. Their lemmas: the exact effect of each operation, the state machine of the
  order and the history its events tell, conservation of stock, coherence of a payment with its
  status, exactness of totals (Domain_Props).

  \<^bold>\<open>Persistence.\<close> Models (models.go) has the rows of the tables, their unique keys and \<open>db_ok\<close>; Gorm
  is the interface of the gorm driver, which is not under src/: a record of operations per table,
  with the laws \<open>table_ok\<close> and \<open>gorm_ok\<close> that state the documented behaviour (what a successful
  statement does to the table, that a failed one does nothing) over an abstraction \<open>view\<close> of the
  driver's state to the tables. Mappers, InventoryRepo, OrderRepo, PaymentRepo, OtherRepos,
  UnitOfWork translate the repositories; Ports (ports/*.go) has the interfaces as records and their
  contracts as locales, which the repositories' theories interpret. MemDB is a driver in memory, used
  by the witnesses to show that the laws can hold (Examples has its concrete databases). Repo_Props:
  SQL updates refine the aggregate's operations, interleaved updates never oversell, an order is read
  back as it was written.

  \<^bold>\<open>Use cases.\<close> PlaceOrder (place_order.go) with its reservation and settlement transactions and the
  charge loop over \<open>maxAttempts\<close>, a structural recursion on the attempts left, so it always ends;
  PlaceOrder_Steps and PlaceOrder_Correct trace a run through its steps, Accounting defines what it
  means that the books are in order (\<open>accounted\<close>, \<open>warehouse\<close>). CancelOrder also holds
  UpdateOrderStatus; Transacting is the contract of a transaction the other commands share;
  Catalogue (create_product.go, update_product.go), Accounts (register, login, update user), Queries
  (query/*.go; the paging loop of the daily report is a \<open>partial_function\<close>, and its termination is a
  property). Their properties: PlaceOrder_Props, CancelOrder_Props, Backoffice_Props, Query_Props.

  \<^bold>\<open>Concurrency.\<close> WorkerPool (workerpool.go), Gateway (mock_gateway.go), EventBus (eventbus.go) and
  Dispatch (dispatcher.go) are state machines whose steps are the stretches between two points where
  a goroutine can wait; a run is any list of steps the machine accepts, so every schedule is covered.
  A worker on its way to its receive and one that waits in it are told apart, since a select with a
  default takes only the second for ready; a delivery of the bus has a step where it starts and one
  where it ends, so handlers overlap, and ghost lists keep what was delivered and what a publisher
  lost that sent on the closed channel.
  Hub (ws/hub.go) is an inductive step relation with labels. EventHandlers are the handlers with
  their subscription. Invariants are proved per step and lifted to runs; Pool_Props, Messaging_Props,
  Web_Props state them.

  \<^bold>\<open>Interface.\<close> Http (dto, httpx, parameters and pages), Middleware, Handlers (handler/*.go), Service
  (router.go, bootstrap.go: routes, groups, wiring; \<open>serve\<close> is the redirect gin makes for a path that is
  a route but for a slash at its end, or else \<open>chain\<close>, the middleware with the routes). Quiet shows
  that reading requests change no table. Keeping lifts any reflexive and transitive relation of tables that the commands keep to
  endpoints, requests and histories of requests (the locale \<open>keeping\<close>). It is interpreted twice:
  Books, for the accounting (all requests but the administrator's status changes, which break it:
  \<open>update_status_leaks_stock\<close>), and Conform, for the types of the tables and for what no request can
  undo. Web_Props: who may do what, error answers, rate limits, the hub; Conform_Props: the types
  and the evolution of the tables over any run of requests. A run serves requests one at a time;
  what two requests can do to each other in between is the matter of Races, Repo_Props and Gateway.
  Observed is the engine with logger and HTTP metrics, shown to give the answers of \<open>serve\<close> and to
  leave one line and one count per answered request; Outer the routes outside /api/v1 (probes, service
  card, docs.go), the route table as a whole, the metrics that are registered, and the parts that bootstrap starts.

  \<^bold>\<open>Accounts and sessions.\<close> Tokens (auth/bcrypt.go, auth/jwt.go) over the hashing and token libraries,
  whose documented behaviour are the laws \<open>bcrypt_ok\<close> and \<open>jwt_ok\<close>; Session_Props follows a token from
  the login to the routes it opens. Races: a cancellation split at the point where another
  request can run between its read and its transaction.

  \<^bold>\<open>The process.\<close> Settings (config.go) is the configuration, Settings_Props what its validation
  guarantees. Rabbit (messaging/rabbitmq.go) is the optional broker over the client library, with
  the part of bootstrap.go that connects it. Startup has the database connection with its waiting
  loop (db.go; a recursion on the retries left), the migration, bootstrap's New and Stop, the
  server, the main program and the health endpoints. Seed (cmd/seed/main.go) is the seed program,
  with a locale for a list of seeds that both kinds interpret, Seed_Props its repeatability,
  SeedProgram the whole program from its configuration on.

  \<^bold>\<open>Parameters.\<close> What is not under src/ is an argument: the gorm driver and its transactions, the
  JSON binding, the redirects of gin's router beyond the documented ones and the URLs it makes, the
  password hash and token libraries, the broker's client, the rate limiter's token bucket, random
  numbers and float and duration parsing. Hypotheses on them (\<open>gorm_ok\<close>, \<open>uow_ok\<close>, \<open>app_ok\<close>) say only what
  their documentation promises, and each property with one has a witness at a concrete instance.
  Transactions are atomic and use cases run one after the other in the sequential theories; the
  interleaving of SQL statements is covered by \<open>no_oversell\<close>.

  \<^bold>\<open>Not modelled.\<close> clock.go (it reads the system clock: times are arguments) and logger.go (output
  only). Latencies, and the collectors that are registered but that no code moves. The listener
  and the signals are the event \<open>server_event\<close>, the answers of the metrics handler and the
  websocket upgrade parameters of Outer. Contexts and their cancellation appear only where the
  code tests them. \<open>UpdatedAt\<close> columns are left out: no code reads them. Getters are the
  selectors of the records.
\<close>

end
